theory Spec2Isabelle
  imports Main "HOL-Library.Finite_Map" "HOL-Library.Sublist" "HOL-Library.Char_ord"
    "HOL-Library.List_Lexorder"
begin

section \<open>The router's model, certificate files and reconciliation loop\<close>

text \<open>
  A shallow embedding of three Go sources of the router: the package \<open>model\<close>
  (\<open>Build\<close> and what it calls), the file writers of the package \<open>nginx\<close>
  (\<open>WriteCerts\<close>, \<open>writeCert\<close>, \<open>WriteDHParam\<close>, \<open>WriteConfig\<close>) and the
  main loop of the router. Go maps are finite maps, Go slices are lists, a pointer that
  may be nil is an option, a Go \<open>error\<close> result is the left summand of a sum (or an
  \<open>error option\<close> beside the new state), and what a function prints with the package
  \<open>log\<close> is returned as a list of lines.
\<close>

subsection \<open>Errors\<close>

text \<open>
  The error values the code tells apart or makes: a \<open>*errors.StatusError\<close> of the
  cluster API with its status code, an error made by \<open>fmt.Errorf\<close>, a
  \<open>*os.PathError\<close> of a file operation, and any other error. Each carries the text
  that \<open>err.Error()\<close> prints.
\<close>

datatype error =
    StatusError nat string
  | Errorf string
  | PathError string string string
  | OtherError string

fun Error :: "error \<Rightarrow> string" where
  "Error (StatusError code msg) = msg"
| "Error (Errorf msg) = msg"
| "Error (PathError op path msg) = op @ '' '' @ path @ '': '' @ msg"
| "Error (OtherError msg) = msg"

subsection \<open>Cluster objects and the cluster client\<close>

type_synonym annotations = "(string, string) fmap"

record Deployment =
  Annotations :: annotations

record Service =
  Name :: string
  Namespace :: string
  Labels :: "(string, string) fmap"
  Annotations :: annotations
  ClusterIP :: string

record Secret =
  Data :: "(string, string) fmap"

text \<open>
  A subset of an endpoints object lists its ready addresses in \<open>Addresses\<close> and the
  others in \<open>NotReadyAddresses\<close>.
\<close>

record EndpointSubset =
  Addresses :: "string list"
  NotReadyAddresses :: "string list"

record Endpoints =
  Subsets :: "EndpointSubset list"

text \<open>
  The calls the model makes on \<open>*kubernetes.Clientset\<close>, each as a function of the
  namespace and the object's name that gives the object or the error of the call. One value
  of this record is the cluster as one synthesis reads it.
\<close>

record Clientset =
  Deployments_Get :: "string \<Rightarrow> string \<Rightarrow> error + Deployment"
  Services_List :: "error + Service list"
  Services_Get :: "string \<Rightarrow> string \<Rightarrow> error + Service"
  Secrets_Get :: "string \<Rightarrow> string \<Rightarrow> error + Secret"
  Endpoints_Get :: "string \<Rightarrow> string \<Rightarrow> error + Endpoints"

subsection \<open>The configuration model\<close>

text \<open>
  The structs of the package \<open>model\<close>, field by field. A nested configuration that
  every constructor allocates (\<open>GzipConfig\<close>, \<open>SSLConfig\<close>, \<open>HSTSConfig\<close>,
  \<open>ProxyBuffersConfig\<close>, \<open>Nginx\<close>) is a plain record; a pointer that the code
  leaves nil (\<open>PlatformCertificate\<close>, \<open>BuilderConfig\<close>, the values of the map
  \<open>Certificates\<close>) is an option. Field names that two structs share are written with
  the record's name in front where the last declaration is not the one meant.
\<close>

record Certificate =
  Cert :: string
  Key :: string

record HSTSConfig =
  Enabled :: bool
  MaxAge :: int
  IncludeSubDomains :: bool
  Preload :: bool

record SSLConfig =
  Enforce :: bool
  Protocols :: string
  Ciphers :: string
  SessionCache :: string
  SessionTimeout :: string
  UseSessionTickets :: bool
  BufferSize :: string
  HSTSConfig :: HSTSConfig
  EarlyDataMethods :: string
  DHParam :: string

record GzipConfig =
  Enabled :: bool
  CompLevel :: string
  Disable :: string
  HTTPVersion :: string
  MinLength :: string
  Proxied :: string
  Types :: string
  Vary :: string

record ProxyBuffersConfig =
  Enabled :: bool
  Number :: int
  Size :: string
  BusySize :: string

record NginxAppConfig =
  ProxyBuffersConfig :: ProxyBuffersConfig

record BuilderConfig =
  ConnectTimeout :: string
  TCPTimeout :: string
  ServiceIP :: string

text \<open>
  \<open>Location.App\<close> points at an \<open>AppConfig\<close> of the same snapshot, which in turn
  holds the location: the pointer is embedded as the index of that app in the snapshot's
  list \<open>AppConfigs\<close>.
\<close>

record Location =
  App :: nat
  Path :: string

record AppConfig =
  Name :: string
  Domains :: "string list"
  RegexDomain :: string
  Whitelist :: "string list"
  ConnectTimeout :: string
  TCPTimeout :: string
  ServiceIP :: string
  CertMappings :: "(string, string) fmap"
  Certificates :: "(string, Certificate option) fmap"
  Available :: bool
  Maintenance :: bool
  DisableRequestStartHeader :: bool
  ReferrerPolicy :: string
  SSLConfig :: SSLConfig
  Nginx :: NginxAppConfig
  ProxyLocations :: "string list"
  ProxyDomain :: string
  Locations :: "Location list"

record RouterConfig =
  WorkerProcesses :: string
  MaxWorkerConnections :: string
  TrafficStatusZoneSize :: string
  DefaultTimeout :: string
  ServerNameHashMaxSize :: string
  ServerNameHashBucketSize :: string
  GzipConfig :: GzipConfig
  BodySize :: string
  LargeHeaderBuffersCount :: string
  LargeHeaderBuffersSize :: string
  ProxyRealIPCIDRs :: "string list"
  ErrorLogLevel :: string
  PlatformDomain :: string
  UseProxyProtocol :: bool
  DisableServerTokens :: bool
  EnforceWhitelists :: bool
  DefaultWhitelist :: "string list"
  WhitelistMode :: string
  EnableRegexDomains :: bool
  LoadModsecurityModule :: bool
  DefaultServiceIP :: string
  DefaultAppName :: string
  DefaultServiceEnabled :: bool
  RequestIDs :: bool
  RequestStartHeader :: bool
  SSLConfig :: SSLConfig
  AppConfigs :: "AppConfig list"
  BuilderConfig :: "BuilderConfig option"
  PlatformCertificate :: "Certificate option"
  HTTP2Enabled :: bool
  LogFormat :: string
  ProxyBuffersConfig :: ProxyBuffersConfig
  ReferrerPolicy :: string

subsection \<open>The annotation binder\<close>

text \<open>
  Modelled from the spec: the binder \<open>modeler.MapToModel\<close> (package
  \<open>utils/modeler\<close>) is not among the sources. The spec says that it overlays
  annotation values field by field on an object built with its defaults. It is a
  parameter here, one function for each type it is called on, taking the annotations, the
  sub-scope of the keys and the object. A field that carries no \<open>key\<close> tag in its
  struct is not bound: the three functions below keep the old values of those fields.
\<close>

record Modeler =
  bind_RouterConfig :: "annotations \<Rightarrow> string \<Rightarrow> RouterConfig \<Rightarrow> error + RouterConfig"
  bind_AppConfig :: "annotations \<Rightarrow> string \<Rightarrow> AppConfig \<Rightarrow> error + AppConfig"
  bind_BuilderConfig :: "annotations \<Rightarrow> string \<Rightarrow> BuilderConfig \<Rightarrow> error + BuilderConfig"

definition MapToModel_RouterConfig ::
  "Modeler \<Rightarrow> annotations \<Rightarrow> string \<Rightarrow> RouterConfig \<Rightarrow> error + RouterConfig" where
  "MapToModel_RouterConfig modeler anns scope routerConfig =
     (case bind_RouterConfig modeler anns scope routerConfig of
        Inl err \<Rightarrow> Inl err
      | Inr bound \<Rightarrow>
          Inr (bound\<lparr>AppConfigs := AppConfigs routerConfig,
                      BuilderConfig := BuilderConfig routerConfig,
                      PlatformCertificate := PlatformCertificate routerConfig,
                      SSLConfig := (SSLConfig bound)\<lparr>DHParam := DHParam (SSLConfig routerConfig)\<rparr>\<rparr>))"

definition MapToModel_AppConfig ::
  "Modeler \<Rightarrow> annotations \<Rightarrow> string \<Rightarrow> AppConfig \<Rightarrow> error + AppConfig" where
  "MapToModel_AppConfig modeler anns scope appConfig =
     (case bind_AppConfig modeler anns scope appConfig of
        Inl err \<Rightarrow> Inl err
      | Inr bound \<Rightarrow>
          Inr (bound\<lparr>Name := Name appConfig,
                      ServiceIP := ServiceIP appConfig,
                      Certificates := Certificates appConfig,
                      Available := Available appConfig,
                      Locations := Locations appConfig,
                      AppConfig.SSLConfig :=
                        (AppConfig.SSLConfig bound)\<lparr>DHParam := DHParam (AppConfig.SSLConfig appConfig)\<rparr>\<rparr>))"

definition MapToModel_BuilderConfig ::
  "Modeler \<Rightarrow> annotations \<Rightarrow> string \<Rightarrow> BuilderConfig \<Rightarrow> error + BuilderConfig" where
  "MapToModel_BuilderConfig modeler anns scope builderConfig =
     (case bind_BuilderConfig modeler anns scope builderConfig of
        Inl err \<Rightarrow> Inl err
      | Inr bound \<Rightarrow> Inr (bound\<lparr>BuilderConfig.ServiceIP := BuilderConfig.ServiceIP builderConfig\<rparr>))"

subsection \<open>Constructors with defaults\<close>

definition newGzipConfig :: GzipConfig where
  "newGzipConfig =
     \<lparr>GzipConfig.Enabled = True,
      CompLevel = ''5'',
      Disable = ''msie6'',
      HTTPVersion = ''1.1'',
      MinLength = ''256'',
      Proxied = ''any'',
      Types = ''application/atom+xml application/javascript application/json application/rss+xml application/vnd.ms-fontobject application/x-font-ttf application/x-web-app-manifest+json application/xhtml+xml application/xml font/opentype image/svg+xml image/x-icon text/css text/plain text/x-component'',
      Vary = ''on''\<rparr>"

definition newBuilderConfig :: BuilderConfig where
  "newBuilderConfig =
     \<lparr>BuilderConfig.ConnectTimeout = ''10s'',
      BuilderConfig.TCPTimeout = ''1200s'',
      BuilderConfig.ServiceIP = []\<rparr>"

definition newCertificate :: "string \<Rightarrow> string \<Rightarrow> Certificate" where
  "newCertificate cert key = \<lparr>Cert = cert, Key = key\<rparr>"

definition newHSTSConfig :: HSTSConfig where
  "newHSTSConfig =
     \<lparr>HSTSConfig.Enabled = False,
      MaxAge = 15552000,
      IncludeSubDomains = False,
      Preload = False\<rparr>"

definition newSSLConfig :: SSLConfig where
  "newSSLConfig =
     \<lparr>Enforce = False,
      Protocols = ''TLSv1.2 TLSv1.3'',
      Ciphers = ''ECDHE-ECDSA-AES128-GCM-SHA256:ECDHE-RSA-AES128-GCM-SHA256:ECDHE-ECDSA-AES256-GCM-SHA384:ECDHE-RSA-AES256-GCM-SHA384:ECDHE-ECDSA-CHACHA20-POLY1305:ECDHE-RSA-CHACHA20-POLY1305:DHE-RSA-AES128-GCM-SHA256:DHE-RSA-AES256-GCM-SHA384'',
      SessionCache = [],
      SessionTimeout = ''10m'',
      UseSessionTickets = True,
      BufferSize = ''4k'',
      HSTSConfig = newHSTSConfig,
      EarlyDataMethods = ''GET|HEAD|OPTIONS'',
      DHParam = []\<rparr>"

text \<open>
  \<open>newProxyBuffersConfig\<close> copies a given configuration through a \<open>gob\<close> encoder
  and decoder; the copy of a struct of a bool, an int and two strings is the struct, and
  the encoder's error results are kept as the sum's left side, which this copy never
  takes.
\<close>

definition newProxyBuffersConfig :: "ProxyBuffersConfig option \<Rightarrow> error + ProxyBuffersConfig" where
  "newProxyBuffersConfig proxyBuffersConfig =
     (case proxyBuffersConfig of
        Some given \<Rightarrow> Inr given
      | None \<Rightarrow> Inr \<lparr>ProxyBuffersConfig.Enabled = False, Number = 8, Size = ''4k'', BusySize = ''8k''\<rparr>)"

definition newNginxAppConfig :: "RouterConfig \<Rightarrow> error + NginxAppConfig" where
  "newNginxAppConfig routerConfig =
     (case newProxyBuffersConfig (Some (ProxyBuffersConfig routerConfig)) of
        Inl err \<Rightarrow> Inl err
      | Inr proxyBuffersConfig \<Rightarrow>
          Inr \<lparr>NginxAppConfig.ProxyBuffersConfig = proxyBuffersConfig\<rparr>)"

definition newAppConfig :: "RouterConfig \<Rightarrow> error + AppConfig" where
  "newAppConfig routerConfig =
     (case newNginxAppConfig routerConfig of
        Inl err \<Rightarrow> Inl err
      | Inr nginxConfig \<Rightarrow>
          Inr \<lparr>Name = [],
               Domains = [],
               RegexDomain = [],
               Whitelist = [],
               ConnectTimeout = ''30s'',
               TCPTimeout = DefaultTimeout routerConfig,
               ServiceIP = [],
               CertMappings = fmempty,
               Certificates = fmempty,
               Available = False,
               Maintenance = False,
               DisableRequestStartHeader = False,
               AppConfig.ReferrerPolicy = [],
               AppConfig.SSLConfig = newSSLConfig,
               Nginx = nginxConfig,
               ProxyLocations = [],
               ProxyDomain = [],
               Locations = []\<rparr>)"

definition newRouterConfig :: "error + RouterConfig" where
  "newRouterConfig =
     (case newProxyBuffersConfig None of
        Inl err \<Rightarrow> Inl err
      | Inr proxyBuffersConfig \<Rightarrow>
          Inr \<lparr>WorkerProcesses = ''auto'',
               MaxWorkerConnections = ''768'',
               TrafficStatusZoneSize = ''1m'',
               DefaultTimeout = ''1300s'',
               ServerNameHashMaxSize = ''512'',
               ServerNameHashBucketSize = ''64'',
               GzipConfig = newGzipConfig,
               BodySize = ''1m'',
               LargeHeaderBuffersCount = ''4'',
               LargeHeaderBuffersSize = ''32k'',
               ProxyRealIPCIDRs = [''10.0.0.0/8''],
               ErrorLogLevel = ''error'',
               PlatformDomain = [],
               UseProxyProtocol = False,
               DisableServerTokens = False,
               EnforceWhitelists = False,
               DefaultWhitelist = [],
               WhitelistMode = ''extend'',
               EnableRegexDomains = False,
               LoadModsecurityModule = False,
               DefaultServiceIP = [],
               DefaultAppName = [],
               DefaultServiceEnabled = False,
               RequestIDs = False,
               RequestStartHeader = False,
               SSLConfig = newSSLConfig,
               AppConfigs = [],
               BuilderConfig = None,
               PlatformCertificate = None,
               HTTP2Enabled = True,
               LogFormat = ''[$time_iso8601] - $app_name - $remote_addr - $remote_user - $status - \"$request\" - $bytes_sent - \"$http_referer\" - \"$http_user_agent\" - \"$server_name\" - $upstream_addr - $http_host - $upstream_response_time - $request_time'',
               ProxyBuffersConfig = proxyBuffersConfig,
               ReferrerPolicy = []\<rparr>)"

subsection \<open>Reading the cluster\<close>

text \<open>
  The package variable \<open>namespace\<close> (the environment's \<open>POD_NAMESPACE\<close>, or
  \<open>default\<close>) is the parameter \<open>namespace\<close> of the functions that read it.
\<close>

definition getDeployment :: "string \<Rightarrow> Clientset \<Rightarrow> error + Deployment" where
  "getDeployment namespace kubeClient = Deployments_Get kubeClient namespace ''deis-router''"

definition getAppServices :: "Clientset \<Rightarrow> error + Service list" where
  "getAppServices kubeClient = Services_List kubeClient"

definition getBuilderService :: "string \<Rightarrow> Clientset \<Rightarrow> error + Service option" where
  "getBuilderService namespace kubeClient =
     (case Services_Get kubeClient namespace ''deis-builder'' of
        Inl err \<Rightarrow>
          (case err of
             StatusError code msg \<Rightarrow> if code = 404 then Inr None else Inl err
           | _ \<Rightarrow> Inl err)
      | Inr service \<Rightarrow> Inr (Some service))"

definition getSecret :: "Clientset \<Rightarrow> string \<Rightarrow> string \<Rightarrow> error + Secret option" where
  "getSecret kubeClient name ns =
     (case Secrets_Get kubeClient ns name of
        Inl err \<Rightarrow>
          (case err of
             StatusError code msg \<Rightarrow> if code = 404 then Inr None else Inl err
           | _ \<Rightarrow> Inl err)
      | Inr secret \<Rightarrow> Inr (Some secret))"

subsection \<open>Certificates and DH parameters from secrets\<close>

text \<open>
  A function that logs returns the lines it printed, in order, beside its result (the
  time stamp that the package \<open>log\<close> puts in front of a line is left out).
\<close>

type_synonym 'a logged = "string list \<times> 'a"

definition buildCertificate :: "Secret \<Rightarrow> string \<Rightarrow> (error + Certificate option) logged" where
  "buildCertificate certSecret ctx =
     (case fmlookup (Data certSecret) ''tls.crt'' of
        None \<Rightarrow>
          ([''WARN: The k8s secret intended to convey the '' @ ctx @
              '' certificate contained no entry \"tls.crt\".''], Inr None)
      | Some cert \<Rightarrow>
          (case fmlookup (Data certSecret) ''tls.key'' of
             None \<Rightarrow>
               ([''WARN: The k8s secret intended to convey the '' @ ctx @
                   '' certificate key contained no entry \"tls.key\".''], Inr None)
           | Some key \<Rightarrow> ([], Inr (Some (newCertificate cert key)))))"

definition buildDHParam :: "Secret \<Rightarrow> (error + string) logged" where
  "buildDHParam dhParamSecret =
     (case fmlookup (Data dhParamSecret) ''dhparam'' of
        None \<Rightarrow>
          ([''WARN: The k8s secret intended to convey the dhparam contained no entry \"dhparam\".''],
           Inr [])
      | Some dhParam \<Rightarrow> ([], Inr dhParam))"

subsection \<open>Synthesis of the snapshot\<close>

definition buildRouterConfig ::
  "Modeler \<Rightarrow> Deployment \<Rightarrow> Secret option \<Rightarrow> Secret option \<Rightarrow> (error + RouterConfig) logged" where
  "buildRouterConfig modeler routerDeployment platformCertSecret dhParamSecret =
     (case newRouterConfig of
        Inl err \<Rightarrow> ([], Inl err)
      | Inr routerConfig0 \<Rightarrow>
          (case MapToModel_RouterConfig modeler (Deployment.Annotations routerDeployment) ''nginx''
                  routerConfig0 of
             Inl err \<Rightarrow> ([], Inl err)
           | Inr routerConfig1 \<Rightarrow>
               (case (case platformCertSecret of
                        None \<Rightarrow> ([], Inr routerConfig1)
                      | Some secret \<Rightarrow>
                          (case buildCertificate secret ''platform'' of
                             (l, Inl err) \<Rightarrow> (l, Inl err)
                           | (l, Inr platformCertificate) \<Rightarrow>
                               (l, Inr (routerConfig1\<lparr>PlatformCertificate := platformCertificate\<rparr>)))) of
                  (l1, Inl err) \<Rightarrow> (l1, Inl err)
                | (l1, Inr routerConfig2) \<Rightarrow>
                    (case dhParamSecret of
                       None \<Rightarrow> (l1, Inr routerConfig2)
                     | Some secret \<Rightarrow>
                         (case buildDHParam secret of
                            (l2, Inl err) \<Rightarrow> (l1 @ l2, Inl err)
                          | (l2, Inr dhParam) \<Rightarrow>
                              (l1 @ l2,
                               Inr (routerConfig2\<lparr>SSLConfig :=
                                      (SSLConfig routerConfig2)\<lparr>DHParam := dhParam\<rparr>\<rparr>)))))))"

text \<open>
  The body of the loop of \<open>buildAppConfig\<close> over the app's domains: which certificate,
  if any, secures one domain. \<open>strings.Contains(domain, ".")\<close> is membership of the
  character in the string.
\<close>

definition buildAppConfig_domain ::
  "Clientset \<Rightarrow> Service \<Rightarrow> RouterConfig \<Rightarrow> string \<Rightarrow> AppConfig \<Rightarrow> (error + AppConfig) logged" where
  "buildAppConfig_domain kubeClient service routerConfig domain appConfig =
     (if CHR ''.'' \<in> set domain then
        (case fmlookup (CertMappings appConfig) domain of
           Some certMapping \<Rightarrow>
             (case getSecret kubeClient (certMapping @ ''-cert'') (Namespace service) of
                Inl err \<Rightarrow> ([], Inl err)
              | Inr None \<Rightarrow> ([], Inr appConfig)
              | Inr (Some certSecret) \<Rightarrow>
                  (case buildCertificate certSecret domain of
                     (l, Inl err) \<Rightarrow> (l, Inl err)
                   | (l, Inr certificate) \<Rightarrow>
                       (l, Inr (appConfig\<lparr>Certificates :=
                                  fmupd domain certificate (Certificates appConfig)\<rparr>))))
         | None \<Rightarrow> ([], Inr appConfig))
      else
        ([], Inr (appConfig\<lparr>Certificates :=
                    fmupd domain (PlatformCertificate routerConfig) (Certificates appConfig)\<rparr>)))"

fun buildAppConfig_domains ::
  "Clientset \<Rightarrow> Service \<Rightarrow> RouterConfig \<Rightarrow> string list \<Rightarrow> AppConfig \<Rightarrow> (error + AppConfig) logged" where
  "buildAppConfig_domains kubeClient service routerConfig [] appConfig = ([], Inr appConfig)"
| "buildAppConfig_domains kubeClient service routerConfig (domain # rest) appConfig =
     (case buildAppConfig_domain kubeClient service routerConfig domain appConfig of
        (l, Inl err) \<Rightarrow> (l, Inl err)
      | (l, Inr appConfig') \<Rightarrow>
          (case buildAppConfig_domains kubeClient service routerConfig rest appConfig' of
             (l', r) \<Rightarrow> (l @ l', r)))"

text \<open>
  \<open>buildAppConfig\<close> returns a nil app (\<open>None\<close>) and no error for a service with no
  domain. \<open>service.Labels["app"]\<close> is the empty string when the label is missing.
\<close>

definition buildAppConfig ::
  "Modeler \<Rightarrow> Clientset \<Rightarrow> Service \<Rightarrow> RouterConfig \<Rightarrow> (error + AppConfig option) logged" where
  "buildAppConfig modeler kubeClient service routerConfig =
     (case newAppConfig routerConfig of
        Inl err \<Rightarrow> ([], Inl err)
      | Inr appConfig0 \<Rightarrow>
          (let label = (case fmlookup (Labels service) ''app'' of None \<Rightarrow> [] | Some v \<Rightarrow> v);
               name1 = (if label = [] then Service.Name service else label);
               name2 = (if name1 \<noteq> Namespace service then Namespace service @ ''/'' @ name1 else name1);
               appConfig1 = appConfig0\<lparr>Name := name2\<rparr>
           in case MapToModel_AppConfig modeler (Service.Annotations service) [] appConfig1 of
                Inl err \<Rightarrow> ([], Inl err)
              | Inr appConfig2 \<Rightarrow>
                  if length (Domains appConfig2) = 0 then ([], Inr None)
                  else
                    (case buildAppConfig_domains kubeClient service routerConfig
                            (Domains appConfig2) appConfig2 of
                       (l, Inl err) \<Rightarrow> (l, Inl err)
                     | (l, Inr appConfig3) \<Rightarrow>
                         (case Endpoints_Get kubeClient (Namespace service) (Service.Name service) of
                            Inl err \<Rightarrow> (l, Inl err)
                          | Inr endpoints \<Rightarrow>
                              (l, Inr (Some (appConfig3
                                 \<lparr>ServiceIP := ClusterIP service,
                                  Available :=
                                    (length (Subsets endpoints) > 0 \<and>
                                     length (Addresses (Subsets endpoints ! 0)) > 0)\<rparr>)))))))"

definition buildBuilderConfig :: "Modeler \<Rightarrow> Service \<Rightarrow> error + BuilderConfig option" where
  "buildBuilderConfig modeler service =
     (case MapToModel_BuilderConfig modeler (Service.Annotations service) ''nginx''
             (newBuilderConfig\<lparr>BuilderConfig.ServiceIP := ClusterIP service\<rparr>) of
        Inl err \<Rightarrow> Inl err
      | Inr builderConfig \<Rightarrow> Inr (Some builderConfig))"

text \<open>
  \<open>appByDomain\<close> returns a pointer to the first app, in the order of the list, one of
  whose domains is the given one: here the index of that app, and \<open>None\<close> for nil.
\<close>

fun appByDomain :: "AppConfig list \<Rightarrow> string \<Rightarrow> nat option" where
  "appByDomain [] domain = None"
| "appByDomain (app # rest) domain =
     (if domain \<in> set (Domains app) then Some 0
      else map_option Suc (appByDomain rest domain))"

text \<open>
  \<open>linkLocations\<close> walks the apps and appends to the target app, through its pointer,
  one location for each proxy location of the current app. The list of apps is the store:
  the body of the loop reads the app at index \<open>i\<close> and replaces the target. The indices
  it reads are below the length of the list: \<open>i\<close> comes from the loop over the list and
  the target from \<open>appByDomain\<close>.
\<close>

definition linkLocations_app :: "nat \<Rightarrow> AppConfig list \<Rightarrow> error + AppConfig list" where
  "linkLocations_app i appConfigs =
     (let app = appConfigs ! i in
      if ProxyDomain app \<noteq> [] \<and> length (ProxyLocations app) > 0 then
        (case appByDomain appConfigs (ProxyDomain app) of
           None \<Rightarrow>
             Inl (Errorf (''Can't find ProxyDomain '' @ [CHR 0x27] @ ProxyDomain app @ [CHR 0x27] @
                          '' in any application''))
         | Some target \<Rightarrow>
             Inr (appConfigs[target := (appConfigs ! target)
                    \<lparr>Locations := Locations (appConfigs ! target) @
                                  map (\<lambda>loc. \<lparr>App = i, Path = loc\<rparr>) (ProxyLocations app)\<rparr>]))
      else Inr appConfigs)"

fun linkLocations_loop :: "nat list \<Rightarrow> AppConfig list \<Rightarrow> error + AppConfig list" where
  "linkLocations_loop [] appConfigs = Inr appConfigs"
| "linkLocations_loop (i # rest) appConfigs =
     (case linkLocations_app i appConfigs of
        Inl err \<Rightarrow> Inl err
      | Inr appConfigs' \<Rightarrow> linkLocations_loop rest appConfigs')"

definition linkLocations :: "AppConfig list \<Rightarrow> error + AppConfig list" where
  "linkLocations appConfigs = linkLocations_loop [0..<length appConfigs] appConfigs"

definition addRootLocations :: "AppConfig list \<Rightarrow> AppConfig list" where
  "addRootLocations appConfigs =
     map (\<lambda>(i, app). app\<lparr>Locations := Locations app @ [\<lparr>App = i, Path = ''/''\<rparr>]\<rparr>)
       (enumerate 0 appConfigs)"

text \<open>
  The first loop of \<open>build\<close>: one app for each service, in the order of the list, the
  nil apps left out, stopping at the first error.
\<close>

fun build_appServices ::
  "Modeler \<Rightarrow> Clientset \<Rightarrow> RouterConfig \<Rightarrow> Service list \<Rightarrow> AppConfig list \<Rightarrow>
     (error + AppConfig list) logged" where
  "build_appServices modeler kubeClient routerConfig [] appConfigs = ([], Inr appConfigs)"
| "build_appServices modeler kubeClient routerConfig (appService # rest) appConfigs =
     (case buildAppConfig modeler kubeClient appService routerConfig of
        (l, Inl err) \<Rightarrow> (l, Inl err)
      | (l, Inr appConfig) \<Rightarrow>
          (case build_appServices modeler kubeClient routerConfig rest
                  (case appConfig of None \<Rightarrow> appConfigs | Some app \<Rightarrow> appConfigs @ [app]) of
             (l', r) \<Rightarrow> (l @ l', r)))"

definition build ::
  "Modeler \<Rightarrow> Clientset \<Rightarrow> Deployment \<Rightarrow> Secret option \<Rightarrow> Secret option \<Rightarrow> Service list \<Rightarrow>
     Service option \<Rightarrow> (error + RouterConfig) logged" where
  "build modeler kubeClient routerDeployment platformCertSecret dhParamSecret appServices
     builderService =
     (case buildRouterConfig modeler routerDeployment platformCertSecret dhParamSecret of
        (l0, Inl err) \<Rightarrow> (l0, Inl err)
      | (l0, Inr routerConfig) \<Rightarrow>
          (case build_appServices modeler kubeClient routerConfig appServices
                  (AppConfigs routerConfig) of
             (l1, Inl err) \<Rightarrow> (l0 @ l1, Inl err)
           | (l1, Inr appConfigs) \<Rightarrow>
               (case linkLocations appConfigs of
                  Inl err \<Rightarrow> (l0 @ l1, Inl err)
                | Inr linked \<Rightarrow>
                    (let routerConfig' = routerConfig\<lparr>AppConfigs := addRootLocations linked\<rparr> in
                     case builderService of
                       None \<Rightarrow> (l0 @ l1, Inr routerConfig')
                     | Some service \<Rightarrow>
                         (case buildBuilderConfig modeler service of
                            Inl err \<Rightarrow> (l0 @ l1, Inl err)
                          | Inr None \<Rightarrow> (l0 @ l1, Inr routerConfig')
                          | Inr (Some builderConfig) \<Rightarrow>
                              (l0 @ l1,
                               Inr (routerConfig'\<lparr>BuilderConfig := Some builderConfig\<rparr>)))))))"

definition Build :: "string \<Rightarrow> Modeler \<Rightarrow> Clientset \<Rightarrow> (error + RouterConfig) logged" where
  "Build namespace modeler kubeClient =
     (case getDeployment namespace kubeClient of
        Inl err \<Rightarrow> ([], Inl err)
      | Inr routerDeployment \<Rightarrow>
          (case getAppServices kubeClient of
             Inl err \<Rightarrow> ([], Inl err)
           | Inr appServices \<Rightarrow>
               (case getBuilderService namespace kubeClient of
                  Inl err \<Rightarrow> ([], Inl err)
                | Inr builderService \<Rightarrow>
                    (case getSecret kubeClient ''deis-router-platform-cert'' namespace of
                       Inl err \<Rightarrow> ([], Inl err)
                     | Inr platformCertSecret \<Rightarrow>
                         (case getSecret kubeClient ''deis-router-dhparam'' namespace of
                            Inl err \<Rightarrow> ([], Inl err)
                          | Inr dhParamSecret \<Rightarrow>
                              build modeler kubeClient routerDeployment platformCertSecret
                                dhParamSecret appServices builderService)))))"

subsection \<open>Files, the proxy and the operations on them\<close>

text \<open>
  The state outside the process: the files by their paths, each with its content and its
  permission bits; the paths on which the operating system refuses to create, write or
  remove (\<open>locked\<close>: a read-only or immutable entry), so that every file operation of
  the code has its error result; the journal of the operations the code called, in order;
  the state of the running proxy; and the lines logged by the main loop.
\<close>

record entry =
  content :: string
  mode :: nat

datatype event =
    EvRemove string
  | EvRemoveAll string
  | EvWriteFile string string nat
  | EvCreate string
  | EvWrite string string
  | EvReload

record 'p world =
  files :: "(string, entry) fmap"
  locked :: "string set"
  journal :: "event list"
  proxy :: 'p
  logs :: "string list"

abbreviation perm_0644 :: nat where "perm_0644 \<equiv> 420"
abbreviation perm_0600 :: nat where "perm_0600 \<equiv> 384"
abbreviation perm_0666 :: nat where "perm_0666 \<equiv> 438"

text \<open>
  \<open>filepath.Join\<close> of a clean directory path and an entry name with no separator
  (the pattern of the struct tag of \<open>Domains\<close> admits none in a domain).
\<close>

definition filepath_Join :: "string \<Rightarrow> string \<Rightarrow> string" where
  "filepath_Join dir name = dir @ ''/'' @ name"

text \<open>
  \<open>filepath.Glob(filepath.Join(dir, "*" + ext))\<close> for a directory path with no
  pattern character: the paths of the entries of \<open>dir\<close> whose name ends with \<open>ext\<close>,
  sorted. The star matches any run of characters other than the separator, the empty run
  too. The only error of \<open>Glob\<close> is a malformed pattern, which these are not.
\<close>

definition globMatch :: "string \<Rightarrow> string \<Rightarrow> string \<Rightarrow> bool" where
  "globMatch dir ext path =
     (prefix (dir @ ''/'') path \<and>
      CHR ''/'' \<notin> set (drop (length dir + 1) path) \<and>
      suffix ext (drop (length dir + 1) path))"

definition filepath_Glob :: "string \<Rightarrow> string \<Rightarrow> 'p world \<Rightarrow> error + string list" where
  "filepath_Glob dir ext w =
     Inr (sorted_list_of_fset (ffilter (globMatch dir ext) (fmdom (files w))))"

text \<open>
  \<open>os.Remove\<close> fails on a path that is not there; \<open>os.RemoveAll\<close> does not.
  \<open>ioutil.WriteFile\<close> and \<open>os.Create\<close> truncate a file that is there and keep its
  permission bits, and create a missing one with the bits given (the process's umask is
  not modelled). A failed operation changes no file.
\<close>

definition os_Remove :: "string \<Rightarrow> 'p world \<Rightarrow> error option \<times> 'p world" where
  "os_Remove path w =
     (let w' = w\<lparr>journal := journal w @ [EvRemove path]\<rparr> in
      if path \<in> locked w then (Some (PathError ''remove'' path ''operation not permitted''), w')
      else if fmlookup (files w) path = None then
        (Some (PathError ''remove'' path ''no such file or directory''), w')
      else (None, w'\<lparr>files := fmdrop path (files w)\<rparr>))"

definition os_RemoveAll :: "string \<Rightarrow> 'p world \<Rightarrow> error option \<times> 'p world" where
  "os_RemoveAll path w =
     (let w' = w\<lparr>journal := journal w @ [EvRemoveAll path]\<rparr> in
      if fmlookup (files w) path = None then (None, w')
      else if path \<in> locked w then
        (Some (PathError ''unlinkat'' path ''operation not permitted''), w')
      else (None, w'\<lparr>files := fmdrop path (files w)\<rparr>))"

definition ioutil_WriteFile :: "string \<Rightarrow> string \<Rightarrow> nat \<Rightarrow> 'p world \<Rightarrow> error option \<times> 'p world" where
  "ioutil_WriteFile path bytes perm w =
     (let w' = w\<lparr>journal := journal w @ [EvWriteFile path bytes perm]\<rparr> in
      if path \<in> locked w then (Some (PathError ''open'' path ''permission denied''), w')
      else
        (case fmlookup (files w) path of
           None \<Rightarrow> (None, w'\<lparr>files := fmupd path \<lparr>content = bytes, mode = perm\<rparr> (files w)\<rparr>)
         | Some f \<Rightarrow> (None, w'\<lparr>files := fmupd path (f\<lparr>content := bytes\<rparr>) (files w)\<rparr>)))"

definition os_Create :: "string \<Rightarrow> 'p world \<Rightarrow> error option \<times> 'p world" where
  "os_Create path w =
     (let w' = w\<lparr>journal := journal w @ [EvCreate path]\<rparr> in
      if path \<in> locked w then (Some (PathError ''open'' path ''permission denied''), w')
      else
        (case fmlookup (files w) path of
           None \<Rightarrow> (None, w'\<lparr>files := fmupd path \<lparr>content = [], mode = perm_0666\<rparr> (files w)\<rparr>)
         | Some f \<Rightarrow> (None, w'\<lparr>files := fmupd path (f\<lparr>content := []\<rparr>) (files w)\<rparr>)))"

text \<open>A write of bytes at the end of a file that the process holds open.\<close>

definition file_Write :: "string \<Rightarrow> string \<Rightarrow> 'p world \<Rightarrow> 'p world" where
  "file_Write path bytes w =
     (let w' = w\<lparr>journal := journal w @ [EvWrite path bytes]\<rparr> in
      case fmlookup (files w) path of
        None \<Rightarrow> w'
      | Some f \<Rightarrow> w'\<lparr>files := fmupd path (f\<lparr>content := content f @ bytes\<rparr>) (files w)\<rparr>)"

subsection \<open>Writing certificates, DH parameters and the configuration\<close>

text \<open>The two loops of \<open>WriteCerts\<close> that remove the paths a pattern matched.\<close>

fun WriteCerts_remove :: "string list \<Rightarrow> 'p world \<Rightarrow> error option \<times> 'p world" where
  "WriteCerts_remove [] w = (None, w)"
| "WriteCerts_remove (path # rest) w =
     (case os_Remove path w of
        (Some err, w') \<Rightarrow> (Some err, w')
      | (None, w') \<Rightarrow> WriteCerts_remove rest w')"

definition writeCert :: "string \<Rightarrow> Certificate \<Rightarrow> string \<Rightarrow> 'p world \<Rightarrow> error option \<times> 'p world" where
  "writeCert ctx certificate sslPath w =
     (let certPath = filepath_Join sslPath (ctx @ ''.crt'');
          keyPath = filepath_Join sslPath (ctx @ ''.key'')
      in case ioutil_WriteFile certPath (Cert certificate) perm_0644 w of
           (Some err, w') \<Rightarrow> (Some err, w')
         | (None, w') \<Rightarrow> ioutil_WriteFile keyPath (Key certificate) perm_0600 w')"

text \<open>
  Go ranges over a map in an order it does not specify. The loop over
  \<open>appConfig.Certificates\<close> takes the order of the keys as a list; \<open>WriteCerts\<close> gets
  it from a parameter \<open>order\<close>, which stands for the runtime's choice and is expected to
  list every key of the map once (\<open>rangeOrder_ok\<close>).
\<close>

definition rangeOrder_ok :: "(('k, 'v) fmap \<Rightarrow> 'k list) \<Rightarrow> ('k, 'v) fmap \<Rightarrow> bool" where
  "rangeOrder_ok order m = (distinct (order m) \<and> set (order m) = fset (fmdom m))"

fun WriteCerts_range ::
  "(string, Certificate option) fmap \<Rightarrow> string list \<Rightarrow> string \<Rightarrow> 'p world \<Rightarrow> error option \<times> 'p world" where
  "WriteCerts_range certs [] sslPath w = (None, w)"
| "WriteCerts_range certs (domain # rest) sslPath w =
     (case fmlookup certs domain of
        Some (Some certificate) \<Rightarrow>
          (case writeCert domain certificate sslPath w of
             (Some err, w') \<Rightarrow> (Some err, w')
           | (None, w') \<Rightarrow> WriteCerts_range certs rest sslPath w')
      | _ \<Rightarrow> WriteCerts_range certs rest sslPath w)"

fun WriteCerts_apps ::
  "((string, Certificate option) fmap \<Rightarrow> string list) \<Rightarrow> AppConfig list \<Rightarrow> string \<Rightarrow> 'p world \<Rightarrow>
     error option \<times> 'p world" where
  "WriteCerts_apps order [] sslPath w = (None, w)"
| "WriteCerts_apps order (appConfig # rest) sslPath w =
     (case WriteCerts_range (Certificates appConfig) (order (Certificates appConfig)) sslPath w of
        (Some err, w') \<Rightarrow> (Some err, w')
      | (None, w') \<Rightarrow> WriteCerts_apps order rest sslPath w')"

definition WriteCerts ::
  "((string, Certificate option) fmap \<Rightarrow> string list) \<Rightarrow> RouterConfig \<Rightarrow> string \<Rightarrow> 'p world \<Rightarrow>
     error option \<times> 'p world" where
  "WriteCerts order routerConfig sslPath w =
     (case filepath_Glob sslPath ''.crt'' w of
        Inl err \<Rightarrow> (Some err, w)
      | Inr allCertsGlob \<Rightarrow>
          (case filepath_Glob sslPath ''.key'' w of
             Inl err \<Rightarrow> (Some err, w)
           | Inr allKeysGlob \<Rightarrow>
               (case WriteCerts_remove allCertsGlob w of
                  (Some err, w1) \<Rightarrow> (Some err, w1)
                | (None, w1) \<Rightarrow>
                    (case WriteCerts_remove allKeysGlob w1 of
                       (Some err, w2) \<Rightarrow> (Some err, w2)
                     | (None, w2) \<Rightarrow>
                         (case (case PlatformCertificate routerConfig of
                                  None \<Rightarrow> (None, w2)
                                | Some certificate \<Rightarrow>
                                    writeCert ''platform'' certificate sslPath w2) of
                            (Some err, w3) \<Rightarrow> (Some err, w3)
                          | (None, w3) \<Rightarrow>
                              WriteCerts_apps order (AppConfigs routerConfig) sslPath w3)))))"

definition WriteDHParam :: "RouterConfig \<Rightarrow> string \<Rightarrow> 'p world \<Rightarrow> error option \<times> 'p world" where
  "WriteDHParam routerConfig sslPath w =
     (let dhParamPath = filepath_Join sslPath ''dhparam.pem'' in
      if DHParam (SSLConfig routerConfig) = [] then os_RemoveAll dhParamPath w
      else ioutil_WriteFile dhParamPath (DHParam (SSLConfig routerConfig)) perm_0644 w)"

text \<open>
  Modelled from the spec: the renderer is the template engine (\<open>text/template\<close> with
  the functions of \<open>sprig\<close>) run on the constant \<open>confTemplate\<close>; the spec treats it
  as a pure function of the snapshot. It is a parameter: the result of parsing the
  template, and for a snapshot the text that \<open>Execute\<close> writes and its error, if any.
\<close>

record Template =
  Parse :: "error option"
  Execute :: "RouterConfig \<Rightarrow> string \<times> error option"

definition WriteConfig :: "Template \<Rightarrow> RouterConfig \<Rightarrow> string \<Rightarrow> 'p world \<Rightarrow> error option \<times> 'p world" where
  "WriteConfig tmpl routerConfig filePath w =
     (case Parse tmpl of
        Some err \<Rightarrow> (Some err, w)
      | None \<Rightarrow>
          (case os_Create filePath w of
             (Some err, w') \<Rightarrow> (Some err, w')
           | (None, w') \<Rightarrow>
               (case Execute tmpl routerConfig of
                  (out, err) \<Rightarrow> (err, file_Write filePath out w'))))"

subsection \<open>The main loop\<close>

text \<open>
  What one tick of the loop reads besides the files: the namespace, the binder, the
  cluster as this tick finds it, the order in which the runtime ranges over maps, the
  template engine, and \<open>nginx.Reload\<close>. Modelled from the spec: \<open>Reload\<close> (package
  \<open>nginx\<close>, file not among the sources) tells the running proxy to adopt the
  configuration and gives an error or none; it is a parameter that may change the state in
  any way.
\<close>

record 'p env =
  env_namespace :: string
  env_modeler :: Modeler
  env_kubeClient :: Clientset
  env_rangeOrder :: "(string, Certificate option) fmap \<Rightarrow> string list"
  env_template :: Template
  env_Reload :: "'p world \<Rightarrow> error option \<times> 'p world"

definition log_Printf :: "string \<Rightarrow> 'p world \<Rightarrow> 'p world" where
  "log_Printf line w = w\<lparr>logs := logs w @ [line]\<rparr>"

definition nginx_Reload :: "'p env \<Rightarrow> 'p world \<Rightarrow> error option \<times> 'p world" where
  "nginx_Reload E w = env_Reload E (w\<lparr>journal := journal w @ [EvReload]\<rparr>)"

text \<open>
  One pass through the body of the loop of \<open>main\<close>, from the variable \<open>known\<close> and the
  outside state to both after the pass (waiting for the rate limiter changes neither).
  \<open>known\<close> starts as a \<open>RouterConfig\<close> with every field zero, the nested
  configurations nil: no snapshot that \<open>Build\<close> returns is deeply equal to it, and it is
  \<open>None\<close> here. \<open>reflect.DeepEqual\<close> on two snapshots is their equality.
\<close>

definition tick :: "'p env \<Rightarrow> RouterConfig option \<times> 'p world \<Rightarrow> RouterConfig option \<times> 'p world" where
  "tick E s =
     (case s of (known, w) \<Rightarrow>
      (case Build (env_namespace E) (env_modeler E) (env_kubeClient E) of
         (l, Inl err) \<Rightarrow>
           (known,
            log_Printf (''Error building model; not modifying certs or configuration: '' @
                        Error err @ ''.'') (w\<lparr>logs := logs w @ l\<rparr>))
       | (l, Inr routerConfig) \<Rightarrow>
           (let w0 = w\<lparr>logs := logs w @ l\<rparr> in
            if Some routerConfig = known then (known, w0)
            else
              (case WriteCerts (env_rangeOrder E) routerConfig ''/opt/router/ssl''
                      (log_Printf ''INFO: Router configuration has changed in k8s.'' w0) of
                 (Some err, w1) \<Rightarrow>
                   (known,
                    log_Printf (''Failed to write certs; continuing with existing certs, dhparam, and configuration: '' @
                                Error err) w1)
               | (None, w1) \<Rightarrow>
                   (case WriteDHParam routerConfig ''/opt/router/ssl'' w1 of
                      (Some err, w2) \<Rightarrow>
                        (known,
                         log_Printf (''Failed to write dhparam; continuing with existing dhparam and configuration: '' @
                                     Error err) w2)
                    | (None, w2) \<Rightarrow>
                        (case WriteConfig (env_template E) routerConfig
                                ''/opt/router/conf/nginx.conf'' w2 of
                           (Some err, w3) \<Rightarrow>
                             (known,
                              log_Printf (''Failed to write new nginx configuration; continuing with existing configuration: '' @
                                          Error err) w3)
                         | (None, w3) \<Rightarrow>
                             (case nginx_Reload E w3 of
                                (Some err, w4) \<Rightarrow>
                                  (known,
                                   log_Printf (''Failed to reload nginx; continuing with existing configuration: '' @
                                               Error err) w4)
                              | (None, w4) \<Rightarrow> (Some routerConfig, w4))))))))"

text \<open>
  The loop never returns. \<open>main_loop\<close> runs its first ticks, one for each environment
  of the list, and gives the state after them.
\<close>

fun main_loop :: "'p env list \<Rightarrow> RouterConfig option \<times> 'p world \<Rightarrow> RouterConfig option \<times> 'p world" where
  "main_loop [] s = s"
| "main_loop (E # rest) s = main_loop rest (tick E s)"

subsection \<open>Notions used in the statements\<close>

text \<open>An app with its list of locations emptied: what linking does not change.\<close>

definition sans_Locations :: "AppConfig \<Rightarrow> AppConfig" where
  "sans_Locations app = app\<lparr>Locations := []\<rparr>"

text \<open>
  An app whose proxy declaration \<open>linkLocations\<close> cannot resolve: it passes the
  guard of the loop (a proxy domain and at least one proxy location) and no app of the
  list has its proxy domain among its domains. \<open>proxyDomain_error\<close> is the error that
  \<open>linkLocations\<close> makes for a domain.
\<close>

definition dangling :: "AppConfig list \<Rightarrow> AppConfig \<Rightarrow> bool" where
  "dangling appConfigs app =
     (ProxyDomain app \<noteq> [] \<and> length (ProxyLocations app) > 0 \<and>
      appByDomain appConfigs (ProxyDomain app) = None)"

definition proxyDomain_error :: "string \<Rightarrow> error" where
  "proxyDomain_error domain =
     Errorf (''Can't find ProxyDomain '' @ [CHR 0x27] @ domain @ [CHR 0x27] @ '' in any application'')"

text \<open>The errors that \<open>getSecret\<close> and \<open>getBuilderService\<close> take for an absent object.\<close>

fun is_not_found :: "error \<Rightarrow> bool" where
  "is_not_found (StatusError code msg) = (code = 404)"
| "is_not_found err = False"

text \<open>
  What resolving a domain with a dot and a certificate mapping \<open>alias\<close> has done to the
  binding of the domain, from \<open>before\<close> to \<open>after\<close>, with the lines \<open>l\<close> logged:
  the secret is missing and the binding is as before; or the secret lacks an entry, the
  binding is nil and the warning is in the log; or the binding is the certificate of the
  secret.
\<close>

definition resolved ::
  "Clientset \<Rightarrow> string \<Rightarrow> string \<Rightarrow> string \<Rightarrow> string list \<Rightarrow> Certificate option option \<Rightarrow>
     Certificate option option \<Rightarrow> bool" where
  "resolved K ns alias d l before after =
     (case Secrets_Get K ns (alias @ ''-cert'') of
        Inl err \<Rightarrow> is_not_found err \<and> after = before
      | Inr secret \<Rightarrow>
          (case fmlookup (Data secret) ''tls.crt'' of
             None \<Rightarrow>
               after = Some None \<and>
               (''WARN: The k8s secret intended to convey the '' @ d @
                  '' certificate contained no entry \"tls.crt\".'') \<in> set l
           | Some cert \<Rightarrow>
               (case fmlookup (Data secret) ''tls.key'' of
                  None \<Rightarrow>
                    after = Some None \<and>
                    (''WARN: The k8s secret intended to convey the '' @ d @
                       '' certificate key contained no entry \"tls.key\".'') \<in> set l
                | Some key \<Rightarrow> after = Some (Some \<lparr>Cert = cert, Key = key\<rparr>))))"

text \<open>
  The app that \<open>buildAppConfig\<close> holds when it enters its loop over the domains (or the
  error that made it return before): the defaults of \<open>newAppConfig\<close>, named after the
  service, with the annotations of the service bound to it.
\<close>

definition annotated_app :: "Modeler \<Rightarrow> Service \<Rightarrow> RouterConfig \<Rightarrow> error + AppConfig" where
  "annotated_app modeler service routerConfig =
     (case newAppConfig routerConfig of
        Inl err \<Rightarrow> Inl err
      | Inr appConfig0 \<Rightarrow>
          (let label = (case fmlookup (Labels service) ''app'' of None \<Rightarrow> [] | Some v \<Rightarrow> v);
               name1 = (if label = [] then Service.Name service else label);
               name2 = (if name1 \<noteq> Namespace service then Namespace service @ ''/'' @ name1 else name1)
           in MapToModel_AppConfig modeler (Service.Annotations service) []
                (appConfig0\<lparr>Name := name2\<rparr>)))"

text \<open>
  The paths of the certificate and of the key that \<open>writeCert\<close> writes for a name
  in the directory \<open>sslPath\<close>.
\<close>

definition crt_path :: "string \<Rightarrow> string \<Rightarrow> string" where
  "crt_path sslPath ctx = filepath_Join sslPath (ctx @ ''.crt'')"

definition key_path :: "string \<Rightarrow> string \<Rightarrow> string" where
  "key_path sslPath ctx = filepath_Join sslPath (ctx @ ''.key'')"

text \<open>
  What a successful \<open>ioutil.WriteFile\<close> does to the files, and what the writes of a
  list of certificates by \<open>writeCert\<close>, each under its name, do to them.
\<close>

definition put_file :: "string \<Rightarrow> string \<Rightarrow> nat \<Rightarrow> (string, entry) fmap \<Rightarrow> (string, entry) fmap" where
  "put_file path bytes perm m =
     fmupd path \<lparr>content = bytes,
                 mode = (case fmlookup m path of None \<Rightarrow> perm | Some f \<Rightarrow> mode f)\<rparr> m"

fun put_certs :: "string \<Rightarrow> (string \<times> Certificate) list \<Rightarrow> (string, entry) fmap \<Rightarrow> (string, entry) fmap" where
  "put_certs sslPath [] m = m"
| "put_certs sslPath ((ctx, c) # rest) m =
     put_certs sslPath rest
       (put_file (key_path sslPath ctx) (Key c) perm_0600
          (put_file (crt_path sslPath ctx) (Cert c) perm_0644 m))"

text \<open>
  The certificates that \<open>WriteCerts\<close> writes, each with the name it is written
  under, in the order of the writes: the bindings to a certificate (not to nil) of one map,
  in the order of the range; those of a list of apps; and those of a snapshot, the platform
  certificate first under the name \<open>platform\<close>. \<open>write_events\<close> are the two
  writes of \<open>writeCert\<close> for one of them.
\<close>

definition range_bindings ::
  "(string, Certificate option) fmap \<Rightarrow> string list \<Rightarrow> (string \<times> Certificate) list" where
  "range_bindings certs ks =
     concat (map (\<lambda>d. case fmlookup certs d of Some (Some c) \<Rightarrow> [(d, c)] | _ \<Rightarrow> []) ks)"

definition apps_bindings ::
  "((string, Certificate option) fmap \<Rightarrow> string list) \<Rightarrow> AppConfig list \<Rightarrow> (string \<times> Certificate) list" where
  "apps_bindings order apps =
     concat (map (\<lambda>app. range_bindings (Certificates app) (order (Certificates app))) apps)"

definition written_bindings ::
  "((string, Certificate option) fmap \<Rightarrow> string list) \<Rightarrow> RouterConfig \<Rightarrow> (string \<times> Certificate) list" where
  "written_bindings order routerConfig =
     (case PlatformCertificate routerConfig of None \<Rightarrow> [] | Some c \<Rightarrow> [(''platform'', c)]) @
     concat (map (\<lambda>app. range_bindings (Certificates app) (order (Certificates app)))
               (AppConfigs routerConfig))"

definition write_events :: "string \<Rightarrow> string \<times> Certificate \<Rightarrow> event list" where
  "write_events sslPath b =
     [EvWriteFile (crt_path sslPath (fst b)) (Cert (snd b)) perm_0644,
      EvWriteFile (key_path sslPath (fst b)) (Key (snd b)) perm_0600]"

text \<open>
  The certificate whose files a name has after \<open>WriteCerts\<close>: the last one written
  under the name, that is, the certificate that the last app of the list binds the name to
  (bindings to nil apart), and for the name \<open>platform\<close> the platform certificate when
  no app binds that name.
\<close>

fun apps_binding :: "AppConfig list \<Rightarrow> string \<Rightarrow> Certificate option" where
  "apps_binding [] ctx = None"
| "apps_binding (app # rest) ctx =
     (case apps_binding rest ctx of
        Some c \<Rightarrow> Some c
      | None \<Rightarrow> (case fmlookup (Certificates app) ctx of Some (Some c) \<Rightarrow> Some c | _ \<Rightarrow> None))"

definition bound_certificate :: "RouterConfig \<Rightarrow> string \<Rightarrow> Certificate option" where
  "bound_certificate routerConfig ctx =
     (case apps_binding (AppConfigs routerConfig) ctx of
        Some c \<Rightarrow> Some c
      | None \<Rightarrow> if ctx = ''platform'' then PlatformCertificate routerConfig else None)"

text \<open>The files that are left when the certificates and keys of the directory are removed.\<close>

definition cleared :: "string \<Rightarrow> (string, entry) fmap \<Rightarrow> (string, entry) fmap" where
  "cleared ssl m = fmfilter (\<lambda>p. \<not> globMatch ssl ''.crt'' p \<and> \<not> globMatch ssl ''.key'' p) m"

text \<open>Two states that differ in their files and in their journal at most.\<close>

definition same_but_files :: "'p world \<Rightarrow> 'p world \<Rightarrow> bool" where
  "same_but_files w w' = (locked w' = locked w \<and> proxy w' = proxy w \<and> logs w' = logs w)"

subsection \<open>Example inputs\<close>

text \<open>
  A binder for annotations that hold one value each (no comma): the domain, the
  certificate mapping \<open>domain:alias\<close>, the proxy domain and the proxy location of a
  service. It binds nothing on the router's deployment and on the builder.
\<close>

definition one_value_modeler :: Modeler where
  "one_value_modeler =
     \<lparr>bind_RouterConfig = (\<lambda>anns scope routerConfig. Inr routerConfig),
      bind_AppConfig = (\<lambda>anns scope appConfig.
        Inr (appConfig
          \<lparr>Domains := (case fmlookup anns ''router.deis.io/domains'' of
                         None \<Rightarrow> Domains appConfig | Some v \<Rightarrow> [v]),
           CertMappings := (case fmlookup anns ''router.deis.io/certificates'' of
                         None \<Rightarrow> CertMappings appConfig
                       | Some v \<Rightarrow> fmupd (takeWhile (\<lambda>c. c \<noteq> CHR '':'') v)
                                    (drop 1 (dropWhile (\<lambda>c. c \<noteq> CHR '':'') v)) fmempty),
           ProxyLocations := (case fmlookup anns ''router.deis.io/proxyLocations'' of
                         None \<Rightarrow> ProxyLocations appConfig | Some v \<Rightarrow> [v]),
           ProxyDomain := (case fmlookup anns ''router.deis.io/proxyDomain'' of
                         None \<Rightarrow> ProxyDomain appConfig | Some v \<Rightarrow> v)\<rparr>)),
      bind_BuilderConfig = (\<lambda>anns scope builderConfig. Inr builderConfig)\<rparr>"

definition not_found :: error where
  "not_found = StatusError 404 ''not found''"

text \<open>
  A cluster with a router deployment that has no annotation, the given routable services,
  no builder, and the given secrets and endpoints.
\<close>

definition small_cluster ::
  "Service list \<Rightarrow> (string \<Rightarrow> string \<Rightarrow> error + Secret) \<Rightarrow> (string \<Rightarrow> string \<Rightarrow> error + Endpoints) \<Rightarrow>
     Clientset" where
  "small_cluster services secrets endpoints =
     \<lparr>Deployments_Get = (\<lambda>ns name. Inr \<lparr>Deployment.Annotations = fmempty\<rparr>),
      Services_List = Inr services,
      Services_Get = (\<lambda>ns name. Inl not_found),
      Secrets_Get = secrets,
      Endpoints_Get = endpoints\<rparr>"

definition annotated_service :: "string \<Rightarrow> string \<Rightarrow> (string \<times> string) list \<Rightarrow> Service" where
  "annotated_service ns name anns =
     \<lparr>Service.Name = name, Namespace = ns, Labels = fmempty,
      Service.Annotations = fmap_of_list anns, ClusterIP = ''10.0.0.10''\<rparr>"

definition controller_service :: Service where
  "controller_service =
     annotated_service ''deis'' ''controller'' [(''router.deis.io/domains'', ''deis.example.com'')]"

definition one_ready :: Endpoints where
  "one_ready = \<lparr>Subsets = [\<lparr>Addresses = [''10.2.0.5''], NotReadyAddresses = []\<rparr>]\<rparr>"

definition controller_cluster :: Clientset where
  "controller_cluster =
     small_cluster [controller_service] (\<lambda>ns name. Inl not_found) (\<lambda>ns name. Inr one_ready)"

definition controller_snapshot :: RouterConfig where
  "controller_snapshot = projr (snd (Build ''deis'' one_value_modeler controller_cluster))"

definition controller_env :: "Template \<Rightarrow> (nat world \<Rightarrow> error option \<times> nat world) \<Rightarrow> nat env" where
  "controller_env tmpl reload =
     \<lparr>env_namespace = ''deis'',
      env_modeler = one_value_modeler,
      env_kubeClient = controller_cluster,
      env_rangeOrder = (\<lambda>m. sorted_list_of_fset (fmdom m)),
      env_template = tmpl,
      env_Reload = reload\<rparr>"

definition plain_template :: Template where
  "plain_template = \<lparr>Parse = None, Execute = (\<lambda>routerConfig. (''daemon off;'', None))\<rparr>"

definition failing_template :: Template where
  "failing_template =
     \<lparr>Parse = None,
      Execute = (\<lambda>routerConfig. (''daemon'', Some (OtherError ''template: nginx: execution failed'')))\<rparr>"

definition reload_ok :: "nat world \<Rightarrow> error option \<times> nat world" where
  "reload_ok w = (None, w\<lparr>proxy := Suc (proxy w)\<rparr>)"

definition reload_fails :: "nat world \<Rightarrow> error option \<times> nat world" where
  "reload_fails w = (Some (OtherError ''exit status 1''), w)"

definition ssl_world :: "(string \<times> entry) list \<Rightarrow> string list \<Rightarrow> nat world" where
  "ssl_world fs lk = \<lparr>files = fmap_of_list fs, locked = set lk, journal = [], proxy = 0, logs = []\<rparr>"

definition plain_deployment :: Deployment where
  "plain_deployment = \<lparr>Deployment.Annotations = fmempty\<rparr>"

definition no_secrets :: "string \<Rightarrow> string \<Rightarrow> error + Secret" where
  "no_secrets ns name = Inl not_found"

definition foo_service :: Service where
  "foo_service =
     annotated_service ''prod'' ''foo'' [(''router.deis.io/domains'', ''foo.example.com'')]"

definition borrower_service :: Service where
  "borrower_service =
     annotated_service ''prod'' ''bar''
       [(''router.deis.io/domains'', ''bar.example.com''),
        (''router.deis.io/proxyDomain'', ''foo.example.com''),
        (''router.deis.io/proxyLocations'', ''/api'')]"

definition proxy_only_service :: Service where
  "proxy_only_service =
     annotated_service ''prod'' ''bar''
       [(''router.deis.io/domains'', ''bar.example.com''),
        (''router.deis.io/proxyDomain'', ''foo.example.com'')]"

definition bare_service :: Service where
  "bare_service =
     annotated_service ''prod'' ''foo''
       [(''router.deis.io/domains'', ''foo''),
        (''router.deis.io/certificates'', ''foo:foo'')]"

definition tls_secret :: "string \<Rightarrow> string \<Rightarrow> Secret" where
  "tls_secret cert key = \<lparr>Data = fmap_of_list [(''tls.crt'', cert), (''tls.key'', key)]\<rparr>"

definition foo_cert_secrets :: "string \<Rightarrow> string \<Rightarrow> error + Secret" where
  "foo_cert_secrets ns name =
     (if ns = ''prod'' \<and> name = ''foo-cert'' then Inr (tls_secret ''FOO CERT'' ''FOO KEY'')
      else Inl not_found)"

definition late_ready :: Endpoints where
  "late_ready =
     \<lparr>Subsets = [\<lparr>Addresses = [], NotReadyAddresses = [''10.2.0.5'']\<rparr>,
                 \<lparr>Addresses = [''10.2.0.6''], NotReadyAddresses = []\<rparr>]\<rparr>"

text \<open>
  \<open>build\<close> on a cluster of the given services, secrets and endpoints, with the given
  secret of the platform certificate, no DH parameters and no builder.
\<close>

definition build_cluster ::
  "Secret option \<Rightarrow> Service list \<Rightarrow> (string \<Rightarrow> string \<Rightarrow> error + Secret) \<Rightarrow> Endpoints \<Rightarrow>
     (error + RouterConfig) logged" where
  "build_cluster platformCertSecret services secrets endpoints =
     build one_value_modeler (small_cluster services secrets (\<lambda>ns name. Inr endpoints))
       plain_deployment platformCertSecret None services None"

definition mapped_service :: Service where
  "mapped_service =
     annotated_service ''prod'' ''www''
       [(''router.deis.io/domains'', ''www.example.com''),
        (''router.deis.io/certificates'', ''www.example.com:www'')]"

definition failing_secrets :: "string \<Rightarrow> string \<Rightarrow> error + Secret" where
  "failing_secrets ns name = Inl (StatusError 500 ''internal error'')"

definition crt_only_secrets :: "string \<Rightarrow> string \<Rightarrow> error + Secret" where
  "crt_only_secrets ns name =
     (if ns = ''prod'' \<and> name = ''www-cert''
      then Inr \<lparr>Data = fmap_of_list [(''tls.crt'', ''WWW CERT'')]\<rparr>
      else Inl not_found)"

definition default_RouterConfig :: RouterConfig where
  "default_RouterConfig = projr newRouterConfig"

definition mapped_app :: AppConfig where
  "mapped_app =
     projr (MapToModel_AppConfig one_value_modeler (Service.Annotations mapped_service) []
              (projr (newAppConfig default_RouterConfig)))"

text \<open>
  Two orders of a range over a map (the sorted keys, and the sorted keys in reverse), a
  snapshot with a platform certificate, DH parameters and one app that binds two domains to
  certificates and a third to nil, and a directory that holds old certificates and one
  other file.
\<close>

definition sorted_order :: "(string, Certificate option) fmap \<Rightarrow> string list" where
  "sorted_order m = sorted_list_of_fset (fmdom m)"

definition reverse_order :: "(string, Certificate option) fmap \<Rightarrow> string list" where
  "reverse_order m = rev (sorted_list_of_fset (fmdom m))"

definition two_cert_snapshot :: RouterConfig where
  "two_cert_snapshot =
     default_RouterConfig
       \<lparr>SSLConfig := (SSLConfig default_RouterConfig)\<lparr>DHParam := ''DH PARAMS''\<rparr>,
        AppConfigs :=
          [mapped_app\<lparr>Certificates :=
             fmap_of_list [(''a.example.com'', Some \<lparr>Cert = ''CERT A'', Key = ''KEY A''\<rparr>),
                           (''b.example.com'', Some \<lparr>Cert = ''CERT B'', Key = ''KEY B''\<rparr>),
                           (''c'', None)]\<rparr>],
        PlatformCertificate := Some \<lparr>Cert = ''PLATFORM CERT'', Key = ''PLATFORM KEY''\<rparr>\<rparr>"

definition stale_world :: "nat world" where
  "stale_world =
     ssl_world
       [(''/opt/router/ssl/old.example.com.crt'', \<lparr>content = ''OLD CERT'', mode = perm_0644\<rparr>),
        (''/opt/router/ssl/old.example.com.key'', \<lparr>content = ''OLD KEY'', mode = perm_0600\<rparr>),
        (''/opt/router/ssl/c.crt'', \<lparr>content = ''OLD C'', mode = perm_0644\<rparr>),
        (''/opt/router/ssl/README'', \<lparr>content = ''certificates'', mode = perm_0644\<rparr>)] []"

text \<open>
  The snapshot of a cluster with no platform certificate, an app with a bare domain and an
  app whose secret has a certificate and no key.
\<close>

definition nil_snapshot :: RouterConfig where
  "nil_snapshot =
     projr (snd (build_cluster None [bare_service, mapped_service] crt_only_secrets one_ready))"

section \<open>Properties\<close>

subsection \<open>Synthesis: what the loops keep\<close>

lemma domain_step_frame:
  assumes "buildAppConfig_domain K s rc d app = (l, Inr app')"
  shows "app' = app\<lparr>Certificates := Certificates app'\<rparr>"
    and "d' \<noteq> d \<Longrightarrow> fmlookup (Certificates app') d' = fmlookup (Certificates app) d'"
  using assms
  by (auto simp add: buildAppConfig_domain_def split: if_splits option.splits sum.splits prod.splits)

lemma domain_step_bare:
  assumes "buildAppConfig_domain K s rc d app = (l, Inr app')" and "CHR ''.'' \<notin> set d"
  shows "fmlookup (Certificates app') d = Some (PlatformCertificate rc)"
  using assms by (auto simp add: buildAppConfig_domain_def)

lemma domains_loop_frame:
  assumes "buildAppConfig_domains K s rc ds app = (l, Inr app')"
  shows "app' = app\<lparr>Certificates := Certificates app'\<rparr> \<and>
         (\<forall>d'. d' \<notin> set ds \<longrightarrow> fmlookup (Certificates app') d' = fmlookup (Certificates app) d')"
  using assms
proof (induction ds arbitrary: app l)
  case Nil
  then show ?case by simp
next
  case (Cons d ds)
  from Cons.prems obtain l0 app1 l1 where
    st: "buildAppConfig_domain K s rc d app = (l0, Inr app1)" and
    lp: "buildAppConfig_domains K s rc ds app1 = (l1, Inr app')"
    by (auto split: prod.splits sum.splits)
  have a: "app' = app1\<lparr>Certificates := Certificates app'\<rparr>"
    and b: "\<forall>d'. d' \<notin> set ds \<longrightarrow> fmlookup (Certificates app') d' = fmlookup (Certificates app1) d'"
    using Cons.IH [OF lp] by simp_all
  have c: "app1 = app\<lparr>Certificates := Certificates app1\<rparr>"
    by (rule domain_step_frame(1) [OF st])
  have "app' = app\<lparr>Certificates := Certificates app'\<rparr>"
    by (subst a, subst c) simp
  moreover have "fmlookup (Certificates app') d' = fmlookup (Certificates app) d'"
    if "d' \<notin> set (d # ds)" for d'
    using that b domain_step_frame(2) [OF st, of d'] by simp
  ultimately show ?case by blast
qed

lemma domains_loop_bare:
  assumes "buildAppConfig_domains K s rc ds app = (l, Inr app')"
      and "d \<in> set ds" and "CHR ''.'' \<notin> set d"
  shows "fmlookup (Certificates app') d = Some (PlatformCertificate rc)"
  using assms
proof (induction ds arbitrary: app l)
  case Nil
  then show ?case by simp
next
  case (Cons d0 ds)
  from Cons.prems(1) obtain l0 app1 l1 where
    st: "buildAppConfig_domain K s rc d0 app = (l0, Inr app1)" and
    lp: "buildAppConfig_domains K s rc ds app1 = (l1, Inr app')"
    by (auto split: prod.splits sum.splits)
  show ?case
  proof (cases "d \<in> set ds")
    case True
    then show ?thesis using Cons.IH [OF lp _ Cons.prems(3)] by simp
  next
    case False
    with Cons.prems(2) have "d0 = d" by simp
    with st Cons.prems(3) have "fmlookup (Certificates app1) d = Some (PlatformCertificate rc)"
      by (simp add: domain_step_bare)
    with False domains_loop_frame [OF lp] show ?thesis by simp
  qed
qed

lemma MapToModel_AppConfig_keeps:
  assumes "MapToModel_AppConfig M anns scope app = Inr bound"
  shows "Certificates bound = Certificates app" and "Locations bound = Locations app"
    and "Name bound = Name app"
  using assms by (auto simp add: MapToModel_AppConfig_def split: sum.splits)

lemma newAppConfig_fresh:
  assumes "newAppConfig rc = Inr app"
  shows "Certificates app = fmempty" and "Locations app = []"
  using assms
  by (auto simp add: newAppConfig_def split: sum.splits)

text \<open>What a successful \<open>buildAppConfig\<close> went through.\<close>

lemma buildAppConfig_SomeD:
  assumes "buildAppConfig M K s rc = (l, Inr (Some app))"
  obtains bound app3 endpoints where
    "Certificates bound = fmempty" and "Locations bound = []" and "Domains bound \<noteq> []"
    and "buildAppConfig_domains K s rc (Domains bound) bound = (l, Inr app3)"
    and "Endpoints_Get K (Namespace s) (Service.Name s) = Inr endpoints"
    and "app = app3\<lparr>ServiceIP := ClusterIP s,
                    Available := (length (Subsets endpoints) > 0 \<and>
                                  length (Addresses (Subsets endpoints ! 0)) > 0)\<rparr>"
proof -
  from assms obtain app0 where n: "newAppConfig rc = Inr app0"
    by (auto simp add: buildAppConfig_def split: sum.splits)
  define nm where "nm =
    (let label = (case fmlookup (Labels s) ''app'' of None \<Rightarrow> [] | Some v \<Rightarrow> v);
         name1 = (if label = [] then Service.Name s else label)
     in if name1 \<noteq> Namespace s then Namespace s @ ''/'' @ name1 else name1)"
  from assms n obtain bound where
    m: "MapToModel_AppConfig M (Service.Annotations s) [] (app0\<lparr>Name := nm\<rparr>) = Inr bound"
    by (auto simp add: buildAppConfig_def nm_def Let_def split: sum.splits)
  from assms n m have d: "Domains bound \<noteq> []"
    by (auto simp add: buildAppConfig_def nm_def Let_def split: if_splits)
  from assms n m d obtain app3 where
    lp: "buildAppConfig_domains K s rc (Domains bound) bound = (l, Inr app3)"
    by (auto simp add: buildAppConfig_def nm_def Let_def split: prod.splits sum.splits)
  from assms n m d lp obtain endpoints where
    e: "Endpoints_Get K (Namespace s) (Service.Name s) = Inr endpoints"
    by (auto simp add: buildAppConfig_def nm_def Let_def split: sum.splits)
  from assms n m d lp e have
    a: "app = app3\<lparr>ServiceIP := ClusterIP s,
                    Available := (length (Subsets endpoints) > 0 \<and>
                                  length (Addresses (Subsets endpoints ! 0)) > 0)\<rparr>"
    by (auto simp add: buildAppConfig_def nm_def Let_def)
  from MapToModel_AppConfig_keeps [OF m] newAppConfig_fresh [OF n]
  have "Certificates bound = fmempty" and "Locations bound = []" by simp_all
  with d lp e a show thesis using that by blast
qed

lemma build_appServices_apps:
  assumes "build_appServices M K rc svcs acc = (l, Inr apps)"
  shows "\<exists>new. apps = acc @ new \<and>
           (\<forall>a\<in>set new. \<exists>s\<in>set svcs. \<exists>l'. buildAppConfig M K s rc = (l', Inr (Some a)))"
  using assms
proof (induction svcs arbitrary: acc l)
  case Nil
  then show ?case by simp
next
  case (Cons s svcs)
  from Cons.prems obtain l0 r l1 where
    st: "buildAppConfig M K s rc = (l0, Inr r)" and
    lp: "build_appServices M K rc svcs
           (case r of None \<Rightarrow> acc | Some app \<Rightarrow> acc @ [app]) = (l1, Inr apps)"
    by (auto split: prod.splits sum.splits)
  from Cons.IH [OF lp] obtain new where
    new: "apps = (case r of None \<Rightarrow> acc | Some app \<Rightarrow> acc @ [app]) @ new"
      "\<forall>a\<in>set new. \<exists>s\<in>set svcs. \<exists>l'. buildAppConfig M K s rc = (l', Inr (Some a))"
    by blast
  show ?case
  proof (cases r)
    case None
    with new show ?thesis by auto
  next
    case (Some a)
    with new st have "apps = acc @ (a # new)" by simp
    moreover from new(2) st Some have
      "\<forall>a\<in>set (a # new). \<exists>s\<in>set (s # svcs). \<exists>l'. buildAppConfig M K s rc = (l', Inr (Some a))"
      by auto
    ultimately show ?thesis by blast
  qed
qed

lemma map_update_nth_same: "(map f xs)[k := f (xs ! k)] = map f xs"
proof (cases "k < length xs")
  case True
  then have "(map f xs)[k := f (xs ! k)] = (map f xs)[k := map f xs ! k]" by simp
  then show ?thesis by (simp only: list_update_id)
next
  case False
  then have "length (map f xs) \<le> k" by simp
  then show ?thesis by (rule list_update_beyond)
qed

lemma linkLocations_app_frame:
  assumes "linkLocations_app i apps = Inr apps'"
  shows "map sans_Locations apps' = map sans_Locations apps"
proof (cases "ProxyDomain (apps ! i) \<noteq> [] \<and> length (ProxyLocations (apps ! i)) > 0")
  case False
  with assms show ?thesis by (auto simp add: linkLocations_app_def Let_def)
next
  case True
  with assms obtain t where
    "apps' = apps[t := (apps ! t)\<lparr>Locations := Locations (apps ! t) @
               map (\<lambda>loc. \<lparr>App = i, Path = loc\<rparr>) (ProxyLocations (apps ! i))\<rparr>]"
    by (auto simp add: linkLocations_app_def Let_def split: option.splits)
  then have "map sans_Locations apps' = (map sans_Locations apps)[t := sans_Locations (apps ! t)]"
    by (simp add: map_update sans_Locations_def)
  then show ?thesis by (simp only: map_update_nth_same)
qed

lemma linkLocations_loop_frame:
  assumes "linkLocations_loop is apps = Inr apps'"
  shows "map sans_Locations apps' = map sans_Locations apps"
  using assms
proof (induction "is" arbitrary: apps)
  case Nil
  then show ?case by simp
next
  case (Cons i "is")
  then show ?case
    by (auto split: sum.splits dest!: linkLocations_app_frame)
qed

lemma linkLocations_frame:
  assumes "linkLocations apps = Inr linked"
  shows "map sans_Locations linked = map sans_Locations apps"
  using assms linkLocations_loop_frame by (simp add: linkLocations_def)

lemma addRootLocations_nth:
  assumes "i < length apps"
  shows "addRootLocations apps ! i =
           (apps ! i)\<lparr>Locations := Locations (apps ! i) @ [\<lparr>App = i, Path = ''/''\<rparr>]\<rparr>"
  using assms by (simp add: addRootLocations_def nth_enumerate_eq)

lemma length_addRootLocations: "length (addRootLocations apps) = length apps"
  by (simp add: addRootLocations_def)

lemma addRootLocations_frame:
  "map sans_Locations (addRootLocations apps) = map sans_Locations apps"
  by (rule nth_equalityI) (simp_all add: length_addRootLocations addRootLocations_nth sans_Locations_def)

lemma newRouterConfig_Inr:
  obtains rc where "newRouterConfig = Inr rc" and "AppConfigs rc = []"
  by (simp add: newRouterConfig_def newProxyBuffersConfig_def)

lemma MapToModel_RouterConfig_keeps:
  assumes "MapToModel_RouterConfig M anns scope rc = Inr bound"
  shows "AppConfigs bound = AppConfigs rc"
  using assms by (auto simp add: MapToModel_RouterConfig_def split: sum.splits)

lemma buildRouterConfig_no_apps:
  assumes "buildRouterConfig M dep pcs dhs = (l, Inr rc)"
  shows "AppConfigs rc = []"
proof -
  obtain rc0 where n: "newRouterConfig = Inr rc0" and a0: "AppConfigs rc0 = []"
    by (rule newRouterConfig_Inr)
  note b = assms [unfolded buildRouterConfig_def n sum.case]
  from b obtain rc1 where
    m: "MapToModel_RouterConfig M (Deployment.Annotations dep) ''nginx'' rc0 = Inr rc1"
    by (auto split: sum.splits)
  have a1: "AppConfigs rc1 = []"
    using a0 MapToModel_RouterConfig_keeps [OF m] by simp
  note c = b [unfolded m sum.case]
  define r2 where "r2 = (case pcs of
       None \<Rightarrow> ([], Inr rc1)
     | Some secret \<Rightarrow>
         (case buildCertificate secret ''platform'' of
            (l, Inl err) \<Rightarrow> (l, Inl err)
          | (l, Inr platformCertificate) \<Rightarrow>
              (l, Inr (rc1\<lparr>PlatformCertificate := platformCertificate\<rparr>))))"
  have a2: "AppConfigs rc2 = []" if "r2 = (l1, Inr rc2)" for l1 rc2
    using that a1 by (auto simp add: r2_def split: option.splits prod.splits sum.splits)
  from c obtain l1 rc2 where r: "r2 = (l1, Inr rc2)"
    and f: "(case dhs of
               None \<Rightarrow> (l1, Inr rc2)
             | Some secret \<Rightarrow>
                 (case buildDHParam secret of
                    (l2, Inl err) \<Rightarrow> (l1 @ l2, Inl err)
                  | (l2, Inr dhParam) \<Rightarrow>
                      (l1 @ l2, Inr (rc2\<lparr>SSLConfig := (SSLConfig rc2)\<lparr>DHParam := dhParam\<rparr>\<rparr>)))) = (l, Inr rc)"
    unfolding r2_def [symmetric]
    by (auto split: sum.splits prod.splits)
  from f a2 [OF r] show ?thesis
    by (auto split: option.splits prod.splits sum.splits)
qed

text \<open>What a successful \<open>build\<close> went through.\<close>

lemma build_InrD:
  assumes "build M K dep pcs dhs svcs bs = (l, Inr rc)"
  obtains l0 rc0 l1 apps linked where
    "buildRouterConfig M dep pcs dhs = (l0, Inr rc0)"
    and "build_appServices M K rc0 svcs [] = (l1, Inr apps)"
    and "linkLocations apps = Inr linked"
    and "AppConfigs rc = addRootLocations linked"
    and "PlatformCertificate rc = PlatformCertificate rc0"
proof -
  from assms obtain l0 rc0 where r: "buildRouterConfig M dep pcs dhs = (l0, Inr rc0)"
    by (auto simp add: build_def split: prod.splits sum.splits)
  note e = buildRouterConfig_no_apps [OF r]
  from assms r e obtain l1 apps where a: "build_appServices M K rc0 svcs [] = (l1, Inr apps)"
    by (auto simp add: build_def split: prod.splits sum.splits)
  from assms r e a obtain linked where k: "linkLocations apps = Inr linked"
    by (auto simp add: build_def split: sum.splits)
  from assms r e a k have
    "AppConfigs rc = addRootLocations linked \<and> PlatformCertificate rc = PlatformCertificate rc0"
    by (auto simp add: build_def Let_def split: option.splits sum.splits)
  with r a k show thesis using that by blast
qed

lemma buildAppConfig_no_locations:
  assumes "buildAppConfig M K s rc = (l, Inr (Some app))"
  shows "Locations app = []"
proof -
  from assms obtain bound app3 and endpoints :: Endpoints where
    b: "Locations bound = []" and
    lp: "buildAppConfig_domains K s rc (Domains bound) bound = (l, Inr app3)" and
    a: "app = app3\<lparr>ServiceIP := ClusterIP s,
                    Available := (length (Subsets endpoints) > 0 \<and>
                                  length (Addresses (Subsets endpoints ! 0)) > 0)\<rparr>"
    by (rule buildAppConfig_SomeD) blast
  from domains_loop_frame [OF lp] have "Locations app3 = Locations bound"
    by (metis AppConfig.select_convs(18) AppConfig.surjective AppConfig.update_convs(9))
  with a b show ?thesis by simp
qed

lemma appByDomain_cong:
  assumes "map Domains apps' = map Domains apps"
  shows "appByDomain apps' d = appByDomain apps d"
  using assms
proof (induction apps arbitrary: apps')
  case Nil
  then show ?case by simp
next
  case (Cons a apps)
  from Cons.prems obtain a' rest where
    e: "apps' = a' # rest" and h: "Domains a' = Domains a" and t: "map Domains rest = map Domains apps"
    by (cases apps') auto
  from Cons.IH [OF t] have "appByDomain rest d = appByDomain apps d" .
  with e h show ?case by simp
qed

lemma sans_Locations_same:
  assumes "map sans_Locations apps' = map sans_Locations apps"
  shows "map Domains apps' = map Domains apps"
    and "length apps' = length apps"
    and "i < length apps \<Longrightarrow> ProxyDomain (apps' ! i) = ProxyDomain (apps ! i)"
    and "i < length apps \<Longrightarrow> ProxyLocations (apps' ! i) = ProxyLocations (apps ! i)"
proof -
  show len: "length apps' = length apps"
    using assms by (rule map_eq_imp_length_eq)
  have nth: "sans_Locations (apps' ! n) = sans_Locations (apps ! n)" if "n < length apps" for n
  proof -
    from that len have "map sans_Locations apps' ! n = sans_Locations (apps' ! n)"
      and "map sans_Locations apps ! n = sans_Locations (apps ! n)"
      by simp_all
    with assms show ?thesis by simp
  qed
  have "Domains (apps' ! n) = Domains (apps ! n)" if "n < length apps" for n
  proof -
    from nth [OF that]
    have "Domains (sans_Locations (apps' ! n)) = Domains (sans_Locations (apps ! n))" by simp
    then show ?thesis by (simp add: sans_Locations_def)
  qed
  with len show "map Domains apps' = map Domains apps"
    by (intro nth_equalityI) simp_all
  show "ProxyDomain (apps' ! i) = ProxyDomain (apps ! i)" if "i < length apps"
  proof -
    from nth [OF that]
    have "ProxyDomain (sans_Locations (apps' ! i)) = ProxyDomain (sans_Locations (apps ! i))"
      by simp
    then show ?thesis by (simp add: sans_Locations_def)
  qed
  show "ProxyLocations (apps' ! i) = ProxyLocations (apps ! i)" if "i < length apps"
  proof -
    from nth [OF that]
    have "ProxyLocations (sans_Locations (apps' ! i)) = ProxyLocations (sans_Locations (apps ! i))"
      by simp
    then show ?thesis by (simp add: sans_Locations_def)
  qed
qed

lemma linkLocations_app_dangling:
  assumes "map sans_Locations apps' = map sans_Locations apps" and "i < length apps"
  shows "dangling apps (apps ! i) \<Longrightarrow>
           linkLocations_app i apps' = Inl (proxyDomain_error (ProxyDomain (apps ! i)))"
    and "\<not> dangling apps (apps ! i) \<Longrightarrow> \<exists>apps''. linkLocations_app i apps' = Inr apps''"
  using sans_Locations_same [OF assms(1)] assms(2) appByDomain_cong [of apps' apps]
  by (auto simp add: linkLocations_app_def dangling_def proxyDomain_error_def Let_def
      split: option.splits)

lemma linkLocations_loop_first_dangling:
  assumes "map sans_Locations apps' = map sans_Locations apps"
      and "k \<le> j" and "j < length apps" and "dangling apps (apps ! j)"
      and "\<forall>i. k \<le> i \<and> i < j \<longrightarrow> \<not> dangling apps (apps ! i)"
  shows "linkLocations_loop [k..<length apps] apps' =
           Inl (proxyDomain_error (ProxyDomain (apps ! j)))"
  using assms
proof (induction "j - k" arbitrary: k apps')
  case 0
  then have "k = j" by simp
  with "0.prems" have "[k..<length apps] = j # [Suc j..<length apps]"
    by (simp add: upt_conv_Cons)
  with "0.prems" \<open>k = j\<close> show ?case
    by (simp add: linkLocations_app_dangling(1))
next
  case (Suc n)
  then have kj: "k < j" by simp
  with Suc.prems have up: "[k..<length apps] = k # [Suc k..<length apps]"
    by (simp add: upt_conv_Cons)
  from Suc.prems kj have "\<not> dangling apps (apps ! k)" by simp
  with Suc.prems kj obtain apps'' where st: "linkLocations_app k apps' = Inr apps''"
    using linkLocations_app_dangling(2) [of apps' apps k] by auto
  have fr: "map sans_Locations apps'' = map sans_Locations apps"
    using linkLocations_app_frame [OF st] Suc.prems(1) by simp
  have "linkLocations_loop [Suc k..<length apps] apps'' =
          Inl (proxyDomain_error (ProxyDomain (apps ! j)))"
    using Suc.hyps(2) Suc.prems kj by (intro Suc.hyps(1) fr) auto
  with up st show ?case by simp
qed

lemma linkLocations_first_dangling:
  assumes "apps = pre @ app # post" and "dangling apps app"
      and "\<forall>x\<in>set pre. \<not> dangling apps x"
  shows "linkLocations apps = Inl (proxyDomain_error (ProxyDomain app))"
proof -
  have j: "length pre < length apps" "apps ! length pre = app"
    using assms(1) by simp_all
  have "\<not> dangling apps (apps ! i)" if "i < length pre" for i
    using that assms(1,3) by (simp add: nth_append)
  with j assms(2) show ?thesis
    unfolding linkLocations_def
    using linkLocations_loop_first_dangling [of apps apps 0 "length pre"] by simp
qed

subsection \<open>Synthesis: certificates of the domains\<close>

lemma getSecret_cases:
  "getSecret K name ns =
     (case Secrets_Get K ns name of
        Inl err \<Rightarrow> if is_not_found err then Inr None else Inl err
      | Inr secret \<Rightarrow> Inr (Some secret))"
  by (auto simp add: getSecret_def split: sum.splits error.splits)

text \<open>What one pass of the loop over the domains does for a domain with a dot and a mapping.\<close>

lemma domain_step_mapped:
  assumes "CHR ''.'' \<in> set d" and "fmlookup (CertMappings app) d = Some alias"
  shows "buildAppConfig_domain K s rc d app =
     (case Secrets_Get K (Namespace s) (alias @ ''-cert'') of
        Inl err \<Rightarrow> if is_not_found err then ([], Inr app) else ([], Inl err)
      | Inr secret \<Rightarrow>
          (case fmlookup (Data secret) ''tls.crt'' of
             None \<Rightarrow>
               ([''WARN: The k8s secret intended to convey the '' @ d @
                   '' certificate contained no entry \"tls.crt\".''],
                Inr (app\<lparr>Certificates := fmupd d None (Certificates app)\<rparr>))
           | Some cert \<Rightarrow>
               (case fmlookup (Data secret) ''tls.key'' of
                  None \<Rightarrow>
                    ([''WARN: The k8s secret intended to convey the '' @ d @
                        '' certificate key contained no entry \"tls.key\".''],
                     Inr (app\<lparr>Certificates := fmupd d None (Certificates app)\<rparr>))
                | Some key \<Rightarrow>
                    ([], Inr (app\<lparr>Certificates :=
                                fmupd d (Some \<lparr>Cert = cert, Key = key\<rparr>) (Certificates app)\<rparr>)))))"
  using assms
  by (simp add: buildAppConfig_domain_def getSecret_cases buildCertificate_def newCertificate_def
      split: sum.splits option.splits)

lemma resolved_mono:
  assumes "resolved K ns alias d l before after" and "set l \<subseteq> set l'"
  shows "resolved K ns alias d l' before after"
  using assms by (auto simp add: resolved_def split: sum.splits option.splits)

lemma resolved_trans:
  assumes "resolved K ns alias d l before mid" and "resolved K ns alias d l' mid after"
  shows "resolved K ns alias d (l @ l') before after"
  using assms by (auto simp add: resolved_def split: sum.splits option.splits)

lemma domain_step_resolved:
  assumes "buildAppConfig_domain K s rc d app = (l, Inr app')"
      and "CHR ''.'' \<in> set d" and "fmlookup (CertMappings app) d = Some alias"
  shows "resolved K (Namespace s) alias d l (fmlookup (Certificates app) d)
           (fmlookup (Certificates app') d)"
  using assms(1) unfolding domain_step_mapped [OF assms(2,3)] resolved_def
  by (auto split: sum.splits option.splits if_splits)

lemma domains_loop_resolved:
  assumes "buildAppConfig_domains K s rc ds app = (l, Inr app')"
      and "d \<in> set ds" and "CHR ''.'' \<in> set d" and "fmlookup (CertMappings app) d = Some alias"
  shows "resolved K (Namespace s) alias d l (fmlookup (Certificates app) d)
           (fmlookup (Certificates app') d)"
  using assms
proof (induction ds arbitrary: app l)
  case Nil
  then show ?case by simp
next
  case (Cons d0 ds)
  from Cons.prems(1) obtain l0 app1 l1 where
    st: "buildAppConfig_domain K s rc d0 app = (l0, Inr app1)" and
    lp: "buildAppConfig_domains K s rc ds app1 = (l1, Inr app')" and
    l: "l = l0 @ l1"
    by (auto split: prod.splits sum.splits)
  have "app1 = app\<lparr>Certificates := Certificates app1\<rparr>"
    by (rule domain_step_frame(1) [OF st])
  then have "CertMappings app1 = CertMappings (app\<lparr>Certificates := Certificates app1\<rparr>)"
    by simp
  with Cons.prems(4) have m1: "fmlookup (CertMappings app1) d = Some alias"
    by simp
  show ?case
  proof (cases "d \<in> set ds")
    case True
    note ih = Cons.IH [OF lp True Cons.prems(3) m1]
    show ?thesis
    proof (cases "d0 = d")
      case True
      with st Cons.prems(3,4) have
        "resolved K (Namespace s) alias d l0 (fmlookup (Certificates app) d)
           (fmlookup (Certificates app1) d)"
        by (simp add: domain_step_resolved)
      from resolved_trans [OF this ih] show ?thesis unfolding l .
    next
      case False
      with domain_step_frame(2) [OF st, of d]
      have "fmlookup (Certificates app1) d = fmlookup (Certificates app) d" by simp
      with ih show ?thesis unfolding l by (auto intro: resolved_mono)
    qed
  next
    case False
    with Cons.prems(2) have e: "d0 = d" by simp
    from False domains_loop_frame [OF lp]
    have "fmlookup (Certificates app') d = fmlookup (Certificates app1) d" by simp
    moreover from st e Cons.prems(3,4) have
      "resolved K (Namespace s) alias d l0 (fmlookup (Certificates app) d)
         (fmlookup (Certificates app1) d)"
      by (simp add: domain_step_resolved)
    ultimately show ?thesis unfolding l by (auto intro: resolved_mono)
  qed
qed


lemma build_appServices_logs:
  assumes "build_appServices M K rc svcs acc = (l, Inr apps)"
  shows "\<exists>new. apps = acc @ new \<and>
           (\<forall>a\<in>set new. \<exists>s\<in>set svcs. \<exists>l'.
              buildAppConfig M K s rc = (l', Inr (Some a)) \<and> set l' \<subseteq> set l)"
  using assms
proof (induction svcs arbitrary: acc l)
  case Nil
  then show ?case by simp
next
  case (Cons s svcs)
  from Cons.prems obtain l0 r l1 where
    st: "buildAppConfig M K s rc = (l0, Inr r)" and
    lp: "build_appServices M K rc svcs
           (case r of None \<Rightarrow> acc | Some app \<Rightarrow> acc @ [app]) = (l1, Inr apps)" and
    l: "l = l0 @ l1"
    by (auto split: prod.splits sum.splits)
  from Cons.IH [OF lp] obtain new where
    new: "apps = (case r of None \<Rightarrow> acc | Some app \<Rightarrow> acc @ [app]) @ new"
      "\<forall>a\<in>set new. \<exists>s\<in>set svcs. \<exists>l'.
         buildAppConfig M K s rc = (l', Inr (Some a)) \<and> set l' \<subseteq> set l1"
    by blast
  from new(2) l have rest:
    "\<forall>a\<in>set new. \<exists>s\<in>set (s # svcs). \<exists>l'.
       buildAppConfig M K s rc = (l', Inr (Some a)) \<and> set l' \<subseteq> set l"
    by fastforce
  show ?case
  proof (cases r)
    case None
    with new(1) rest show ?thesis by auto
  next
    case (Some a)
    with new st have "apps = acc @ (a # new)" by simp
    moreover from st Some l have
      "\<exists>s'\<in>set (s # svcs). \<exists>l'. buildAppConfig M K s' rc = (l', Inr (Some a)) \<and> set l' \<subseteq> set l"
      by auto
    with rest have
      "\<forall>a\<in>set (a # new). \<exists>s\<in>set (s # svcs). \<exists>l'.
         buildAppConfig M K s rc = (l', Inr (Some a)) \<and> set l' \<subseteq> set l"
      by simp
    ultimately show ?thesis by blast
  qed
qed

lemma build_Inr_log:
  assumes "build M K dep pcs dhs svcs bs = (l, Inr rc)"
      and "buildRouterConfig M dep pcs dhs = (l0, Inr rc0)"
      and "build_appServices M K rc0 svcs [] = (l1, Inr apps)"
  shows "l = l0 @ l1"
  using assms buildRouterConfig_no_apps [OF assms(2)]
  by (auto simp add: build_def Let_def split: sum.splits option.splits)

text \<open>An app of a returned snapshot, traced back to the service and the loop that made it.\<close>

lemma build_app_origin:
  assumes "build M K dep pcs dhs svcs bs = (l, Inr rc)" and "app \<in> set (AppConfigs rc)"
  obtains s rc0 bound app3 l' where
    "s \<in> set svcs" and "set l' \<subseteq> set l"
    and "PlatformCertificate rc = PlatformCertificate rc0"
    and "Certificates bound = fmempty"
    and "buildAppConfig_domains K s rc0 (Domains bound) bound = (l', Inr app3)"
    and "Domains app = Domains bound" and "CertMappings app = CertMappings bound"
    and "Certificates app = Certificates app3" and "ServiceIP app = ClusterIP s"
proof -
  from assms(1) obtain l0 rc0 l1 apps linked where
    r: "buildRouterConfig M dep pcs dhs = (l0, Inr rc0)" and
    a: "build_appServices M K rc0 svcs [] = (l1, Inr apps)" and
    k: "linkLocations apps = Inr linked" and
    f: "AppConfigs rc = addRootLocations linked" and
    p: "PlatformCertificate rc = PlatformCertificate rc0"
    by (rule build_InrD)
  have l: "l = l0 @ l1" by (rule build_Inr_log [OF assms(1) r a])
  have "map sans_Locations (AppConfigs rc) = map sans_Locations apps"
    using addRootLocations_frame linkLocations_frame [OF k] by (simp add: f)
  with assms(2) have "sans_Locations app \<in> sans_Locations ` set apps"
    by (metis image_eqI list.set_map)
  then obtain app0 where app0: "app0 \<in> set apps" and s: "sans_Locations app = sans_Locations app0"
    by blast
  from s have "Domains (sans_Locations app) = Domains (sans_Locations app0)"
    and "CertMappings (sans_Locations app) = CertMappings (sans_Locations app0)"
    and "Certificates (sans_Locations app) = Certificates (sans_Locations app0)"
    and "ServiceIP (sans_Locations app) = ServiceIP (sans_Locations app0)"
    by simp_all
  then have same: "Domains app = Domains app0" "CertMappings app = CertMappings app0"
    "Certificates app = Certificates app0" "ServiceIP app = ServiceIP app0"
    by (simp_all add: sans_Locations_def)
  from build_appServices_logs [OF a] app0 obtain sv l' where
    sv: "sv \<in> set svcs" and b: "buildAppConfig M K sv rc0 = (l', Inr (Some app0))" and
    sub: "set l' \<subseteq> set l1"
    by auto
  from b obtain bound app3 and endpoints :: Endpoints where
    c: "Certificates bound = fmempty" and
    lp: "buildAppConfig_domains K sv rc0 (Domains bound) bound = (l', Inr app3)" and
    e: "app0 = app3\<lparr>ServiceIP := ClusterIP sv,
                    Available := (length (Subsets endpoints) > 0 \<and>
                                  length (Addresses (Subsets endpoints ! 0)) > 0)\<rparr>"
    by (rule buildAppConfig_SomeD) blast
  have fr: "app3 = bound\<lparr>Certificates := Certificates app3\<rparr>"
    using domains_loop_frame [OF lp] by simp
  have "Domains app3 = Domains (bound\<lparr>Certificates := Certificates app3\<rparr>)"
    and "CertMappings app3 = CertMappings (bound\<lparr>Certificates := Certificates app3\<rparr>)"
    using fr by simp_all
  then have "Domains app3 = Domains bound" and "CertMappings app3 = CertMappings bound"
    by simp_all
  with e same have "Domains app = Domains bound" "CertMappings app = CertMappings bound"
    "Certificates app = Certificates app3" "ServiceIP app = ClusterIP sv"
    by simp_all
  moreover from sub l have "set l' \<subseteq> set l" by auto
  ultimately show thesis using that sv p c lp by blast
qed

lemma build_resolved:
  assumes "build M K dep pcs dhs svcs bs = (l, Inr rc)" and "app \<in> set (AppConfigs rc)"
      and "d \<in> set (Domains app)" and "CHR ''.'' \<in> set d"
      and "fmlookup (CertMappings app) d = Some alias"
  shows "\<exists>s\<in>set svcs. ServiceIP app = ClusterIP s \<and>
           resolved K (Namespace s) alias d l None (fmlookup (Certificates app) d)"
proof -
  from assms(1,2) obtain s rc0 bound app3 l' where
    s: "s \<in> set svcs" and sub: "set l' \<subseteq> set l" and
    c: "Certificates bound = fmempty" and
    lp: "buildAppConfig_domains K s rc0 (Domains bound) bound = (l', Inr app3)" and
    same: "Domains app = Domains bound" "CertMappings app = CertMappings bound"
      "Certificates app = Certificates app3" "ServiceIP app = ClusterIP s"
    by (rule build_app_origin) blast
  from assms(3,5) same have "d \<in> set (Domains bound)" "fmlookup (CertMappings bound) d = Some alias"
    by simp_all
  from domains_loop_resolved [OF lp this(1) assms(4) this(2)] sub
  have "resolved K (Namespace s) alias d l None (fmlookup (Certificates app) d)"
    by (simp add: c same resolved_mono)
  with s same(4) show ?thesis by blast
qed

text \<open>
  A fetch that fails with an error other than not-found, for a domain with a dot and a
  mapping among the domains of a service, makes the loops return an error: the loop over the
  domains, \<open>buildAppConfig\<close>, the loop over the services and \<open>build\<close>.
\<close>

lemma buildAppConfig_annotated:
  "buildAppConfig M K s rc =
     (case annotated_app M s rc of
        Inl err \<Rightarrow> ([], Inl err)
      | Inr bound \<Rightarrow>
          if length (Domains bound) = 0 then ([], Inr None)
          else
            (case buildAppConfig_domains K s rc (Domains bound) bound of
               (l, Inl err) \<Rightarrow> (l, Inl err)
             | (l, Inr app3) \<Rightarrow>
                 (case Endpoints_Get K (Namespace s) (Service.Name s) of
                    Inl err \<Rightarrow> (l, Inl err)
                  | Inr endpoints \<Rightarrow>
                      (l, Inr (Some (app3
                         \<lparr>ServiceIP := ClusterIP s,
                          Available :=
                            (length (Subsets endpoints) > 0 \<and>
                             length (Addresses (Subsets endpoints ! 0)) > 0)\<rparr>))))))"
  by (simp add: buildAppConfig_def annotated_app_def Let_def split: sum.splits)

lemma domains_loop_fetch_error:
  assumes "d \<in> set ds" and "CHR ''.'' \<in> set d"
      and "fmlookup (CertMappings app) d = Some alias"
      and "Secrets_Get K (Namespace s) (alias @ ''-cert'') = Inl e" and "\<not> is_not_found e"
  shows "\<exists>l err. buildAppConfig_domains K s rc ds app = (l, Inl err)"
  using assms(1,3)
proof (induction ds arbitrary: app)
  case Nil
  then show ?case by simp
next
  case (Cons d0 ds)
  obtain l0 r0 where st: "buildAppConfig_domain K s rc d0 app = (l0, r0)"
    by (cases "buildAppConfig_domain K s rc d0 app")
  show ?case
  proof (cases r0)
    case (Inl err)
    with st show ?thesis by simp
  next
    case (Inr app1)
    have fr: "app1 = app\<lparr>Certificates := Certificates app1\<rparr>"
      by (rule domain_step_frame(1) [OF st [unfolded Inr]])
    have "CertMappings app1 = CertMappings (app\<lparr>Certificates := Certificates app1\<rparr>)"
      using fr by simp
    then have cm: "fmlookup (CertMappings app1) d = Some alias"
      using Cons.prems(2) by simp
    have "d0 \<noteq> d"
    proof
      assume "d0 = d"
      with st Inr domain_step_mapped [OF assms(2) Cons.prems(2), of K s rc] assms(4,5)
      show False by simp
    qed
    with Cons.prems(1) have "d \<in> set ds" by simp
    from Cons.IH [OF this cm] obtain l1 err where
      "buildAppConfig_domains K s rc ds app1 = (l1, Inl err)" by blast
    with st Inr show ?thesis by simp
  qed
qed

lemma buildAppConfig_fetch_error:
  assumes "annotated_app M s rc = Inr bound" and "d \<in> set (Domains bound)"
      and "CHR ''.'' \<in> set d" and "fmlookup (CertMappings bound) d = Some alias"
      and "Secrets_Get K (Namespace s) (alias @ ''-cert'') = Inl e" and "\<not> is_not_found e"
  shows "\<exists>l err. buildAppConfig M K s rc = (l, Inl err)"
proof -
  from domains_loop_fetch_error [OF assms(2,3,4,5,6)] obtain l err where
    "buildAppConfig_domains K s rc (Domains bound) bound = (l, Inl err)" by blast
  moreover from assms(2) have "Domains bound \<noteq> []" by auto
  ultimately show ?thesis
    by (simp add: buildAppConfig_annotated assms(1))
qed

lemma build_appServices_error:
  assumes "s \<in> set svcs" and "buildAppConfig M K s rc = (l, Inl err)"
  shows "\<exists>l' err'. build_appServices M K rc svcs acc = (l', Inl err')"
  using assms(1)
proof (induction svcs arbitrary: acc)
  case Nil
  then show ?case by simp
next
  case (Cons s0 svcs)
  obtain l0 r0 where b: "buildAppConfig M K s0 rc = (l0, r0)"
    by (cases "buildAppConfig M K s0 rc")
  show ?case
  proof (cases r0)
    case (Inl e0)
    with b show ?thesis by simp
  next
    case (Inr a)
    with b assms(2) have "s0 \<noteq> s" by auto
    with Cons.prems have "s \<in> set svcs" by simp
    from Cons.IH [OF this] obtain l1 e1 where
      "build_appServices M K rc svcs (case a of None \<Rightarrow> acc | Some app \<Rightarrow> acc @ [app]) = (l1, Inl e1)"
      by blast
    with b Inr show ?thesis by simp
  qed
qed

lemma build_appServices_error_build:
  assumes "buildRouterConfig M dep pcs dhs = (l0, Inr rc0)"
      and "build_appServices M K rc0 svcs (AppConfigs rc0) = (l1, Inl err)"
  shows "build M K dep pcs dhs svcs bs = (l0 @ l1, Inl err)"
  by (simp add: build_def assms)

lemma build_fetch_error:
  assumes "buildRouterConfig M dep pcs dhs = (l0, Inr rc0)" and "s \<in> set svcs"
      and "annotated_app M s rc0 = Inr bound" and "d \<in> set (Domains bound)"
      and "CHR ''.'' \<in> set d" and "fmlookup (CertMappings bound) d = Some alias"
      and "Secrets_Get K (Namespace s) (alias @ ''-cert'') = Inl e" and "\<not> is_not_found e"
  shows "\<exists>l err. build M K dep pcs dhs svcs bs = (l, Inl err)"
proof -
  from buildAppConfig_fetch_error [OF assms(3,4,5,6,7,8)] obtain l err where
    "buildAppConfig M K s rc0 = (l, Inl err)" by blast
  from build_appServices_error [OF assms(2) this] obtain l1 e1 where
    "build_appServices M K rc0 svcs (AppConfigs rc0) = (l1, Inl e1)" by blast
  from build_appServices_error_build [OF assms(1) this] show ?thesis by blast
qed

subsection \<open>Files: what the writers do when they succeed\<close>

lemma same_but_files_refl [simp]: "same_but_files w w"
  by (simp add: same_but_files_def)

lemma same_but_files_trans:
  "same_but_files w w' \<Longrightarrow> same_but_files w' w'' \<Longrightarrow> same_but_files w w''"
  by (simp add: same_but_files_def)

lemma crt_path_inject [simp]: "crt_path ssl a = crt_path ssl b \<longleftrightarrow> a = b"
  by (simp add: crt_path_def filepath_Join_def)

lemma key_path_inject [simp]: "key_path ssl a = key_path ssl b \<longleftrightarrow> a = b"
  by (simp add: key_path_def filepath_Join_def)

lemma ends_differ: "a @ ''.crt'' \<noteq> b @ ''.key''"
proof
  assume "a @ ''.crt'' = b @ ''.key''"
  then have "last (a @ ''.crt'') = last (b @ ''.key'')" by simp
  then show False by simp
qed

lemma crt_path_not_key [simp]: "crt_path ssl a \<noteq> key_path ssl b" "key_path ssl b \<noteq> crt_path ssl a"
  using ends_differ [of a b] by (auto simp add: crt_path_def key_path_def filepath_Join_def)

lemma dhparam_not_cert [simp]:
  "filepath_Join ssl ''dhparam.pem'' \<noteq> crt_path ssl a"
  "filepath_Join ssl ''dhparam.pem'' \<noteq> key_path ssl a"
proof -
  have "last ''dhparam.pem'' \<noteq> last (a @ ''.crt'')" "last ''dhparam.pem'' \<noteq> last (a @ ''.key'')"
    by simp_all
  then have "''dhparam.pem'' \<noteq> a @ ''.crt''" "''dhparam.pem'' \<noteq> a @ ''.key''"
    by metis+
  then show "filepath_Join ssl ''dhparam.pem'' \<noteq> crt_path ssl a"
    "filepath_Join ssl ''dhparam.pem'' \<noteq> key_path ssl a"
    by (simp_all add: crt_path_def key_path_def filepath_Join_def)
qed

lemma globMatch_Join:
  "globMatch dir ext (filepath_Join dir name) \<longleftrightarrow> CHR ''/'' \<notin> set name \<and> suffix ext name"
  by (simp add: globMatch_def filepath_Join_def)

lemma globMatch_iff:
  "globMatch dir ext path \<longleftrightarrow>
     (\<exists>name. path = filepath_Join dir name \<and> CHR ''/'' \<notin> set name \<and> suffix ext name)"
proof
  assume g: "globMatch dir ext path"
  then obtain rest where "path = (dir @ ''/'') @ rest"
    by (auto simp add: globMatch_def prefix_def)
  with g show "\<exists>name. path = filepath_Join dir name \<and> CHR ''/'' \<notin> set name \<and> suffix ext name"
    by (auto simp add: globMatch_def filepath_Join_def)
next
  assume "\<exists>name. path = filepath_Join dir name \<and> CHR ''/'' \<notin> set name \<and> suffix ext name"
  then show "globMatch dir ext path" by (auto simp add: globMatch_Join)
qed

lemma globMatch_crt:
  "globMatch ssl ''.crt'' path \<longleftrightarrow> (\<exists>ctx. path = crt_path ssl ctx \<and> CHR ''/'' \<notin> set ctx)"
  unfolding globMatch_iff crt_path_def
  by (auto simp add: suffix_def)

lemma globMatch_key:
  "globMatch ssl ''.key'' path \<longleftrightarrow> (\<exists>ctx. path = key_path ssl ctx \<and> CHR ''/'' \<notin> set ctx)"
  unfolding globMatch_iff key_path_def
  by (auto simp add: suffix_def)

lemma entry_content_update: "f\<lparr>content := b\<rparr> = \<lparr>content = b, mode = mode f\<rparr>"
  by (cases f) simp

lemma os_Remove_ok:
  assumes "os_Remove path w = (None, w')"
  shows "files w' = fmdrop path (files w)" and "journal w' = journal w @ [EvRemove path]"
    and "same_but_files w w'"
  using assms by (auto simp add: os_Remove_def Let_def same_but_files_def split: if_splits)

lemma os_RemoveAll_ok:
  assumes "os_RemoveAll path w = (None, w')"
  shows "files w' = fmdrop path (files w)" and "journal w' = journal w @ [EvRemoveAll path]"
    and "same_but_files w w'"
proof -
  have "fmdrop path (files w) = files w" if "fmlookup (files w) path = None"
    using that by (intro fmap_ext) auto
  with assms show "files w' = fmdrop path (files w)"
    by (auto simp add: os_RemoveAll_def Let_def split: if_splits)
  from assms show "journal w' = journal w @ [EvRemoveAll path]" "same_but_files w w'"
    by (auto simp add: os_RemoveAll_def Let_def same_but_files_def split: if_splits)
qed

lemma ioutil_WriteFile_ok:
  assumes "ioutil_WriteFile path bytes perm w = (None, w')"
  shows "files w' = put_file path bytes perm (files w)"
    and "journal w' = journal w @ [EvWriteFile path bytes perm]"
    and "same_but_files w w'"
  using assms
  by (auto simp add: ioutil_WriteFile_def Let_def same_but_files_def put_file_def
      entry_content_update split: if_splits option.splits)

lemma writeCert_ok:
  assumes "writeCert ctx c ssl w = (None, w')"
  shows "files w' = put_certs ssl [(ctx, c)] (files w)"
    and "journal w' = journal w @ write_events ssl (ctx, c)"
    and "same_but_files w w'"
proof -
  from assms obtain w1 where
    a: "ioutil_WriteFile (crt_path ssl ctx) (Cert c) perm_0644 w = (None, w1)" and
    b: "ioutil_WriteFile (key_path ssl ctx) (Key c) perm_0600 w1 = (None, w')"
    by (auto simp add: writeCert_def crt_path_def key_path_def Let_def split: prod.splits option.splits)
  from ioutil_WriteFile_ok [OF a] ioutil_WriteFile_ok [OF b]
  show "files w' = put_certs ssl [(ctx, c)] (files w)"
    and "journal w' = journal w @ write_events ssl (ctx, c)"
    and "same_but_files w w'"
    by (simp_all add: write_events_def same_but_files_def)
qed

lemma put_certs_append:
  "put_certs ssl (xs @ ys) m = put_certs ssl ys (put_certs ssl xs m)"
  by (induction xs arbitrary: m) auto

lemma WriteCerts_remove_ok:
  assumes "WriteCerts_remove paths w = (None, w')"
  shows "files w' = fmdrop_set (set paths) (files w) \<and>
         journal w' = journal w @ map EvRemove paths \<and> same_but_files w w'"
  using assms
proof (induction paths arbitrary: w)
  case Nil
  then show ?case by simp
next
  case (Cons p ps)
  from Cons.prems obtain w1 where
    a: "os_Remove p w = (None, w1)" and b: "WriteCerts_remove ps w1 = (None, w')"
    by (auto split: prod.splits option.splits)
  have "fmdrop_set (set ps) (fmdrop p m) = fmdrop_set (set (p # ps)) m" for m :: "(string, entry) fmap"
    by (intro fmap_ext) auto
  with Cons.IH [OF b] os_Remove_ok [OF a] show ?case
    by (auto simp add: same_but_files_def)
qed

lemma WriteCerts_range_ok:
  assumes "WriteCerts_range certs ks ssl w = (None, w')"
  shows "files w' = put_certs ssl (range_bindings certs ks) (files w) \<and>
         journal w' = journal w @ concat (map (write_events ssl) (range_bindings certs ks)) \<and>
         same_but_files w w'"
  using assms
proof (induction ks arbitrary: w)
  case Nil
  then show ?case by (simp add: range_bindings_def)
next
  case (Cons d ks)
  show ?case
  proof (cases "\<exists>c. fmlookup certs d = Some (Some c)")
    case False
    then have skip: "range_bindings certs (d # ks) = range_bindings certs ks"
      by (auto simp add: range_bindings_def split: option.splits)
    from False Cons.prems have "WriteCerts_range certs ks ssl w = (None, w')"
      by (auto split: option.splits)
    from Cons.IH [OF this] skip show ?thesis by simp
  next
    case True
    then obtain c where c: "fmlookup certs d = Some (Some c)" by blast
    then have more: "range_bindings certs (d # ks) = (d, c) # range_bindings certs ks"
      by (simp add: range_bindings_def)
    from c Cons.prems obtain w1 where
      a: "writeCert d c ssl w = (None, w1)" and b: "WriteCerts_range certs ks ssl w1 = (None, w')"
      by (auto split: prod.splits option.splits)
    from Cons.IH [OF b] writeCert_ok [OF a] more show ?thesis
      by (auto simp add: same_but_files_def)
  qed
qed

lemma WriteCerts_apps_ok:
  assumes "WriteCerts_apps order apps ssl w = (None, w')"
  shows "files w' = put_certs ssl (apps_bindings order apps) (files w) \<and>
         journal w' = journal w @ concat (map (write_events ssl) (apps_bindings order apps)) \<and>
         same_but_files w w'"
  using assms
proof (induction apps arbitrary: w)
  case Nil
  then show ?case by (simp add: apps_bindings_def)
next
  case (Cons app apps)
  from Cons.prems obtain w1 where
    a: "WriteCerts_range (Certificates app) (order (Certificates app)) ssl w = (None, w1)" and
    b: "WriteCerts_apps order apps ssl w1 = (None, w')"
    by (auto split: prod.splits option.splits)
  have "apps_bindings order (app # apps) =
          range_bindings (Certificates app) (order (Certificates app)) @ apps_bindings order apps"
    by (simp add: apps_bindings_def)
  with Cons.IH [OF b] WriteCerts_range_ok [OF a] show ?case
    by (auto simp add: same_but_files_def put_certs_append)
qed

lemma WriteCerts_ok:
  assumes "WriteCerts order rc ssl w = (None, w')"
  shows "files w' = put_certs ssl (written_bindings order rc) (cleared ssl (files w))"
    and "journal w' =
           journal w @
           map EvRemove (sorted_list_of_fset (ffilter (globMatch ssl ''.crt'') (fmdom (files w)))) @
           map EvRemove (sorted_list_of_fset (ffilter (globMatch ssl ''.key'') (fmdom (files w)))) @
           concat (map (write_events ssl) (written_bindings order rc))"
    and "same_but_files w w'"
proof -
  let ?crts = "sorted_list_of_fset (ffilter (globMatch ssl ''.crt'') (fmdom (files w)))"
  let ?keys = "sorted_list_of_fset (ffilter (globMatch ssl ''.key'') (fmdom (files w)))"
  let ?pl = "case PlatformCertificate rc of None \<Rightarrow> [] | Some c \<Rightarrow> [(''platform'', c)]"
  from assms obtain w1 where r1: "WriteCerts_remove ?crts w = (None, w1)"
    by (auto simp add: WriteCerts_def filepath_Glob_def split: prod.splits option.splits)
  from assms r1 obtain w2 where r2: "WriteCerts_remove ?keys w1 = (None, w2)"
    by (auto simp add: WriteCerts_def filepath_Glob_def split: prod.splits option.splits)
  from assms r1 r2 obtain w3 where
    p: "(case PlatformCertificate rc of None \<Rightarrow> (None, w2)
         | Some certificate \<Rightarrow> writeCert ''platform'' certificate ssl w2) = (None, w3)"
    by (auto simp add: WriteCerts_def filepath_Glob_def split: prod.splits option.splits)
  from assms r1 r2 p have a: "WriteCerts_apps order (AppConfigs rc) ssl w3 = (None, w')"
    by (auto simp add: WriteCerts_def filepath_Glob_def split: prod.splits option.splits)
  note k1 = WriteCerts_remove_ok [OF r1] and k2 = WriteCerts_remove_ok [OF r2]
    and k4 = WriteCerts_apps_ok [OF a]
  have k3: "files w3 = put_certs ssl ?pl (files w2) \<and>
            journal w3 = journal w2 @ concat (map (write_events ssl) ?pl) \<and> same_but_files w2 w3"
  proof (cases "PlatformCertificate rc")
    case None
    with p show ?thesis by simp
  next
    case (Some c)
    with p have "writeCert ''platform'' c ssl w2 = (None, w3)" by simp
    from writeCert_ok [OF this] Some show ?thesis by simp
  qed
  have c: "fmdrop_set (set ?keys) (fmdrop_set (set ?crts) (files w)) = cleared ssl (files w)"
    by (intro fmap_ext) (auto simp add: cleared_def fmlookup_dom_iff)
  have wb: "written_bindings order rc = ?pl @ apps_bindings order (AppConfigs rc)"
    by (simp add: written_bindings_def apps_bindings_def)
  from k1 k2 k3 k4 c show "files w' = put_certs ssl (written_bindings order rc) (cleared ssl (files w))"
    by (simp add: wb put_certs_append)
  from k1 k2 k3 k4 show "journal w' = journal w @ map EvRemove ?crts @ map EvRemove ?keys @
           concat (map (write_events ssl) (written_bindings order rc))"
    by (simp add: wb)
  from k1 k2 k3 k4 show "same_but_files w w'"
    by (simp add: same_but_files_def)
qed

subsection \<open>The files after the writes\<close>

lemma fmlookup_put_file:
  "fmlookup (put_file path bytes perm m) p =
     (if p = path
      then Some \<lparr>content = bytes, mode = (case fmlookup m path of None \<Rightarrow> perm | Some f \<Rightarrow> mode f)\<rparr>
      else fmlookup m p)"
  by (simp add: put_file_def)

lemma put_certs_other:
  assumes "\<forall>ctx\<in>fst ` set bs. p \<noteq> crt_path ssl ctx \<and> p \<noteq> key_path ssl ctx"
  shows "fmlookup (put_certs ssl bs m) p = fmlookup m p"
  using assms by (induction bs arbitrary: m) (auto simp add: fmlookup_put_file)

lemma put_certs_crt:
  "fmlookup (put_certs ssl bs m) (crt_path ssl ctx) =
     (case map_of (rev bs) ctx of
        None \<Rightarrow> fmlookup m (crt_path ssl ctx)
      | Some c \<Rightarrow>
          Some \<lparr>content = Cert c,
                mode = (case fmlookup m (crt_path ssl ctx) of None \<Rightarrow> perm_0644 | Some f \<Rightarrow> mode f)\<rparr>)"
proof (induction bs arbitrary: m)
  case Nil
  then show ?case by simp
next
  case (Cons b bs)
  obtain ctx0 c0 where b: "b = (ctx0, c0)" by (cases b)
  show ?case
    unfolding b put_certs.simps Cons.IH
    by (auto simp add: fmlookup_put_file map_of_append map_add_def split: option.splits)
qed

lemma put_certs_key:
  "fmlookup (put_certs ssl bs m) (key_path ssl ctx) =
     (case map_of (rev bs) ctx of
        None \<Rightarrow> fmlookup m (key_path ssl ctx)
      | Some c \<Rightarrow>
          Some \<lparr>content = Key c,
                mode = (case fmlookup m (key_path ssl ctx) of None \<Rightarrow> perm_0600 | Some f \<Rightarrow> mode f)\<rparr>)"
proof (induction bs arbitrary: m)
  case Nil
  then show ?case by simp
next
  case (Cons b bs)
  obtain ctx0 c0 where b: "b = (ctx0, c0)" by (cases b)
  show ?case
    unfolding b put_certs.simps Cons.IH
    by (auto simp add: fmlookup_put_file map_of_append map_add_def split: option.splits)
qed

subsection \<open>The order of the range does not matter\<close>

lemma map_of_range_bindings:
  assumes "distinct ks"
  shows "map_of (rev (range_bindings certs ks)) ctx =
           (if ctx \<in> set ks
            then (case fmlookup certs ctx of Some (Some c) \<Rightarrow> Some c | _ \<Rightarrow> None)
            else None)"
  using assms
proof (induction ks)
  case Nil
  then show ?case by (simp add: range_bindings_def)
next
  case (Cons d ks)
  have "range_bindings certs (d # ks) =
          (case fmlookup certs d of Some (Some c) \<Rightarrow> [(d, c)] | _ \<Rightarrow> []) @ range_bindings certs ks"
    by (simp add: range_bindings_def)
  with Cons show ?case
    by (auto simp add: map_of_append map_add_def split: option.splits)
qed

lemma map_of_range_bindings_ok:
  assumes "rangeOrder_ok order certs"
  shows "map_of (rev (range_bindings certs (order certs))) ctx =
           (case fmlookup certs ctx of Some (Some c) \<Rightarrow> Some c | _ \<Rightarrow> None)"
proof -
  from assms have d: "distinct (order certs)" and s: "set (order certs) = fset (fmdom certs)"
    by (simp_all add: rangeOrder_ok_def)
  have "ctx \<notin> set (order certs) \<Longrightarrow> fmlookup certs ctx = None"
    unfolding s by (simp add: fmdom_notD)
  with map_of_range_bindings [OF d, of certs ctx] show ?thesis
    by (auto split: option.splits)
qed

lemma map_of_apps_bindings:
  assumes "\<forall>app\<in>set apps. rangeOrder_ok order (Certificates app)"
  shows "map_of (rev (apps_bindings order apps)) ctx = apps_binding apps ctx"
  using assms
proof (induction apps)
  case Nil
  then show ?case by (simp add: apps_bindings_def)
next
  case (Cons app apps)
  have "apps_bindings order (app # apps) =
          range_bindings (Certificates app) (order (Certificates app)) @ apps_bindings order apps"
    by (simp add: apps_bindings_def)
  moreover from Cons.prems have "rangeOrder_ok order (Certificates app)" by simp
  note map_of_range_bindings_ok [OF this, of ctx]
  moreover from Cons have "map_of (rev (apps_bindings order apps)) ctx = apps_binding apps ctx"
    by simp
  ultimately show ?case
    by (auto simp add: map_of_append map_add_def split: option.splits)
qed

lemma map_of_written_bindings:
  assumes "\<forall>app\<in>set (AppConfigs rc). rangeOrder_ok order (Certificates app)"
  shows "map_of (rev (written_bindings order rc)) ctx = bound_certificate rc ctx"
proof -
  have "written_bindings order rc =
          (case PlatformCertificate rc of None \<Rightarrow> [] | Some c \<Rightarrow> [(''platform'', c)]) @
          apps_bindings order (AppConfigs rc)"
    by (simp add: written_bindings_def apps_bindings_def)
  with map_of_apps_bindings [OF assms, of ctx] show ?thesis
    by (auto simp add: bound_certificate_def map_of_append map_add_def split: option.splits)
qed

lemma written_bindings_bound:
  assumes "\<forall>app\<in>set (AppConfigs rc). rangeOrder_ok order (Certificates app)"
      and "(ctx, c) \<in> set (written_bindings order rc)"
  shows "bound_certificate rc ctx \<noteq> None"
proof -
  from assms(2) have "ctx \<in> fst ` set (rev (written_bindings order rc))" by force
  then have "map_of (rev (written_bindings order rc)) ctx \<noteq> None"
    by (simp add: map_of_eq_None_iff)
  with map_of_written_bindings [OF assms(1), of ctx] show ?thesis by simp
qed

lemma cleared_lookup:
  "fmlookup (cleared ssl m) p =
     (if globMatch ssl ''.crt'' p \<or> globMatch ssl ''.key'' p then None else fmlookup m p)"
  by (simp add: cleared_def)

text \<open>The files after a \<open>WriteCerts\<close> that succeeds, whatever the order of the ranges.\<close>

lemma WriteCerts_files:
  assumes "WriteCerts order rc ssl w = (None, w')"
      and "\<forall>app\<in>set (AppConfigs rc). rangeOrder_ok order (Certificates app)"
  shows "fmlookup (files w') (crt_path ssl ctx) =
           (case bound_certificate rc ctx of
              None \<Rightarrow> fmlookup (cleared ssl (files w)) (crt_path ssl ctx)
            | Some c \<Rightarrow>
                Some \<lparr>content = Cert c,
                      mode = (case fmlookup (cleared ssl (files w)) (crt_path ssl ctx) of
                                None \<Rightarrow> perm_0644 | Some f \<Rightarrow> mode f)\<rparr>)"
    and "fmlookup (files w') (key_path ssl ctx) =
           (case bound_certificate rc ctx of
              None \<Rightarrow> fmlookup (cleared ssl (files w)) (key_path ssl ctx)
            | Some c \<Rightarrow>
                Some \<lparr>content = Key c,
                      mode = (case fmlookup (cleared ssl (files w)) (key_path ssl ctx) of
                                None \<Rightarrow> perm_0600 | Some f \<Rightarrow> mode f)\<rparr>)"
    and "(\<forall>ctx. p \<noteq> crt_path ssl ctx \<and> p \<noteq> key_path ssl ctx) \<Longrightarrow>
           fmlookup (files w') p = fmlookup (files w) p"
proof -
  note f = WriteCerts_ok(1) [OF assms(1)]
  show "fmlookup (files w') (crt_path ssl ctx) =
           (case bound_certificate rc ctx of
              None \<Rightarrow> fmlookup (cleared ssl (files w)) (crt_path ssl ctx)
            | Some c \<Rightarrow>
                Some \<lparr>content = Cert c,
                      mode = (case fmlookup (cleared ssl (files w)) (crt_path ssl ctx) of
                                None \<Rightarrow> perm_0644 | Some f \<Rightarrow> mode f)\<rparr>)"
    unfolding f put_certs_crt map_of_written_bindings [OF assms(2)] ..
  show "fmlookup (files w') (key_path ssl ctx) =
           (case bound_certificate rc ctx of
              None \<Rightarrow> fmlookup (cleared ssl (files w)) (key_path ssl ctx)
            | Some c \<Rightarrow>
                Some \<lparr>content = Key c,
                      mode = (case fmlookup (cleared ssl (files w)) (key_path ssl ctx) of
                                None \<Rightarrow> perm_0600 | Some f \<Rightarrow> mode f)\<rparr>)"
    unfolding f put_certs_key map_of_written_bindings [OF assms(2)] ..
  assume n: "\<forall>ctx. p \<noteq> crt_path ssl ctx \<and> p \<noteq> key_path ssl ctx"
  then have "\<not> globMatch ssl ''.crt'' p" "\<not> globMatch ssl ''.key'' p"
    by (auto simp add: globMatch_crt globMatch_key)
  with n show "fmlookup (files w') p = fmlookup (files w) p"
    unfolding f by (simp add: put_certs_other cleared_lookup)
qed

lemma WriteDHParam_ok:
  assumes "WriteDHParam rc ssl w = (None, w')"
  shows "files w' =
           (if DHParam (SSLConfig rc) = [] then fmdrop (filepath_Join ssl ''dhparam.pem'') (files w)
            else put_file (filepath_Join ssl ''dhparam.pem'') (DHParam (SSLConfig rc)) perm_0644
                   (files w))"
    and "same_but_files w w'"
  using assms os_RemoveAll_ok [of "filepath_Join ssl ''dhparam.pem''" w w']
    ioutil_WriteFile_ok [of "filepath_Join ssl ''dhparam.pem''" "DHParam (SSLConfig rc)" perm_0644 w w']
  by (auto simp add: WriteDHParam_def Let_def split: if_splits)

lemma WriteDHParam_lookup:
  assumes "WriteDHParam rc ssl w = (None, w')"
  shows "fmlookup (files w') p =
           (if p = filepath_Join ssl ''dhparam.pem''
            then (if DHParam (SSLConfig rc) = [] then None
                  else Some \<lparr>content = DHParam (SSLConfig rc),
                             mode = (case fmlookup (files w) p of
                                       None \<Rightarrow> perm_0644 | Some f \<Rightarrow> mode f)\<rparr>)
            else fmlookup (files w) p)"
  unfolding WriteDHParam_ok(1) [OF assms]
  by (auto simp add: fmlookup_put_file)

text \<open>A second \<open>WriteCerts\<close> for the same snapshot changes no file.\<close>

lemma WriteCerts_again:
  assumes o1: "\<forall>app\<in>set (AppConfigs rc). rangeOrder_ok order1 (Certificates app)"
      and o2: "\<forall>app\<in>set (AppConfigs rc). rangeOrder_ok order2 (Certificates app)"
      and c1: "WriteCerts order1 rc ssl w = (None, wa)"
      and d1: "WriteDHParam rc ssl wa = (None, w1)"
      and c2: "WriteCerts order2 rc ssl w1 = (None, wb)"
  shows "files wb = files w1"
proof (rule fmap_ext)
  fix p
  note a1 = WriteCerts_files [OF c1 o1] and a2 = WriteCerts_files [OF c2 o2]
    and dh = WriteDHParam_lookup [OF d1]
  consider (crt) ctx where "p = crt_path ssl ctx" | (key) ctx where "p = key_path ssl ctx"
    | (other) "\<forall>ctx. p \<noteq> crt_path ssl ctx \<and> p \<noteq> key_path ssl ctx"
    by blast
  then show "fmlookup (files wb) p = fmlookup (files w1) p"
  proof cases
    case crt
    have e: "fmlookup (files w1) p = fmlookup (files wa) p"
      unfolding dh crt using dhparam_not_cert(1) [of ssl ctx] by (metis (full_types))
    show ?thesis
      unfolding e unfolding crt a2(1) a1(1) cleared_lookup e [unfolded crt] a1(1)
      by (auto split: option.splits)
  next
    case key
    have e: "fmlookup (files w1) p = fmlookup (files wa) p"
      unfolding dh key using dhparam_not_cert(2) [of ssl ctx] by (metis (full_types))
    show ?thesis
      unfolding e unfolding key a2(2) a1(2) cleared_lookup e [unfolded key] a1(2)
      by (auto split: option.splits)
  next
    case other
    from a2(3) [OF other] show ?thesis .
  qed
qed

lemma range_bindings_set:
  "(d, c) \<in> set (range_bindings certs ks) \<Longrightarrow> fmlookup certs d = Some (Some c)"
  by (auto simp add: range_bindings_def split: option.splits)

lemma written_bindings_set:
  assumes "(ctx, c) \<in> set (written_bindings order rc)"
  shows "(ctx = ''platform'' \<and> PlatformCertificate rc = Some c) \<or>
         (\<exists>app\<in>set (AppConfigs rc). fmlookup (Certificates app) ctx = Some (Some c))"
  using assms
  by (auto simp add: written_bindings_def split: option.splits dest: range_bindings_set)

lemma apps_binding_None:
  "apps_binding apps d = None \<longleftrightarrow>
     (\<forall>app\<in>set apps. \<forall>c. fmlookup (Certificates app) d \<noteq> Some (Some c))"
  by (induction apps) (auto split: option.splits)

lemma bound_certificate_None:
  "bound_certificate rc d = None \<longleftrightarrow>
     (d = ''platform'' \<longrightarrow> PlatformCertificate rc = None) \<and>
     (\<forall>app\<in>set (AppConfigs rc). \<forall>c. fmlookup (Certificates app) d \<noteq> Some (Some c))"
  using apps_binding_None [of "AppConfigs rc" d]
  by (auto simp add: bound_certificate_def split: option.splits)

lemma sorted_order_ok: "rangeOrder_ok sorted_order m"
  by (simp add: rangeOrder_ok_def sorted_order_def sorted_list_of_fset.rep_eq)

lemma reverse_order_ok: "rangeOrder_ok reverse_order m"
  by (simp add: rangeOrder_ok_def reverse_order_def sorted_list_of_fset.rep_eq)

section \<open>The claims\<close>

subsection \<open>The main loop\<close>

text \<open>
  Claim C5. When the snapshot that a tick builds equals the last applied one, the tick
  changes nothing but the log, to which it adds what the synthesis printed: no file is
  written or removed and no reload is signalled (the journal of operations is the one
  before the tick), and the files, the proxy and \<open>known\<close> are as before.
\<close>

theorem tick_equal_snapshot_no_effect:
  assumes "Build (env_namespace E) (env_modeler E) (env_kubeClient E) = (l, Inr routerConfig)"
      and "known = Some routerConfig"
  shows "tick E (known, w) = (known, w\<lparr>logs := logs w @ l\<rparr>) \<and>
         journal (snd (tick E (known, w))) = journal w \<and>
         files (snd (tick E (known, w))) = files w \<and>
         proxy (snd (tick E (known, w))) = proxy w"
  using assms by (simp add: tick_def)

lemma controller_Build: "Build ''deis'' one_value_modeler controller_cluster = ([], Inr controller_snapshot)"
  by code_simp

text \<open>
  The theorem at the cluster of one service, the controller: a tick that starts from the
  snapshot of that cluster as the last applied one leaves a directory with an old
  certificate as it is.
\<close>

theorem tick_equal_snapshot_no_effect_witness:
  "tick (controller_env plain_template reload_ok)
     (Some controller_snapshot,
      ssl_world [(''/opt/router/ssl/old.example.com.crt'', \<lparr>content = ''old'', mode = perm_0644\<rparr>)] []) =
   (Some controller_snapshot,
    ssl_world [(''/opt/router/ssl/old.example.com.crt'', \<lparr>content = ''old'', mode = perm_0644\<rparr>)] [])"
proof -
  let ?E = "controller_env plain_template reload_ok"
  have b: "Build (env_namespace ?E) (env_modeler ?E) (env_kubeClient ?E) = ([], Inr controller_snapshot)"
    by (simp add: controller_env_def controller_Build)
  show ?thesis
    using tick_equal_snapshot_no_effect [OF b refl] by simp
qed

text \<open>
  Claim C1. In a tick whose new snapshot differs from the last applied one, the four apply
  steps run in the order \<open>WriteCerts\<close>, \<open>WriteDHParam\<close>, \<open>WriteConfig\<close>,
  \<open>Reload\<close>, each on the state its predecessor left. The tick stops at the first step
  that returns an error: the state after the tick is the state after that step, with one more
  line in the log, and \<open>known\<close> is unchanged. \<open>known\<close> becomes the new snapshot when
  all four steps succeed, and only then.
\<close>

theorem tick_apply_steps_in_order:
  assumes "Build (env_namespace E) (env_modeler E) (env_kubeClient E) = (l, Inr routerConfig)"
      and "Some routerConfig \<noteq> known"
      and "WriteCerts (env_rangeOrder E) routerConfig ''/opt/router/ssl''
             (log_Printf ''INFO: Router configuration has changed in k8s.''
                (w\<lparr>logs := logs w @ l\<rparr>)) = (e1, w1)"
      and "WriteDHParam routerConfig ''/opt/router/ssl'' w1 = (e2, w2)"
      and "WriteConfig (env_template E) routerConfig ''/opt/router/conf/nginx.conf'' w2 = (e3, w3)"
      and "nginx_Reload E w3 = (e4, w4)"
  shows "fst (tick E (known, w)) =
           (if e1 = None \<and> e2 = None \<and> e3 = None \<and> e4 = None then Some routerConfig else known) \<and>
         (e1 \<noteq> None \<longrightarrow> (\<exists>line. snd (tick E (known, w)) = log_Printf line w1)) \<and>
         (e1 = None \<and> e2 \<noteq> None \<longrightarrow> (\<exists>line. snd (tick E (known, w)) = log_Printf line w2)) \<and>
         (e1 = None \<and> e2 = None \<and> e3 \<noteq> None \<longrightarrow>
            (\<exists>line. snd (tick E (known, w)) = log_Printf line w3)) \<and>
         (e1 = None \<and> e2 = None \<and> e3 = None \<and> e4 \<noteq> None \<longrightarrow>
            (\<exists>line. snd (tick E (known, w)) = log_Printf line w4)) \<and>
         (e1 = None \<and> e2 = None \<and> e3 = None \<and> e4 = None \<longrightarrow> snd (tick E (known, w)) = w4)"
  using assms by (auto simp add: tick_def Let_def split: option.splits)

text \<open>
  The theorem at the cluster of the controller, from no applied snapshot: a tick in which
  all four steps succeed, and four ticks that stop at \<open>WriteCerts\<close> (an old certificate
  that cannot be removed), at \<open>WriteDHParam\<close> (an old parameter file that cannot be
  removed), at \<open>WriteConfig\<close> (the template fails) and at \<open>Reload\<close>.
\<close>

theorem tick_apply_steps_in_order_witness:
  "fst (tick (controller_env plain_template reload_ok) (None, ssl_world [] [])) =
     Some controller_snapshot \<and>
   journal (snd (tick (controller_env plain_template reload_ok) (None, ssl_world [] []))) =
     [EvRemoveAll ''/opt/router/ssl/dhparam.pem'', EvCreate ''/opt/router/conf/nginx.conf'',
      EvWrite ''/opt/router/conf/nginx.conf'' ''daemon off;'', EvReload] \<and>
   fst (tick (controller_env plain_template reload_ok)
          (None, ssl_world [(''/opt/router/ssl/old.crt'', \<lparr>content = ''old'', mode = perm_0644\<rparr>)]
                   [''/opt/router/ssl/old.crt''])) = None \<and>
   journal (snd (tick (controller_env plain_template reload_ok)
          (None, ssl_world [(''/opt/router/ssl/old.crt'', \<lparr>content = ''old'', mode = perm_0644\<rparr>)]
                   [''/opt/router/ssl/old.crt'']))) = [EvRemove ''/opt/router/ssl/old.crt''] \<and>
   fst (tick (controller_env plain_template reload_ok)
          (None, ssl_world [(''/opt/router/ssl/dhparam.pem'', \<lparr>content = ''old'', mode = perm_0644\<rparr>)]
                   [''/opt/router/ssl/dhparam.pem''])) = None \<and>
   journal (snd (tick (controller_env plain_template reload_ok)
          (None, ssl_world [(''/opt/router/ssl/dhparam.pem'', \<lparr>content = ''old'', mode = perm_0644\<rparr>)]
                   [''/opt/router/ssl/dhparam.pem'']))) = [EvRemoveAll ''/opt/router/ssl/dhparam.pem''] \<and>
   fst (tick (controller_env failing_template reload_ok) (None, ssl_world [] [])) = None \<and>
   journal (snd (tick (controller_env failing_template reload_ok) (None, ssl_world [] []))) =
     [EvRemoveAll ''/opt/router/ssl/dhparam.pem'', EvCreate ''/opt/router/conf/nginx.conf'',
      EvWrite ''/opt/router/conf/nginx.conf'' ''daemon''] \<and>
   fst (tick (controller_env plain_template reload_fails) (None, ssl_world [] [])) = None \<and>
   journal (snd (tick (controller_env plain_template reload_fails) (None, ssl_world [] []))) =
     [EvRemoveAll ''/opt/router/ssl/dhparam.pem'', EvCreate ''/opt/router/conf/nginx.conf'',
      EvWrite ''/opt/router/conf/nginx.conf'' ''daemon off;'', EvReload]"
proof -
  define r1 where "r1 = (\<lambda>w :: nat world.
    WriteCerts (\<lambda>m. sorted_list_of_fset (fmdom m)) controller_snapshot ''/opt/router/ssl''
      (log_Printf ''INFO: Router configuration has changed in k8s.'' (w\<lparr>logs := logs w @ []\<rparr>)))"
  define r2 where "r2 = (\<lambda>w. WriteDHParam controller_snapshot ''/opt/router/ssl'' (snd (r1 w)))"
  define r3 where "r3 = (\<lambda>tmpl w.
    WriteConfig tmpl controller_snapshot ''/opt/router/conf/nginx.conf'' (snd (r2 w)))"
  define r4 where "r4 = (\<lambda>tmpl reload w.
    nginx_Reload (controller_env tmpl reload) (snd (r3 tmpl w)))"
  have gen:
    "fst (tick (controller_env tmpl reload) (None, w)) =
       (if fst (r1 w) = None \<and> fst (r2 w) = None \<and> fst (r3 tmpl w) = None \<and>
           fst (r4 tmpl reload w) = None
        then Some controller_snapshot else None) \<and>
     journal (snd (tick (controller_env tmpl reload) (None, w))) =
       (if fst (r1 w) \<noteq> None then journal (snd (r1 w))
        else if fst (r2 w) \<noteq> None then journal (snd (r2 w))
        else if fst (r3 tmpl w) \<noteq> None then journal (snd (r3 tmpl w))
        else journal (snd (r4 tmpl reload w)))" for tmpl reload w
  proof -
    let ?E = "controller_env tmpl reload"
    have b: "Build (env_namespace ?E) (env_modeler ?E) (env_kubeClient ?E) =
               ([], Inr controller_snapshot)"
      by (simp add: controller_env_def controller_Build)
    have n: "Some controller_snapshot \<noteq> None" by simp
    have h1: "WriteCerts (env_rangeOrder ?E) controller_snapshot ''/opt/router/ssl''
                (log_Printf ''INFO: Router configuration has changed in k8s.''
                   (w\<lparr>logs := logs w @ []\<rparr>)) = (fst (r1 w), snd (r1 w))"
      by (simp add: r1_def controller_env_def)
    have h2: "WriteDHParam controller_snapshot ''/opt/router/ssl'' (snd (r1 w)) =
                (fst (r2 w), snd (r2 w))"
      by (simp add: r2_def)
    have h3: "WriteConfig (env_template ?E) controller_snapshot ''/opt/router/conf/nginx.conf''
                (snd (r2 w)) = (fst (r3 tmpl w), snd (r3 tmpl w))"
      by (simp add: r3_def controller_env_def)
    have h4: "nginx_Reload ?E (snd (r3 tmpl w)) = (fst (r4 tmpl reload w), snd (r4 tmpl reload w))"
      by (simp add: r4_def)
    note t = tick_apply_steps_in_order [OF b n h1 h2 h3 h4]
    have j: "journal (snd (tick ?E (None, w))) = journal w'"
      if "\<exists>line. snd (tick ?E (None, w)) = log_Printf line w'" for w'
      using that by (auto simp add: log_Printf_def)
    have t1: "fst (tick ?E (None, w)) =
       (if fst (r1 w) = None \<and> fst (r2 w) = None \<and> fst (r3 tmpl w) = None \<and>
           fst (r4 tmpl reload w) = None
        then Some controller_snapshot else None)"
      using t by (rule conjunct1)
    have t2: "journal (snd (tick ?E (None, w))) =
       (if fst (r1 w) \<noteq> None then journal (snd (r1 w))
        else if fst (r2 w) \<noteq> None then journal (snd (r2 w))
        else if fst (r3 tmpl w) \<noteq> None then journal (snd (r3 tmpl w))
        else journal (snd (r4 tmpl reload w)))"
    proof (cases "fst (r1 w) = None")
      case False
      with t j show ?thesis by presburger
    next
      case c1: True
      show ?thesis
      proof (cases "fst (r2 w) = None")
        case False
        with c1 t j show ?thesis by presburger
      next
        case c2: True
        show ?thesis
        proof (cases "fst (r3 tmpl w) = None")
          case False
          with c1 c2 t j show ?thesis by presburger
        next
          case c3: True
          show ?thesis
          proof (cases "fst (r4 tmpl reload w) = None")
            case False
            with c1 c2 c3 t j show ?thesis by presburger
          next
            case True
            with c1 c2 c3 t show ?thesis by presburger
          qed
        qed
      qed
    qed
    from t1 t2 show ?thesis by (rule conjI)
  qed
  have ok: "fst (r1 (ssl_world [] [])) = None" "fst (r2 (ssl_world [] [])) = None"
    "fst (r3 plain_template (ssl_world [] [])) = None"
    "fst (r4 plain_template reload_ok (ssl_world [] [])) = None"
    "journal (snd (r4 plain_template reload_ok (ssl_world [] []))) =
       [EvRemoveAll ''/opt/router/ssl/dhparam.pem'', EvCreate ''/opt/router/conf/nginx.conf'',
        EvWrite ''/opt/router/conf/nginx.conf'' ''daemon off;'', EvReload]"
    unfolding r1_def r2_def r3_def r4_def by code_simp+
  have certs: 
    "fst (r1 (ssl_world [(''/opt/router/ssl/old.crt'', \<lparr>content = ''old'', mode = perm_0644\<rparr>)]
                   [''/opt/router/ssl/old.crt''])) \<noteq> None"
    "journal (snd (r1 (ssl_world [(''/opt/router/ssl/old.crt'', \<lparr>content = ''old'', mode = perm_0644\<rparr>)]
                   [''/opt/router/ssl/old.crt'']))) = [EvRemove ''/opt/router/ssl/old.crt'']"
    unfolding r1_def by code_simp+
  have dh:
    "fst (r1 (ssl_world [(''/opt/router/ssl/dhparam.pem'', \<lparr>content = ''old'', mode = perm_0644\<rparr>)]
                   [''/opt/router/ssl/dhparam.pem''])) = None"
    "fst (r2 (ssl_world [(''/opt/router/ssl/dhparam.pem'', \<lparr>content = ''old'', mode = perm_0644\<rparr>)]
                   [''/opt/router/ssl/dhparam.pem''])) \<noteq> None"
    "journal (snd (r2 (ssl_world [(''/opt/router/ssl/dhparam.pem'', \<lparr>content = ''old'', mode = perm_0644\<rparr>)]
                   [''/opt/router/ssl/dhparam.pem'']))) = [EvRemoveAll ''/opt/router/ssl/dhparam.pem'']"
    unfolding r1_def r2_def by code_simp+
  have conf:
    "fst (r3 failing_template (ssl_world [] [])) \<noteq> None"
    "journal (snd (r3 failing_template (ssl_world [] []))) =
       [EvRemoveAll ''/opt/router/ssl/dhparam.pem'', EvCreate ''/opt/router/conf/nginx.conf'',
        EvWrite ''/opt/router/conf/nginx.conf'' ''daemon'']"
    unfolding r1_def r2_def r3_def by code_simp+
  have reload:
    "fst (r4 plain_template reload_fails (ssl_world [] [])) \<noteq> None"
    "journal (snd (r4 plain_template reload_fails (ssl_world [] []))) =
       [EvRemoveAll ''/opt/router/ssl/dhparam.pem'', EvCreate ''/opt/router/conf/nginx.conf'',
        EvWrite ''/opt/router/conf/nginx.conf'' ''daemon off;'', EvReload]"
    unfolding r1_def r2_def r3_def r4_def by code_simp+
  note gen1 = gen [THEN conjunct1] and gen2 = gen [THEN conjunct2]
  show ?thesis
    by (simp only: gen1 gen2 ok certs dh conf reload if_True if_False simp_thms)
qed

subsection \<open>Synthesis\<close>

text \<open>
  Claim C8. In a snapshot that synthesis returns, the list of locations of every app is not
  empty and ends with a location of path \<open>/\<close>. The apps come out of
  \<open>buildAppConfig\<close> with no location; \<open>linkLocations\<close> then makes the linked
  locations, and the list of an app in the snapshot is its list after linking followed by
  one root location owned by the app itself.
\<close>

theorem build_locations_end_with_root:
  assumes "build M K dep pcs dhs svcs bs = (l, Inr rc)"
  shows "(\<forall>app\<in>set (AppConfigs rc). Locations app \<noteq> [] \<and> Path (last (Locations app)) = ''/'') \<and>
         (\<exists>l0 rc0 l1 apps linked.
            buildRouterConfig M dep pcs dhs = (l0, Inr rc0) \<and>
            build_appServices M K rc0 svcs [] = (l1, Inr apps) \<and>
            (\<forall>app\<in>set apps. Locations app = []) \<and>
            linkLocations apps = Inr linked \<and>
            length (AppConfigs rc) = length linked \<and>
            (\<forall>i<length linked.
               Locations (AppConfigs rc ! i) = Locations (linked ! i) @ [\<lparr>App = i, Path = ''/''\<rparr>]))"
proof -
  from assms obtain l0 rc0 l1 apps linked where
    r: "buildRouterConfig M dep pcs dhs = (l0, Inr rc0)" and
    a: "build_appServices M K rc0 svcs [] = (l1, Inr apps)" and
    k: "linkLocations apps = Inr linked" and
    f: "AppConfigs rc = addRootLocations linked"
    by (rule build_InrD)
  have n: "\<forall>i<length linked.
             Locations (AppConfigs rc ! i) = Locations (linked ! i) @ [\<lparr>App = i, Path = ''/''\<rparr>]"
    by (simp add: f addRootLocations_nth)
  have len: "length (AppConfigs rc) = length linked"
    by (simp add: f length_addRootLocations)
  have e: "\<forall>app\<in>set apps. Locations app = []"
    using build_appServices_apps [OF a] buildAppConfig_no_locations by fastforce
  have "Locations app \<noteq> [] \<and> Path (last (Locations app)) = ''/''"
    if "app \<in> set (AppConfigs rc)" for app
  proof -
    from that obtain i where "i < length (AppConfigs rc)" and "app = AppConfigs rc ! i"
      by (auto simp add: in_set_conv_nth)
    with n len show ?thesis by simp
  qed
  with r a k n len e show ?thesis by blast
qed

text \<open>
  The theorem at a cluster of two apps, the second of which borrows the path \<open>/api\<close>
  on the domain of the first.
\<close>

theorem build_locations_end_with_root_witness:
  "list_all (\<lambda>app. Locations app \<noteq> [] \<and> Path (last (Locations app)) = ''/'')
     (AppConfigs (projr (snd (build_cluster None [foo_service, borrower_service] no_secrets one_ready)))) \<and>
   map Locations
     (AppConfigs (projr (snd (build_cluster None [foo_service, borrower_service] no_secrets one_ready)))) =
     [[\<lparr>App = 1, Path = ''/api''\<rparr>, \<lparr>App = 0, Path = ''/''\<rparr>], [\<lparr>App = 1, Path = ''/''\<rparr>]]"
proof -
  define rc where
    "rc = projr (snd (build_cluster None [foo_service, borrower_service] no_secrets one_ready))"
  have b: "build one_value_modeler
             (small_cluster [foo_service, borrower_service] no_secrets (\<lambda>ns name. Inr one_ready))
             plain_deployment None None [foo_service, borrower_service] None = ([], Inr rc)"
    unfolding rc_def by code_simp
  have "\<forall>app\<in>set (AppConfigs rc). Locations app \<noteq> [] \<and> Path (last (Locations app)) = ''/''"
    using build_locations_end_with_root [OF b] by (rule conjunct1)
  then have "list_all (\<lambda>app. Locations app \<noteq> [] \<and> Path (last (Locations app)) = ''/'')
               (AppConfigs rc)"
    by (simp add: list_all_iff)
  moreover have "map Locations (AppConfigs rc) =
      [[\<lparr>App = 1, Path = ''/api''\<rparr>, \<lparr>App = 0, Path = ''/''\<rparr>], [\<lparr>App = 1, Path = ''/''\<rparr>]]"
    unfolding rc_def by code_simp
  ultimately show ?thesis unfolding rc_def by (rule conjI)
qed

text \<open>
  Claim C9. In a snapshot that synthesis returns, a domain of an app that holds no dot is
  bound, in the app's map \<open>Certificates\<close>, to the platform certificate of the snapshot
  (nil when there is none), whatever the app's certificate mappings say.
\<close>

theorem build_bare_domain_platform_certificate:
  assumes "build M K dep pcs dhs svcs bs = (l, Inr rc)"
  shows "\<forall>app\<in>set (AppConfigs rc). \<forall>d\<in>set (Domains app).
           CHR ''.'' \<notin> set d \<longrightarrow> fmlookup (Certificates app) d = Some (PlatformCertificate rc)"
proof (intro ballI impI)
  fix app d
  assume app: "app \<in> set (AppConfigs rc)" and d: "d \<in> set (Domains app)"
    and bare: "CHR ''.'' \<notin> set d"
  from assms obtain l0 rc0 l1 apps linked where
    a: "build_appServices M K rc0 svcs [] = (l1, Inr apps)" and
    k: "linkLocations apps = Inr linked" and
    f: "AppConfigs rc = addRootLocations linked" and
    p: "PlatformCertificate rc = PlatformCertificate rc0"
    by (rule build_InrD)
  have "map sans_Locations (AppConfigs rc) = map sans_Locations apps"
    using addRootLocations_frame linkLocations_frame [OF k] by (simp add: f)
  with app have "sans_Locations app \<in> sans_Locations ` set apps"
    by (metis image_eqI list.set_map)
  then obtain app0 where app0: "app0 \<in> set apps" and s: "sans_Locations app = sans_Locations app0"
    by blast
  from s have same: "Domains app = Domains app0" "Certificates app = Certificates app0"
    by (metis AppConfig.select_convs(2) AppConfig.surjective AppConfig.update_convs(18) sans_Locations_def,
        metis AppConfig.select_convs(9) AppConfig.surjective AppConfig.update_convs(18) sans_Locations_def)
  from build_appServices_apps [OF a] app0 obtain sv l' where
    b: "buildAppConfig M K sv rc0 = (l', Inr (Some app0))"
    by auto
  from b obtain bound app3 and endpoints :: Endpoints where
    lp: "buildAppConfig_domains K sv rc0 (Domains bound) bound = (l', Inr app3)" and
    e: "app0 = app3\<lparr>ServiceIP := ClusterIP sv,
                    Available := (length (Subsets endpoints) > 0 \<and>
                                  length (Addresses (Subsets endpoints ! 0)) > 0)\<rparr>"
    by (rule buildAppConfig_SomeD) blast
  from domains_loop_frame [OF lp] have "Domains app3 = Domains bound"
    by (metis AppConfig.select_convs(2) AppConfig.surjective AppConfig.update_convs(9))
  with e d same have "d \<in> set (Domains bound)" by simp
  from domains_loop_bare [OF lp this bare] e same p
  show "fmlookup (Certificates app) d = Some (PlatformCertificate rc)" by simp
qed

text \<open>
  The theorem at an app with the bare domain \<open>foo\<close>, a certificate mapping for it and
  the secret that the mapping names: the domain is bound to the platform certificate.
\<close>

theorem build_bare_domain_platform_certificate_witness:
  "map Domains (AppConfigs (projr (snd
     (build_cluster (Some (tls_secret ''PLATFORM CERT'' ''PLATFORM KEY'')) [bare_service]
        foo_cert_secrets one_ready)))) = [[''foo'']] \<and>
   map CertMappings (AppConfigs (projr (snd
     (build_cluster (Some (tls_secret ''PLATFORM CERT'' ''PLATFORM KEY'')) [bare_service]
        foo_cert_secrets one_ready)))) = [fmap_of_list [(''foo'', ''foo'')]] \<and>
   list_all (\<lambda>app. fmlookup (Certificates app) ''foo'' =
                      Some (Some \<lparr>Cert = ''PLATFORM CERT'', Key = ''PLATFORM KEY''\<rparr>))
     (AppConfigs (projr (snd
       (build_cluster (Some (tls_secret ''PLATFORM CERT'' ''PLATFORM KEY'')) [bare_service]
          foo_cert_secrets one_ready))))"
proof -
  define rc where
    "rc = projr (snd (build_cluster (Some (tls_secret ''PLATFORM CERT'' ''PLATFORM KEY''))
                        [bare_service] foo_cert_secrets one_ready))"
  have b: "build one_value_modeler
             (small_cluster [bare_service] foo_cert_secrets (\<lambda>ns name. Inr one_ready))
             plain_deployment (Some (tls_secret ''PLATFORM CERT'' ''PLATFORM KEY'')) None
             [bare_service] None = ([], Inr rc)"
    unfolding rc_def by code_simp
  have d: "map Domains (AppConfigs rc) = [[''foo'']]"
    and m: "map CertMappings (AppConfigs rc) = [fmap_of_list [(''foo'', ''foo'')]]"
    and p: "PlatformCertificate rc = Some \<lparr>Cert = ''PLATFORM CERT'', Key = ''PLATFORM KEY''\<rparr>"
    unfolding rc_def by code_simp+
  have "fmlookup (Certificates app) ''foo'' = Some (PlatformCertificate rc)"
    if "app \<in> set (AppConfigs rc)" for app
  proof -
    from that d have "''foo'' \<in> set (Domains app)" by auto
    with build_bare_domain_platform_certificate [OF b] that show ?thesis by auto
  qed
  then have "list_all (\<lambda>app. fmlookup (Certificates app) ''foo'' =
                      Some (Some \<lparr>Cert = ''PLATFORM CERT'', Key = ''PLATFORM KEY''\<rparr>))
               (AppConfigs rc)"
    by (simp add: list_all_iff p)
  with d m show ?thesis unfolding rc_def by simp
qed

text \<open>
  Claim C2, as stated, fails: an app with a proxy domain that no app owns and with no
  proxy location passes \<open>linkLocations\<close>, whose guard asks for both, and synthesis
  returns a snapshot that holds the app.
\<close>

theorem build_proxy_domain_without_locations_counterexample:
  "build_cluster None [proxy_only_service] no_secrets one_ready =
     ([], Inr (projr (snd (build_cluster None [proxy_only_service] no_secrets one_ready)))) \<and>
   map ProxyDomain
     (AppConfigs (projr (snd (build_cluster None [proxy_only_service] no_secrets one_ready)))) =
     [''foo.example.com''] \<and>
   appByDomain
     (AppConfigs (projr (snd (build_cluster None [proxy_only_service] no_secrets one_ready))))
     ''foo.example.com'' = None"
  by code_simp

text \<open>
  Claim C2, amended. When the apps are built and one of them has a proxy domain, at least
  one proxy location, and no app owns the proxy domain, synthesis returns no snapshot but
  the error of \<open>linkLocations\<close>, which names the proxy domain of the first such app
  in the order of the list.
\<close>

theorem build_dangling_proxy_domain:
  assumes "buildRouterConfig M dep pcs dhs = (l0, Inr rc0)"
      and "build_appServices M K rc0 svcs [] = (l1, Inr apps)"
      and "app \<in> set apps" and "ProxyDomain app \<noteq> []" and "ProxyLocations app \<noteq> []"
      and "appByDomain apps (ProxyDomain app) = None"
  shows "\<exists>pre first post.
           apps = pre @ first # post \<and> dangling apps first \<and> (\<forall>x\<in>set pre. \<not> dangling apps x) \<and>
           build M K dep pcs dhs svcs bs =
             (l0 @ l1, Inl (proxyDomain_error (ProxyDomain first)))"
proof -
  from assms(3-6) have "\<exists>x\<in>set apps. dangling apps x"
    by (auto simp add: dangling_def)
  from split_list_first_prop [OF this] obtain pre first post where
    s: "apps = pre @ first # post" "dangling apps first" "\<forall>x\<in>set pre. \<not> dangling apps x"
    by blast
  then have "linkLocations apps = Inl (proxyDomain_error (ProxyDomain first))"
    by (rule linkLocations_first_dangling)
  with assms(1,2) buildRouterConfig_no_apps [OF assms(1)]
  have "build M K dep pcs dhs svcs bs = (l0 @ l1, Inl (proxyDomain_error (ProxyDomain first)))"
    by (simp add: build_def)
  with s show ?thesis by blast
qed

text \<open>
  The theorem at an app that borrows \<open>/api\<close> on a domain that no app owns.
\<close>

theorem build_dangling_proxy_domain_witness:
  "build_cluster None [borrower_service] no_secrets one_ready =
     ([], Inl (Errorf ''Can't find ProxyDomain 'foo.example.com' in any application''))"
proof -
  define rc0 where
    "rc0 = projr (snd (buildRouterConfig one_value_modeler plain_deployment None None))"
  define K where
    "K = small_cluster [borrower_service] no_secrets (\<lambda>ns name. Inr one_ready)"
  define apps where
    "apps = projr (snd (build_appServices one_value_modeler K rc0 [borrower_service] []))"
  have r: "buildRouterConfig one_value_modeler plain_deployment None None = ([], Inr rc0)"
    unfolding rc0_def by code_simp
  have a: "build_appServices one_value_modeler K rc0 [borrower_service] [] = ([], Inr apps)"
    unfolding apps_def rc0_def K_def by code_simp
  have h: "hd apps \<in> set apps" "ProxyDomain (hd apps) \<noteq> []" "ProxyLocations (hd apps) \<noteq> []"
    "appByDomain apps (ProxyDomain (hd apps)) = None"
    unfolding apps_def rc0_def K_def by code_simp+
  have one: "map ProxyDomain apps = [''foo.example.com'']"
    unfolding apps_def rc0_def K_def by code_simp
  from build_dangling_proxy_domain [OF r a h, of None] obtain pre first post where
    s: "apps = pre @ first # post" and
    b: "build one_value_modeler K plain_deployment None None [borrower_service] None =
          ([] @ [], Inl (proxyDomain_error (ProxyDomain first)))"
    by blast
  from s one have "ProxyDomain first = ''foo.example.com''"
    by (cases pre) auto
  with b show ?thesis
    by (simp add: build_cluster_def K_def proxyDomain_error_def)
qed

text \<open>
  Claim C4. The flag \<open>Available\<close> of an app should say that the endpoints of its service
  hold a ready address: the template proxies to the service when the flag is set and answers
  503 otherwise. \<open>buildAppConfig\<close> sets it from \<open>endpoints.Subsets[0]\<close> alone and
  misses the ready addresses of every later subset. Here the endpoints of the controller
  have two subsets, the first with an address that is not ready and no ready one, the second
  with the ready address \<open>10.2.0.6\<close>: synthesis returns a snapshot whose one app is
  not available.
\<close>

theorem build_later_subset_ready_not_available:
  "build_cluster None [controller_service] no_secrets late_ready =
     ([], Inr (projr (snd (build_cluster None [controller_service] no_secrets late_ready)))) \<and>
   map Available
     (AppConfigs (projr (snd (build_cluster None [controller_service] no_secrets late_ready)))) =
     [False] \<and>
   concat (map Addresses (Subsets late_ready)) = [''10.2.0.6'']"
  by code_simp

text \<open>
  How far the flag is off, in general: every app of a snapshot that synthesis returns was
  built from a routable service whose endpoints object was read without error, and the flag
  of the app is set if and only if that object has a subset and its first subset has a ready
  address, whatever the other subsets hold.
\<close>

lemma build_available_first_subset:
  assumes "build M K dep pcs dhs svcs bs = (l, Inr rc)"
  shows "\<forall>app\<in>set (AppConfigs rc). \<exists>s\<in>set svcs. \<exists>endpoints.
           Endpoints_Get K (Namespace s) (Service.Name s) = Inr endpoints \<and>
           ServiceIP app = ClusterIP s \<and>
           Available app = (Subsets endpoints \<noteq> [] \<and> Addresses (hd (Subsets endpoints)) \<noteq> [])"
proof
  fix app
  assume app: "app \<in> set (AppConfigs rc)"
  from assms obtain l0 rc0 l1 apps linked where
    a: "build_appServices M K rc0 svcs [] = (l1, Inr apps)" and
    k: "linkLocations apps = Inr linked" and
    f: "AppConfigs rc = addRootLocations linked"
    by (rule build_InrD)
  have "map sans_Locations (AppConfigs rc) = map sans_Locations apps"
    using addRootLocations_frame linkLocations_frame [OF k] by (simp add: f)
  with app have "sans_Locations app \<in> sans_Locations ` set apps"
    by (metis image_eqI list.set_map)
  then obtain app0 where app0: "app0 \<in> set apps" and s: "sans_Locations app = sans_Locations app0"
    by blast
  from s have "ServiceIP (sans_Locations app) = ServiceIP (sans_Locations app0)"
    and "Available (sans_Locations app) = Available (sans_Locations app0)"
    by simp_all
  then have same: "ServiceIP app = ServiceIP app0" "Available app = Available app0"
    by (simp_all add: sans_Locations_def)
  from build_appServices_apps [OF a] app0 obtain sv l' where
    sv: "sv \<in> set svcs" and b: "buildAppConfig M K sv rc0 = (l', Inr (Some app0))"
    by auto
  from b obtain bound app3 and endpoints :: Endpoints where
    g: "Endpoints_Get K (Namespace sv) (Service.Name sv) = Inr endpoints" and
    e: "app0 = app3\<lparr>ServiceIP := ClusterIP sv,
                    Available := (length (Subsets endpoints) > 0 \<and>
                                  length (Addresses (Subsets endpoints ! 0)) > 0)\<rparr>"
    by (rule buildAppConfig_SomeD) blast
  have "Available app0 = (Subsets endpoints \<noteq> [] \<and> Addresses (hd (Subsets endpoints)) \<noteq> [])"
    by (cases "Subsets endpoints") (simp_all add: e)
  with same e g sv
  show "\<exists>s\<in>set svcs. \<exists>endpoints.
           Endpoints_Get K (Namespace s) (Service.Name s) = Inr endpoints \<and>
           ServiceIP app = ClusterIP s \<and>
           Available app = (Subsets endpoints \<noteq> [] \<and> Addresses (hd (Subsets endpoints)) \<noteq> [])"
    by auto
qed

text \<open>
  The lemma at the controller, with endpoints of one subset that holds a ready address and
  with the endpoints of two subsets above.
\<close>

lemma build_available_first_subset_witness:
  "list_all Available
     (AppConfigs (projr (snd (build_cluster None [controller_service] no_secrets one_ready)))) \<and>
   list_all (\<lambda>app. \<not> Available app)
     (AppConfigs (projr (snd (build_cluster None [controller_service] no_secrets late_ready))))"
proof -
  have g: "list_all (\<lambda>app. Available app = (Subsets e \<noteq> [] \<and> Addresses (hd (Subsets e)) \<noteq> []))
             (AppConfigs (projr (snd (build_cluster None [controller_service] no_secrets e))))"
    if ok: "build_cluster None [controller_service] no_secrets e =
              ([], Inr (projr (snd (build_cluster None [controller_service] no_secrets e))))"
    for e
  proof -
    let ?K = "small_cluster [controller_service] no_secrets (\<lambda>ns name. Inr e)"
    have "Endpoints_Get ?K ns name = Inr e" for ns name
      by (simp add: small_cluster_def)
    with build_available_first_subset [OF ok [unfolded build_cluster_def]]
    show ?thesis
      by (auto simp add: list_all_iff build_cluster_def)
  qed
  have "build_cluster None [controller_service] no_secrets one_ready =
          ([], Inr (projr (snd (build_cluster None [controller_service] no_secrets one_ready))))"
    and "build_cluster None [controller_service] no_secrets late_ready =
          ([], Inr (projr (snd (build_cluster None [controller_service] no_secrets late_ready))))"
    by code_simp+
  from g [OF this(1)] g [OF this(2)] show ?thesis
    by (simp add: one_ready_def late_ready_def)
qed

text \<open>
  Claim C3, as stated, fails. A fetch of the secret that fails with an error other than
  not-found aborts the synthesis: \<open>getSecret\<close> returns the error,
  \<open>buildAppConfig\<close> returns it, and \<open>build\<close> returns no snapshot. And a missing
  secret logs no warning: with no secret in the cluster, synthesis returns a snapshot and
  an empty log.
\<close>

theorem certificate_fetch_failure_counterexample:
  "build_cluster None [mapped_service] failing_secrets one_ready =
     ([], Inl (StatusError 500 ''internal error'')) \<and>
   build_cluster None [mapped_service] no_secrets one_ready =
     ([], Inr (projr (snd (build_cluster None [mapped_service] no_secrets one_ready)))) \<and>
   map Domains (AppConfigs (projr (snd (build_cluster None [mapped_service] no_secrets one_ready)))) =
     [[''www.example.com'']] \<and>
   map CertMappings (AppConfigs (projr (snd (build_cluster None [mapped_service] no_secrets one_ready)))) =
     [fmap_of_list [(''www.example.com'', ''www'')]]"
  by code_simp

text \<open>
  Claim C3, amended. For a domain with a dot and a certificate mapping, the pass of the
  loop of \<open>buildAppConfig\<close> for the domain fetches the secret \<open>alias-cert\<close> in the
  namespace of the service. When the secret is missing (not found), the pass changes and
  logs nothing and the loop goes on. When the secret lacks the entry \<open>tls.crt\<close> or
  \<open>tls.key\<close>, the pass logs a warning, binds the domain to a nil certificate and the
  loop goes on. When the fetch fails with any other error, the pass returns that error.
  So, in a snapshot that synthesis returns, for an app with such a domain: the fetch of its
  secret did not fail but with not-found; the domain has no binding when the secret is
  missing; it is bound to nil when the secret lacks an entry, and the warning is in the log
  of the synthesis; and it is bound to the certificate of the secret otherwise. And
  synthesis returns no snapshot but an error whenever, the router's own configuration
  built, some service of the listing has such a domain among the domains that its
  annotations give it and the fetch of the secret in the namespace of the service fails with
  an error other than not-found.
\<close>

theorem certificate_resolution_outcomes:
  assumes "CHR ''.'' \<in> set d"
  shows
    "(\<forall>service routerConfig appConfig.
        fmlookup (CertMappings appConfig) d = Some alias \<longrightarrow>
        buildAppConfig_domain kubeClient service routerConfig d appConfig =
          (case Secrets_Get kubeClient (Namespace service) (alias @ ''-cert'') of
             Inl err \<Rightarrow> if is_not_found err then ([], Inr appConfig) else ([], Inl err)
           | Inr secret \<Rightarrow>
               (case fmlookup (Data secret) ''tls.crt'' of
                  None \<Rightarrow>
                    ([''WARN: The k8s secret intended to convey the '' @ d @
                        '' certificate contained no entry \"tls.crt\".''],
                     Inr (appConfig\<lparr>Certificates := fmupd d None (Certificates appConfig)\<rparr>))
                | Some cert \<Rightarrow>
                    (case fmlookup (Data secret) ''tls.key'' of
                       None \<Rightarrow>
                         ([''WARN: The k8s secret intended to convey the '' @ d @
                             '' certificate key contained no entry \"tls.key\".''],
                          Inr (appConfig\<lparr>Certificates := fmupd d None (Certificates appConfig)\<rparr>))
                     | Some key \<Rightarrow>
                         ([], Inr (appConfig\<lparr>Certificates :=
                                     fmupd d (Some \<lparr>Cert = cert, Key = key\<rparr>)
                                       (Certificates appConfig)\<rparr>)))))) \<and>
     (\<forall>modeler dep pcs dhs svcs bs l rc.
        build modeler kubeClient dep pcs dhs svcs bs = (l, Inr rc) \<longrightarrow>
        (\<forall>app\<in>set (AppConfigs rc).
           d \<in> set (Domains app) \<and> fmlookup (CertMappings app) d = Some alias \<longrightarrow>
           (\<exists>s\<in>set svcs. ServiceIP app = ClusterIP s \<and>
              (case Secrets_Get kubeClient (Namespace s) (alias @ ''-cert'') of
                 Inl err \<Rightarrow> is_not_found err \<and> fmlookup (Certificates app) d = None
               | Inr secret \<Rightarrow>
                   (case fmlookup (Data secret) ''tls.crt'' of
                      None \<Rightarrow>
                        fmlookup (Certificates app) d = Some None \<and>
                        (''WARN: The k8s secret intended to convey the '' @ d @
                           '' certificate contained no entry \"tls.crt\".'') \<in> set l
                    | Some cert \<Rightarrow>
                        (case fmlookup (Data secret) ''tls.key'' of
                           None \<Rightarrow>
                             fmlookup (Certificates app) d = Some None \<and>
                             (''WARN: The k8s secret intended to convey the '' @ d @
                                '' certificate key contained no entry \"tls.key\".'') \<in> set l
                         | Some key \<Rightarrow>
                             fmlookup (Certificates app) d =
                               Some (Some \<lparr>Cert = cert, Key = key\<rparr>))))))) \<and>
     (\<forall>modeler dep pcs dhs svcs bs l0 rc0 s bound err.
        buildRouterConfig modeler dep pcs dhs = (l0, Inr rc0) \<and> s \<in> set svcs \<and>
        annotated_app modeler s rc0 = Inr bound \<and> d \<in> set (Domains bound) \<and>
        fmlookup (CertMappings bound) d = Some alias \<and>
        Secrets_Get kubeClient (Namespace s) (alias @ ''-cert'') = Inl err \<and>
        \<not> is_not_found err \<longrightarrow>
        (\<exists>l e. build modeler kubeClient dep pcs dhs svcs bs = (l, Inl e)))"
  (is "?step \<and> ?built \<and> ?aborts")
proof (intro conjI)
  show ?step
    by (intro allI impI) (rule domain_step_mapped [OF assms])
  show ?built
  proof (intro allI impI ballI, elim conjE)
    fix modeler dep pcs dhs svcs bs l rc app
    assume "build modeler kubeClient dep pcs dhs svcs bs = (l, Inr rc)"
      and "app \<in> set (AppConfigs rc)"
      and "d \<in> set (Domains app)" and "fmlookup (CertMappings app) d = Some alias"
    from build_resolved [OF this(1,2,3) assms this(4), unfolded resolved_def]
    show "\<exists>s\<in>set svcs. ServiceIP app = ClusterIP s \<and>
              (case Secrets_Get kubeClient (Namespace s) (alias @ ''-cert'') of
                 Inl err \<Rightarrow> is_not_found err \<and> fmlookup (Certificates app) d = None
               | Inr secret \<Rightarrow>
                   (case fmlookup (Data secret) ''tls.crt'' of
                      None \<Rightarrow>
                        fmlookup (Certificates app) d = Some None \<and>
                        (''WARN: The k8s secret intended to convey the '' @ d @
                           '' certificate contained no entry \"tls.crt\".'') \<in> set l
                    | Some cert \<Rightarrow>
                        (case fmlookup (Data secret) ''tls.key'' of
                           None \<Rightarrow>
                             fmlookup (Certificates app) d = Some None \<and>
                             (''WARN: The k8s secret intended to convey the '' @ d @
                                '' certificate key contained no entry \"tls.key\".'') \<in> set l
                         | Some key \<Rightarrow>
                             fmlookup (Certificates app) d =
                               Some (Some \<lparr>Cert = cert, Key = key\<rparr>))))" .
  qed
  show ?aborts
  proof (intro allI impI, elim conjE)
    fix modeler dep pcs dhs svcs bs l0 rc0 s bound err
    assume "buildRouterConfig modeler dep pcs dhs = (l0, Inr rc0)" and "s \<in> set svcs"
      and "annotated_app modeler s rc0 = Inr bound" and "d \<in> set (Domains bound)"
      and "fmlookup (CertMappings bound) d = Some alias"
      and "Secrets_Get kubeClient (Namespace s) (alias @ ''-cert'') = Inl err"
      and "\<not> is_not_found err"
    from build_fetch_error [OF this(1,2,3,4) assms this(5,6,7)]
    show "\<exists>l e. build modeler kubeClient dep pcs dhs svcs bs = (l, Inl e)" .
  qed
qed

text \<open>
  The theorem at an app with the domain \<open>www.example.com\<close> mapped to the alias
  \<open>www\<close>: with no secret, with a fetch that fails with status 500, and with a secret
  that has a certificate and no key; and at the synthesis for the service of that app, which
  returns no snapshot when the fetch fails with status 500.
\<close>

theorem certificate_resolution_outcomes_witness:
  "buildAppConfig_domain (small_cluster [mapped_service] no_secrets (\<lambda>ns name. Inr one_ready))
     mapped_service default_RouterConfig ''www.example.com'' mapped_app = ([], Inr mapped_app) \<and>
   buildAppConfig_domain (small_cluster [mapped_service] failing_secrets (\<lambda>ns name. Inr one_ready))
     mapped_service default_RouterConfig ''www.example.com'' mapped_app =
     ([], Inl (StatusError 500 ''internal error'')) \<and>
   buildAppConfig_domain (small_cluster [mapped_service] crt_only_secrets (\<lambda>ns name. Inr one_ready))
     mapped_service default_RouterConfig ''www.example.com'' mapped_app =
     ([''WARN: The k8s secret intended to convey the www.example.com certificate key contained no entry \"tls.key\".''],
      Inr (mapped_app\<lparr>Certificates := fmupd ''www.example.com'' None (Certificates mapped_app)\<rparr>)) \<and>
   list_all (\<lambda>app. fmlookup (Certificates app) ''www.example.com'' = None)
     (AppConfigs (projr (snd (build_cluster None [mapped_service] no_secrets one_ready)))) \<and>
   list_all (\<lambda>app. fmlookup (Certificates app) ''www.example.com'' = Some None)
     (AppConfigs (projr (snd (build_cluster None [mapped_service] crt_only_secrets one_ready)))) \<and>
   ''WARN: The k8s secret intended to convey the www.example.com certificate key contained no entry \"tls.key\".''
     \<in> set (fst (build_cluster None [mapped_service] crt_only_secrets one_ready)) \<and>
   (\<exists>l e. build_cluster None [mapped_service] failing_secrets one_ready = (l, Inl e))"
proof -
  let ?d = "''www.example.com''"
  have fq: "CHR ''.'' \<in> set ?d" by simp
  have m: "fmlookup (CertMappings mapped_app) ?d = Some ''www''"
    by code_simp
  have ns: "Namespace mapped_service = ''prod''"
    by code_simp
  note step = certificate_resolution_outcomes [OF fq, of "''www''", THEN conjunct1, rule_format, OF m]
  have g: "Secrets_Get (small_cluster svcs secrets eps) = secrets" for svcs secrets eps
    by (simp add: small_cluster_def)
  have s1: "buildAppConfig_domain (small_cluster [mapped_service] no_secrets (\<lambda>ns name. Inr one_ready))
     mapped_service default_RouterConfig ?d mapped_app = ([], Inr mapped_app)"
    by (simp add: step g no_secrets_def not_found_def)
  have s2: "buildAppConfig_domain (small_cluster [mapped_service] failing_secrets (\<lambda>ns name. Inr one_ready))
     mapped_service default_RouterConfig ?d mapped_app = ([], Inl (StatusError 500 ''internal error''))"
    by (simp add: step g failing_secrets_def)
  have s3: "buildAppConfig_domain (small_cluster [mapped_service] crt_only_secrets (\<lambda>ns name. Inr one_ready))
     mapped_service default_RouterConfig ?d mapped_app =
     ([''WARN: The k8s secret intended to convey the www.example.com certificate key contained no entry \"tls.key\".''],
      Inr (mapped_app\<lparr>Certificates := fmupd ?d None (Certificates mapped_app)\<rparr>))"
    by (simp add: step g crt_only_secrets_def ns)
  have b: "list_all (\<lambda>app. \<exists>s\<in>set [mapped_service]. ServiceIP app = ClusterIP s \<and>
              (case secrets (Namespace s) (''www'' @ ''-cert'') of
                 Inl err \<Rightarrow> is_not_found err \<and> fmlookup (Certificates app) ?d = None
               | Inr secret \<Rightarrow>
                   (case fmlookup (Data secret) ''tls.crt'' of
                      None \<Rightarrow>
                        fmlookup (Certificates app) ?d = Some None \<and>
                        (''WARN: The k8s secret intended to convey the '' @ ?d @
                           '' certificate contained no entry \"tls.crt\".'') \<in>
                        set (fst (build_cluster None [mapped_service] secrets one_ready))
                    | Some cert \<Rightarrow>
                        (case fmlookup (Data secret) ''tls.key'' of
                           None \<Rightarrow>
                             fmlookup (Certificates app) ?d = Some None \<and>
                             (''WARN: The k8s secret intended to convey the '' @ ?d @
                                '' certificate key contained no entry \"tls.key\".'') \<in>
                             set (fst (build_cluster None [mapped_service] secrets one_ready))
                         | Some key \<Rightarrow>
                             fmlookup (Certificates app) ?d =
                               Some (Some \<lparr>Cert = cert, Key = key\<rparr>)))))
            (AppConfigs (projr (snd (build_cluster None [mapped_service] secrets one_ready))))"
    if ok: "build_cluster None [mapped_service] secrets one_ready =
              (fst (build_cluster None [mapped_service] secrets one_ready),
               Inr (projr (snd (build_cluster None [mapped_service] secrets one_ready))))"
      and dm: "list_all (\<lambda>app. ?d \<in> set (Domains app) \<and>
                 fmlookup (CertMappings app) ?d = Some ''www'')
            (AppConfigs (projr (snd (build_cluster None [mapped_service] secrets one_ready))))"
    for secrets
    using certificate_resolution_outcomes [OF fq, of "''www''"
        "small_cluster [mapped_service] secrets (\<lambda>ns name. Inr one_ready)",
        THEN conjunct2, THEN conjunct1, rule_format, OF ok [unfolded build_cluster_def]] dm
    unfolding list_all_iff g build_cluster_def by blast
  have ok1: "build_cluster None [mapped_service] no_secrets one_ready =
              (fst (build_cluster None [mapped_service] no_secrets one_ready),
               Inr (projr (snd (build_cluster None [mapped_service] no_secrets one_ready))))"
    and dm1: "list_all (\<lambda>app. ?d \<in> set (Domains app) \<and>
                 fmlookup (CertMappings app) ?d = Some ''www'')
            (AppConfigs (projr (snd (build_cluster None [mapped_service] no_secrets one_ready))))"
    and ok2: "build_cluster None [mapped_service] crt_only_secrets one_ready =
              (fst (build_cluster None [mapped_service] crt_only_secrets one_ready),
               Inr (projr (snd (build_cluster None [mapped_service] crt_only_secrets one_ready))))"
    and dm2: "list_all (\<lambda>app. ?d \<in> set (Domains app) \<and>
                 fmlookup (CertMappings app) ?d = Some ''www'')
            (AppConfigs (projr (snd (build_cluster None [mapped_service] crt_only_secrets one_ready))))"
    and ne: "AppConfigs (projr (snd (build_cluster None [mapped_service] crt_only_secrets one_ready))) \<noteq> []"
    by code_simp+
  from b [OF ok1 dm1] have r1:
    "list_all (\<lambda>app. fmlookup (Certificates app) ?d = None)
       (AppConfigs (projr (snd (build_cluster None [mapped_service] no_secrets one_ready))))"
    by (auto simp add: list_all_iff no_secrets_def not_found_def)
  from b [OF ok2 dm2] have r2:
    "list_all (\<lambda>app. fmlookup (Certificates app) ?d = Some None \<and>
        ''WARN: The k8s secret intended to convey the www.example.com certificate key contained no entry \"tls.key\".''
          \<in> set (fst (build_cluster None [mapped_service] crt_only_secrets one_ready)))
       (AppConfigs (projr (snd (build_cluster None [mapped_service] crt_only_secrets one_ready))))"
    by (auto simp add: list_all_iff crt_only_secrets_def ns)
  from r2 ne have r3:
    "''WARN: The k8s secret intended to convey the www.example.com certificate key contained no entry \"tls.key\".''
          \<in> set (fst (build_cluster None [mapped_service] crt_only_secrets one_ready))"
    by (cases "AppConfigs (projr (snd (build_cluster None [mapped_service] crt_only_secrets one_ready)))")
       simp_all
  from r2 have r2': "list_all (\<lambda>app. fmlookup (Certificates app) ?d = Some None)
       (AppConfigs (projr (snd (build_cluster None [mapped_service] crt_only_secrets one_ready))))"
    by (simp add: list_all_iff)
  define rc0 where
    "rc0 = projr (snd (buildRouterConfig one_value_modeler plain_deployment None None))"
  define bound where "bound = projr (annotated_app one_value_modeler mapped_service rc0)"
  have a1: "buildRouterConfig one_value_modeler plain_deployment None None = ([], Inr rc0)"
    and a2: "annotated_app one_value_modeler mapped_service rc0 = Inr bound"
    and a3: "?d \<in> set (Domains bound)"
    and a4: "fmlookup (CertMappings bound) ?d = Some ''www''"
    unfolding rc0_def bound_def by code_simp+
  have a5: "Secrets_Get (small_cluster [mapped_service] failing_secrets (\<lambda>ns name. Inr one_ready))
              (Namespace mapped_service) (''www'' @ ''-cert'') = Inl (StatusError 500 ''internal error'')"
    by (simp add: g failing_secrets_def)
  have a6: "\<not> is_not_found (StatusError 500 ''internal error'')"
    by simp
  have a7: "mapped_service \<in> set [mapped_service]" by simp
  have r4: "\<exists>l e. build_cluster None [mapped_service] failing_secrets one_ready = (l, Inl e)"
    unfolding build_cluster_def
    by (rule certificate_resolution_outcomes [OF fq, of "''www''"
          "small_cluster [mapped_service] failing_secrets (\<lambda>ns name. Inr one_ready)",
          THEN conjunct2, THEN conjunct2, rule_format,
          OF conjI [OF a1 conjI [OF a7 conjI [OF a2 conjI [OF a3 conjI [OF a4 conjI [OF a5 a6]]]]]]])
  from s1 s2 s3 r1 r2' r3 r4 show ?thesis by (intro conjI)
qed

subsection \<open>The certificate directory\<close>

text \<open>
  Claim C7. A \<open>WriteCerts\<close> that succeeds first removes every path that the patterns
  \<open>*.crt\<close> and \<open>*.key\<close> match in the directory, then writes one pair of files
  for each certificate bound in the snapshot, the platform certificate under the name
  \<open>platform\<close> and the certificate of a domain under the domain: the certificate with
  the permission bits 0644 and then the key with 0600 (the journal). After it, the files
  that the patterns match are the pairs of the bound names, each with the certificate last
  written under the name, the certificate file with the bits 0644 and the key file with
  0600, and every other file is as before. The names are taken to hold no path separator
  (the struct tag of \<open>Domains\<close> admits none), and the order of the ranges over the
  maps to list each key once.
\<close>

theorem WriteCerts_replaces_certificates:
  assumes "WriteCerts order routerConfig sslPath w = (None, w')"
      and "\<forall>app\<in>set (AppConfigs routerConfig). rangeOrder_ok order (Certificates app)"
      and "\<forall>ctx. bound_certificate routerConfig ctx \<noteq> None \<longrightarrow> CHR ''/'' \<notin> set ctx"
  shows "journal w' =
           journal w @
           map EvRemove (sorted_list_of_fset (ffilter (globMatch sslPath ''.crt'') (fmdom (files w)))) @
           map EvRemove (sorted_list_of_fset (ffilter (globMatch sslPath ''.key'') (fmdom (files w)))) @
           concat (map (write_events sslPath) (written_bindings order routerConfig)) \<and>
         (\<forall>ctx. CHR ''/'' \<notin> set ctx \<longrightarrow>
            fmlookup (files w') (crt_path sslPath ctx) =
              map_option (\<lambda>c. \<lparr>content = Cert c, mode = perm_0644\<rparr>)
                (bound_certificate routerConfig ctx) \<and>
            fmlookup (files w') (key_path sslPath ctx) =
              map_option (\<lambda>c. \<lparr>content = Key c, mode = perm_0600\<rparr>)
                (bound_certificate routerConfig ctx)) \<and>
         (\<forall>path. globMatch sslPath ''.crt'' path \<longleftrightarrow>
            (\<exists>ctx. path = crt_path sslPath ctx \<and> CHR ''/'' \<notin> set ctx)) \<and>
         (\<forall>path. globMatch sslPath ''.key'' path \<longleftrightarrow>
            (\<exists>ctx. path = key_path sslPath ctx \<and> CHR ''/'' \<notin> set ctx)) \<and>
         (\<forall>path. \<not> globMatch sslPath ''.crt'' path \<and> \<not> globMatch sslPath ''.key'' path \<longrightarrow>
            fmlookup (files w') path = fmlookup (files w) path)"
proof (intro conjI allI impI)
  show "journal w' =
           journal w @
           map EvRemove (sorted_list_of_fset (ffilter (globMatch sslPath ''.crt'') (fmdom (files w)))) @
           map EvRemove (sorted_list_of_fset (ffilter (globMatch sslPath ''.key'') (fmdom (files w)))) @
           concat (map (write_events sslPath) (written_bindings order routerConfig))"
    by (rule WriteCerts_ok(2) [OF assms(1)])
next
  fix ctx
  assume s: "CHR ''/'' \<notin> set ctx"
  then have g: "globMatch sslPath ''.crt'' (crt_path sslPath ctx)"
    "globMatch sslPath ''.key'' (key_path sslPath ctx)"
    by (auto simp add: globMatch_crt globMatch_key)
  show "fmlookup (files w') (crt_path sslPath ctx) =
          map_option (\<lambda>c. \<lparr>content = Cert c, mode = perm_0644\<rparr>) (bound_certificate routerConfig ctx)"
    unfolding WriteCerts_files(1) [OF assms(1,2)] cleared_lookup using g
    by (simp split: option.splits)
  show "fmlookup (files w') (key_path sslPath ctx) =
          map_option (\<lambda>c. \<lparr>content = Key c, mode = perm_0600\<rparr>) (bound_certificate routerConfig ctx)"
    unfolding WriteCerts_files(2) [OF assms(1,2)] cleared_lookup using g
    by (simp split: option.splits)
next
  fix path
  show "globMatch sslPath ''.crt'' path \<longleftrightarrow>
          (\<exists>ctx. path = crt_path sslPath ctx \<and> CHR ''/'' \<notin> set ctx)"
    by (rule globMatch_crt)
  show "globMatch sslPath ''.key'' path \<longleftrightarrow>
          (\<exists>ctx. path = key_path sslPath ctx \<and> CHR ''/'' \<notin> set ctx)"
    by (rule globMatch_key)
next
  fix path
  assume n: "\<not> globMatch sslPath ''.crt'' path \<and> \<not> globMatch sslPath ''.key'' path"
  consider (crt) ctx where "path = crt_path sslPath ctx" | (key) ctx where "path = key_path sslPath ctx"
    | (other) "\<forall>ctx. path \<noteq> crt_path sslPath ctx \<and> path \<noteq> key_path sslPath ctx"
    by blast
  then show "fmlookup (files w') path = fmlookup (files w) path"
  proof cases
    case crt
    with n have "CHR ''/'' \<in> set ctx" by (auto simp add: globMatch_crt)
    with assms(3) have "bound_certificate routerConfig ctx = None" by blast
    with n show ?thesis
      unfolding crt WriteCerts_files(1) [OF assms(1,2)] cleared_lookup by simp
  next
    case key
    with n have "CHR ''/'' \<in> set ctx" by (auto simp add: globMatch_key)
    with assms(3) have "bound_certificate routerConfig ctx = None" by blast
    with n show ?thesis
      unfolding key WriteCerts_files(2) [OF assms(1,2)] cleared_lookup by simp
  next
    case other
    from WriteCerts_files(3) [OF assms(1,2) other] show ?thesis .
  qed
qed

text \<open>
  The theorem at a snapshot with a platform certificate and two certified domains, in a
  directory that holds an old pair, an old certificate of a domain now bound to nil, and a
  file that is no certificate.
\<close>

theorem WriteCerts_replaces_certificates_witness:
  "fst (WriteCerts sorted_order two_cert_snapshot ''/opt/router/ssl'' stale_world) = None \<and>
   journal (snd (WriteCerts sorted_order two_cert_snapshot ''/opt/router/ssl'' stale_world)) =
     [EvRemove ''/opt/router/ssl/c.crt'',
      EvRemove ''/opt/router/ssl/old.example.com.crt'',
      EvRemove ''/opt/router/ssl/old.example.com.key'',
      EvWriteFile ''/opt/router/ssl/platform.crt'' ''PLATFORM CERT'' perm_0644,
      EvWriteFile ''/opt/router/ssl/platform.key'' ''PLATFORM KEY'' perm_0600,
      EvWriteFile ''/opt/router/ssl/a.example.com.crt'' ''CERT A'' perm_0644,
      EvWriteFile ''/opt/router/ssl/a.example.com.key'' ''KEY A'' perm_0600,
      EvWriteFile ''/opt/router/ssl/b.example.com.crt'' ''CERT B'' perm_0644,
      EvWriteFile ''/opt/router/ssl/b.example.com.key'' ''KEY B'' perm_0600] \<and>
   fmlookup (files (snd (WriteCerts sorted_order two_cert_snapshot ''/opt/router/ssl'' stale_world)))
     ''/opt/router/ssl/b.example.com.key'' = Some \<lparr>content = ''KEY B'', mode = perm_0600\<rparr> \<and>
   fmlookup (files (snd (WriteCerts sorted_order two_cert_snapshot ''/opt/router/ssl'' stale_world)))
     ''/opt/router/ssl/platform.crt'' = Some \<lparr>content = ''PLATFORM CERT'', mode = perm_0644\<rparr> \<and>
   fmlookup (files (snd (WriteCerts sorted_order two_cert_snapshot ''/opt/router/ssl'' stale_world)))
     ''/opt/router/ssl/old.example.com.crt'' = None \<and>
   fmlookup (files (snd (WriteCerts sorted_order two_cert_snapshot ''/opt/router/ssl'' stale_world)))
     ''/opt/router/ssl/c.crt'' = None \<and>
   fmlookup (files (snd (WriteCerts sorted_order two_cert_snapshot ''/opt/router/ssl'' stale_world)))
     ''/opt/router/ssl/README'' = Some \<lparr>content = ''certificates'', mode = perm_0644\<rparr>"
proof -
  define r where "r = WriteCerts sorted_order two_cert_snapshot ''/opt/router/ssl'' stale_world"
  have ok: "fst r = None"
    unfolding r_def by code_simp
  then have h: "WriteCerts sorted_order two_cert_snapshot ''/opt/router/ssl'' stale_world = (None, snd r)"
    by (simp add: r_def [symmetric] prod_eq_iff)
  have o: "\<forall>app\<in>set (AppConfigs two_cert_snapshot). rangeOrder_ok sorted_order (Certificates app)"
    by (simp add: sorted_order_ok)
  have b: "bound_certificate two_cert_snapshot ctx =
             (if ctx = ''a.example.com'' then Some \<lparr>Cert = ''CERT A'', Key = ''KEY A''\<rparr>
              else if ctx = ''b.example.com'' then Some \<lparr>Cert = ''CERT B'', Key = ''KEY B''\<rparr>
              else if ctx = ''platform'' then Some \<lparr>Cert = ''PLATFORM CERT'', Key = ''PLATFORM KEY''\<rparr>
              else None)" for ctx
    by (simp add: bound_certificate_def two_cert_snapshot_def fmlookup_of_list)
  have s: "\<forall>ctx. bound_certificate two_cert_snapshot ctx \<noteq> None \<longrightarrow> CHR ''/'' \<notin> set ctx"
    by (auto simp add: b split: if_splits)
  note t = WriteCerts_replaces_certificates [OF h o s]
  have j: "journal stale_world @
           map EvRemove (sorted_list_of_fset (ffilter (globMatch ''/opt/router/ssl'' ''.crt'')
             (fmdom (files stale_world)))) @
           map EvRemove (sorted_list_of_fset (ffilter (globMatch ''/opt/router/ssl'' ''.key'')
             (fmdom (files stale_world)))) @
           concat (map (write_events ''/opt/router/ssl'') (written_bindings sorted_order two_cert_snapshot)) =
     [EvRemove ''/opt/router/ssl/c.crt'',
      EvRemove ''/opt/router/ssl/old.example.com.crt'',
      EvRemove ''/opt/router/ssl/old.example.com.key'',
      EvWriteFile ''/opt/router/ssl/platform.crt'' ''PLATFORM CERT'' perm_0644,
      EvWriteFile ''/opt/router/ssl/platform.key'' ''PLATFORM KEY'' perm_0600,
      EvWriteFile ''/opt/router/ssl/a.example.com.crt'' ''CERT A'' perm_0644,
      EvWriteFile ''/opt/router/ssl/a.example.com.key'' ''KEY A'' perm_0600,
      EvWriteFile ''/opt/router/ssl/b.example.com.crt'' ''CERT B'' perm_0644,
      EvWriteFile ''/opt/router/ssl/b.example.com.key'' ''KEY B'' perm_0600]"
    by code_simp
  have p: "''/opt/router/ssl/b.example.com.key'' = key_path ''/opt/router/ssl'' ''b.example.com''"
    "''/opt/router/ssl/platform.crt'' = crt_path ''/opt/router/ssl'' ''platform''"
    "''/opt/router/ssl/old.example.com.crt'' = crt_path ''/opt/router/ssl'' ''old.example.com''"
    "''/opt/router/ssl/c.crt'' = crt_path ''/opt/router/ssl'' ''c''"
    by (simp_all add: crt_path_def key_path_def filepath_Join_def)
  have g: "\<not> globMatch ''/opt/router/ssl'' ''.crt'' ''/opt/router/ssl/README'' \<and>
           \<not> globMatch ''/opt/router/ssl'' ''.key'' ''/opt/router/ssl/README''"
    by code_simp
  have readme: "fmlookup (files stale_world) ''/opt/router/ssl/README'' =
                  Some \<lparr>content = ''certificates'', mode = perm_0644\<rparr>"
    by code_simp
  from t have t1: "journal (snd r) = [EvRemove ''/opt/router/ssl/c.crt'',
      EvRemove ''/opt/router/ssl/old.example.com.crt'',
      EvRemove ''/opt/router/ssl/old.example.com.key'',
      EvWriteFile ''/opt/router/ssl/platform.crt'' ''PLATFORM CERT'' perm_0644,
      EvWriteFile ''/opt/router/ssl/platform.key'' ''PLATFORM KEY'' perm_0600,
      EvWriteFile ''/opt/router/ssl/a.example.com.crt'' ''CERT A'' perm_0644,
      EvWriteFile ''/opt/router/ssl/a.example.com.key'' ''KEY A'' perm_0600,
      EvWriteFile ''/opt/router/ssl/b.example.com.crt'' ''CERT B'' perm_0644,
      EvWriteFile ''/opt/router/ssl/b.example.com.key'' ''KEY B'' perm_0600]"
    unfolding j by (rule conjunct1)
  from t have t2: "fmlookup (files (snd r)) (crt_path ''/opt/router/ssl'' ctx) =
              map_option (\<lambda>c. \<lparr>content = Cert c, mode = perm_0644\<rparr>)
                (bound_certificate two_cert_snapshot ctx)"
    and t3: "fmlookup (files (snd r)) (key_path ''/opt/router/ssl'' ctx) =
              map_option (\<lambda>c. \<lparr>content = Key c, mode = perm_0600\<rparr>)
                (bound_certificate two_cert_snapshot ctx)"
    if "CHR ''/'' \<notin> set ctx" for ctx
    using that by blast+
  from t g have t4: "fmlookup (files (snd r)) ''/opt/router/ssl/README'' =
      fmlookup (files stale_world) ''/opt/router/ssl/README''"
    by blast
  have "fmlookup (files (snd r)) ''/opt/router/ssl/b.example.com.key'' =
          Some \<lparr>content = ''KEY B'', mode = perm_0600\<rparr>"
    unfolding p by (subst t3) (simp_all add: b)
  moreover have "fmlookup (files (snd r)) ''/opt/router/ssl/platform.crt'' =
          Some \<lparr>content = ''PLATFORM CERT'', mode = perm_0644\<rparr>"
    unfolding p by (subst t2) (simp_all add: b)
  moreover have "fmlookup (files (snd r)) ''/opt/router/ssl/old.example.com.crt'' = None"
    unfolding p by (subst t2) (simp_all add: b)
  moreover have "fmlookup (files (snd r)) ''/opt/router/ssl/c.crt'' = None"
    unfolding p by (subst t2) (simp_all add: b)
  moreover note ok t1 t4 [unfolded readme]
  ultimately show ?thesis
    unfolding r_def by (intro conjI)
qed

text \<open>
  Claim C6. When \<open>WriteCerts\<close> followed by \<open>WriteDHParam\<close> runs twice in a row for
  the same snapshot and the same directory, and the four calls succeed, the files after the
  second run are the files after the first, whatever the orders in which the two runs range
  over the maps of certificates.
\<close>

theorem materializer_idempotent:
  assumes "\<forall>app\<in>set (AppConfigs routerConfig). rangeOrder_ok order1 (Certificates app)"
      and "\<forall>app\<in>set (AppConfigs routerConfig). rangeOrder_ok order2 (Certificates app)"
      and "WriteCerts order1 routerConfig sslPath w = (None, wa)"
      and "WriteDHParam routerConfig sslPath wa = (None, w1)"
      and "WriteCerts order2 routerConfig sslPath w1 = (None, wb)"
      and "WriteDHParam routerConfig sslPath wb = (None, w2)"
  shows "files w2 = files w1"
proof (rule fmap_ext)
  fix p
  have b: "files wb = files w1"
    by (rule WriteCerts_again [OF assms(1,2,3,4,5)])
  show "fmlookup (files w2) p = fmlookup (files w1) p"
    unfolding WriteDHParam_lookup [OF assms(6)] b
    unfolding WriteDHParam_lookup [OF assms(4)]
    by simp
qed

text \<open>
  The theorem at the snapshot of two certified domains with DH parameters, the first run
  ranging over the map in sorted order and the second in reverse; with the files after
  the first run.
\<close>

theorem materializer_idempotent_witness:
  "files (snd (WriteDHParam two_cert_snapshot ''/opt/router/ssl''
       (snd (WriteCerts reverse_order two_cert_snapshot ''/opt/router/ssl''
          (snd (WriteDHParam two_cert_snapshot ''/opt/router/ssl''
             (snd (WriteCerts sorted_order two_cert_snapshot ''/opt/router/ssl'' stale_world)))))))) =
   files (snd (WriteDHParam two_cert_snapshot ''/opt/router/ssl''
             (snd (WriteCerts sorted_order two_cert_snapshot ''/opt/router/ssl'' stale_world)))) \<and>
   files (snd (WriteDHParam two_cert_snapshot ''/opt/router/ssl''
             (snd (WriteCerts sorted_order two_cert_snapshot ''/opt/router/ssl'' stale_world)))) =
   fmap_of_list
     [(''/opt/router/ssl/README'', \<lparr>content = ''certificates'', mode = perm_0644\<rparr>),
      (''/opt/router/ssl/platform.crt'', \<lparr>content = ''PLATFORM CERT'', mode = perm_0644\<rparr>),
      (''/opt/router/ssl/platform.key'', \<lparr>content = ''PLATFORM KEY'', mode = perm_0600\<rparr>),
      (''/opt/router/ssl/a.example.com.crt'', \<lparr>content = ''CERT A'', mode = perm_0644\<rparr>),
      (''/opt/router/ssl/a.example.com.key'', \<lparr>content = ''KEY A'', mode = perm_0600\<rparr>),
      (''/opt/router/ssl/b.example.com.crt'', \<lparr>content = ''CERT B'', mode = perm_0644\<rparr>),
      (''/opt/router/ssl/b.example.com.key'', \<lparr>content = ''KEY B'', mode = perm_0600\<rparr>),
      (''/opt/router/ssl/dhparam.pem'', \<lparr>content = ''DH PARAMS'', mode = perm_0644\<rparr>)]"
proof -
  define ra where "ra = WriteCerts sorted_order two_cert_snapshot ''/opt/router/ssl'' stale_world"
  define r1 where "r1 = WriteDHParam two_cert_snapshot ''/opt/router/ssl'' (snd ra)"
  define rb where "rb = WriteCerts reverse_order two_cert_snapshot ''/opt/router/ssl'' (snd r1)"
  define r2 where "r2 = WriteDHParam two_cert_snapshot ''/opt/router/ssl'' (snd rb)"
  have ok: "fst ra = None" "fst r1 = None" "fst rb = None" "fst r2 = None"
    unfolding ra_def r1_def rb_def r2_def by code_simp+
  have h: "WriteCerts sorted_order two_cert_snapshot ''/opt/router/ssl'' stale_world = (None, snd ra)"
    "WriteDHParam two_cert_snapshot ''/opt/router/ssl'' (snd ra) = (None, snd r1)"
    "WriteCerts reverse_order two_cert_snapshot ''/opt/router/ssl'' (snd r1) = (None, snd rb)"
    "WriteDHParam two_cert_snapshot ''/opt/router/ssl'' (snd rb) = (None, snd r2)"
    using ok by (simp_all add: ra_def [symmetric] r1_def [symmetric] rb_def [symmetric]
        r2_def [symmetric] prod_eq_iff)
  have o: "\<forall>app\<in>set (AppConfigs two_cert_snapshot). rangeOrder_ok sorted_order (Certificates app)"
    "\<forall>app\<in>set (AppConfigs two_cert_snapshot). rangeOrder_ok reverse_order (Certificates app)"
    by (simp_all add: sorted_order_ok reverse_order_ok)
  have "files (snd r2) = files (snd r1)"
    by (rule materializer_idempotent [OF o h])
  moreover have "files (snd r1) =
   fmap_of_list
     [(''/opt/router/ssl/README'', \<lparr>content = ''certificates'', mode = perm_0644\<rparr>),
      (''/opt/router/ssl/platform.crt'', \<lparr>content = ''PLATFORM CERT'', mode = perm_0644\<rparr>),
      (''/opt/router/ssl/platform.key'', \<lparr>content = ''PLATFORM KEY'', mode = perm_0600\<rparr>),
      (''/opt/router/ssl/a.example.com.crt'', \<lparr>content = ''CERT A'', mode = perm_0644\<rparr>),
      (''/opt/router/ssl/a.example.com.key'', \<lparr>content = ''KEY A'', mode = perm_0600\<rparr>),
      (''/opt/router/ssl/b.example.com.crt'', \<lparr>content = ''CERT B'', mode = perm_0644\<rparr>),
      (''/opt/router/ssl/b.example.com.key'', \<lparr>content = ''KEY B'', mode = perm_0600\<rparr>),
      (''/opt/router/ssl/dhparam.pem'', \<lparr>content = ''DH PARAMS'', mode = perm_0644\<rparr>)]"
    unfolding ra_def r1_def by code_simp
  ultimately show ?thesis
    unfolding ra_def r1_def rb_def r2_def by (rule conjI)
qed

text \<open>
  Claim C10. In a snapshot that synthesis returns, a bare domain is bound to nil when
  there is no platform certificate, and a domain with a dot and a certificate mapping is
  bound to nil when its secret is there and lacks the entry \<open>tls.crt\<close> or
  \<open>tls.key\<close>: the domain is a key of the map \<open>Certificates\<close>. A \<open>WriteCerts\<close>
  that succeeds writes the files of the bindings to a certificate only (the journal, and
  where the written bindings come from), so that a name bound to nil, and to a certificate by
  no app, has no certificate file and no key file after it.
\<close>

theorem nil_bindings_write_no_files:
  assumes "build modeler kubeClient dep pcs dhs svcs bs = (l, Inr routerConfig)"
      and "WriteCerts order routerConfig sslPath w = (None, w')"
      and "\<forall>app\<in>set (AppConfigs routerConfig). rangeOrder_ok order (Certificates app)"
  shows "(\<forall>app\<in>set (AppConfigs routerConfig). \<forall>d\<in>set (Domains app).
            CHR ''.'' \<notin> set d \<and> PlatformCertificate routerConfig = None \<longrightarrow>
            fmlookup (Certificates app) d = Some None) \<and>
         (\<forall>app\<in>set (AppConfigs routerConfig). \<forall>d\<in>set (Domains app). \<forall>alias.
            CHR ''.'' \<in> set d \<and> fmlookup (CertMappings app) d = Some alias \<and>
            (\<forall>s\<in>set svcs. \<exists>secret.
               Secrets_Get kubeClient (Namespace s) (alias @ ''-cert'') = Inr secret \<and>
               (fmlookup (Data secret) ''tls.crt'' = None \<or>
                fmlookup (Data secret) ''tls.key'' = None)) \<longrightarrow>
            fmlookup (Certificates app) d = Some None) \<and>
         journal w' =
           journal w @
           map EvRemove (sorted_list_of_fset (ffilter (globMatch sslPath ''.crt'') (fmdom (files w)))) @
           map EvRemove (sorted_list_of_fset (ffilter (globMatch sslPath ''.key'') (fmdom (files w)))) @
           concat (map (write_events sslPath) (written_bindings order routerConfig)) \<and>
         (\<forall>ctx c. (ctx, c) \<in> set (written_bindings order routerConfig) \<longrightarrow>
            (ctx = ''platform'' \<and> PlatformCertificate routerConfig = Some c) \<or>
            (\<exists>app\<in>set (AppConfigs routerConfig). fmlookup (Certificates app) ctx = Some (Some c))) \<and>
         (\<forall>d. (d = ''platform'' \<longrightarrow> PlatformCertificate routerConfig = None) \<and>
              (\<forall>app\<in>set (AppConfigs routerConfig). \<forall>c.
                 fmlookup (Certificates app) d \<noteq> Some (Some c)) \<and>
              CHR ''/'' \<notin> set d \<longrightarrow>
              fmlookup (files w') (crt_path sslPath d) = None \<and>
              fmlookup (files w') (key_path sslPath d) = None)"
proof (intro conjI ballI allI impI)
  fix app d
  assume app: "app \<in> set (AppConfigs routerConfig)" and d: "d \<in> set (Domains app)"
    and h: "CHR ''.'' \<notin> set d \<and> PlatformCertificate routerConfig = None"
  from assms(1) app obtain s rc0 bound app3 l' where
    p: "PlatformCertificate routerConfig = PlatformCertificate rc0" and
    lp: "buildAppConfig_domains kubeClient s rc0 (Domains bound) bound = (l', Inr app3)" and
    same: "Domains app = Domains bound" "Certificates app = Certificates app3"
    by (rule build_app_origin) blast
  from d same have "d \<in> set (Domains bound)" by simp
  from domains_loop_bare [OF lp this] h p same
  show "fmlookup (Certificates app) d = Some None" by simp
next
  fix app d certMapping
  assume app: "app \<in> set (AppConfigs routerConfig)" and d: "d \<in> set (Domains app)"
    and h: "CHR ''.'' \<in> set d \<and> fmlookup (CertMappings app) d = Some certMapping \<and>
            (\<forall>s\<in>set svcs. \<exists>secret.
               Secrets_Get kubeClient (Namespace s) (certMapping @ ''-cert'') = Inr secret \<and>
               (fmlookup (Data secret) ''tls.crt'' = None \<or>
                fmlookup (Data secret) ''tls.key'' = None))"
  from h have fq: "CHR ''.'' \<in> set d" and m: "fmlookup (CertMappings app) d = Some certMapping"
    by simp_all
  from build_resolved [OF assms(1) app d fq m] obtain s where
    s: "s \<in> set svcs" and
    r: "resolved kubeClient (Namespace s) certMapping d l None (fmlookup (Certificates app) d)"
    by blast
  from h s obtain secret where
    "Secrets_Get kubeClient (Namespace s) (certMapping @ ''-cert'') = Inr secret"
    "fmlookup (Data secret) ''tls.crt'' = None \<or> fmlookup (Data secret) ''tls.key'' = None"
    by blast
  with r show "fmlookup (Certificates app) d = Some None"
    by (auto simp add: resolved_def split: option.splits)
next
  show "journal w' =
           journal w @
           map EvRemove (sorted_list_of_fset (ffilter (globMatch sslPath ''.crt'') (fmdom (files w)))) @
           map EvRemove (sorted_list_of_fset (ffilter (globMatch sslPath ''.key'') (fmdom (files w)))) @
           concat (map (write_events sslPath) (written_bindings order routerConfig))"
    by (rule WriteCerts_ok(2) [OF assms(2)])
next
  fix ctx c
  assume "(ctx, c) \<in> set (written_bindings order routerConfig)"
  then show "(ctx = ''platform'' \<and> PlatformCertificate routerConfig = Some c) \<or>
            (\<exists>app\<in>set (AppConfigs routerConfig). fmlookup (Certificates app) ctx = Some (Some c))"
    by (rule written_bindings_set)
next
  fix d
  assume h: "(d = ''platform'' \<longrightarrow> PlatformCertificate routerConfig = None) \<and>
              (\<forall>app\<in>set (AppConfigs routerConfig). \<forall>c.
                 fmlookup (Certificates app) d \<noteq> Some (Some c)) \<and>
              CHR ''/'' \<notin> set d"
  then have n: "bound_certificate routerConfig d = None"
    by (simp add: bound_certificate_None)
  from h have g: "globMatch sslPath ''.crt'' (crt_path sslPath d)"
    "globMatch sslPath ''.key'' (key_path sslPath d)"
    by (auto simp add: globMatch_crt globMatch_key)
  show "fmlookup (files w') (crt_path sslPath d) = None"
    unfolding WriteCerts_files(1) [OF assms(2,3)] n cleared_lookup using g by simp
  show "fmlookup (files w') (key_path sslPath d) = None"
    unfolding WriteCerts_files(2) [OF assms(2,3)] n cleared_lookup using g by simp
qed

text \<open>
  The theorem at the cluster of an app with the bare domain \<open>foo\<close> and an app whose
  secret has no key, with no platform certificate: both domains are keys of their maps,
  bound to nil, and \<open>WriteCerts\<close> writes nothing.
\<close>

theorem nil_bindings_write_no_files_witness:
  "map Certificates (AppConfigs nil_snapshot) =
     [fmap_of_list [(''foo'', None)], fmap_of_list [(''www.example.com'', None)]] \<and>
   fst (WriteCerts sorted_order nil_snapshot ''/opt/router/ssl'' stale_world) = None \<and>
   journal (snd (WriteCerts sorted_order nil_snapshot ''/opt/router/ssl'' stale_world)) =
     [EvRemove ''/opt/router/ssl/c.crt'',
      EvRemove ''/opt/router/ssl/old.example.com.crt'',
      EvRemove ''/opt/router/ssl/old.example.com.key''] \<and>
   fmlookup (files (snd (WriteCerts sorted_order nil_snapshot ''/opt/router/ssl'' stale_world)))
     ''/opt/router/ssl/foo.crt'' = None \<and>
   fmlookup (files (snd (WriteCerts sorted_order nil_snapshot ''/opt/router/ssl'' stale_world)))
     ''/opt/router/ssl/foo.key'' = None \<and>
   fmlookup (files (snd (WriteCerts sorted_order nil_snapshot ''/opt/router/ssl'' stale_world)))
     ''/opt/router/ssl/www.example.com.crt'' = None \<and>
   fmlookup (files (snd (WriteCerts sorted_order nil_snapshot ''/opt/router/ssl'' stale_world)))
     ''/opt/router/ssl/www.example.com.key'' = None"
proof -
  define K where
    "K = small_cluster [bare_service, mapped_service] crt_only_secrets (\<lambda>ns name. Inr one_ready)"
  define l where
    "l = fst (build_cluster None [bare_service, mapped_service] crt_only_secrets one_ready)"
  define r where "r = WriteCerts sorted_order nil_snapshot ''/opt/router/ssl'' stale_world"
  have "build_cluster None [bare_service, mapped_service] crt_only_secrets one_ready =
          (l, Inr nil_snapshot)"
    unfolding l_def nil_snapshot_def by code_simp
  then have b: "build one_value_modeler K plain_deployment None None [bare_service, mapped_service] None =
                  (l, Inr nil_snapshot)"
    by (simp add: build_cluster_def K_def)
  have ok: "fst r = None"
    unfolding r_def by code_simp
  then have h: "WriteCerts sorted_order nil_snapshot ''/opt/router/ssl'' stale_world = (None, snd r)"
    by (simp add: r_def [symmetric] prod_eq_iff)
  have o: "\<forall>app\<in>set (AppConfigs nil_snapshot). rangeOrder_ok sorted_order (Certificates app)"
    by (simp add: sorted_order_ok)
  note t = nil_bindings_write_no_files [OF b h o]
  have apps: "length (AppConfigs nil_snapshot) = 2"
    and d0: "Domains (AppConfigs nil_snapshot ! 0) = [''foo'']"
    and d1: "Domains (AppConfigs nil_snapshot ! 1) = [''www.example.com'']"
    and m1: "fmlookup (CertMappings (AppConfigs nil_snapshot ! 1)) ''www.example.com'' = Some ''www''"
    and p: "PlatformCertificate nil_snapshot = None"
    and c0: "fmdom (Certificates (AppConfigs nil_snapshot ! 0)) = {|''foo''|}"
    and c1: "fmdom (Certificates (AppConfigs nil_snapshot ! 1)) = {|''www.example.com''|}"
    and w: "written_bindings sorted_order nil_snapshot = []"
    by code_simp+
  from apps have in0: "AppConfigs nil_snapshot ! 0 \<in> set (AppConfigs nil_snapshot)"
    and in1: "AppConfigs nil_snapshot ! 1 \<in> set (AppConfigs nil_snapshot)"
    by simp_all
  from apps obtain a0 a1 where ab: "AppConfigs nil_snapshot = [a0, a1]"
    by (cases "AppConfigs nil_snapshot"; cases "tl (AppConfigs nil_snapshot)") auto
  from t in0 d0 p have e0: "fmlookup (Certificates (AppConfigs nil_snapshot ! 0)) ''foo'' = Some None"
    by auto
  have sec: "\<forall>s\<in>set [bare_service, mapped_service]. \<exists>secret.
               Secrets_Get K (Namespace s) (''www'' @ ''-cert'') = Inr secret \<and>
               (fmlookup (Data secret) ''tls.crt'' = None \<or> fmlookup (Data secret) ''tls.key'' = None)"
    by (simp add: K_def small_cluster_def crt_only_secrets_def bare_service_def mapped_service_def
        annotated_service_def)
  from t have "\<forall>app\<in>set (AppConfigs nil_snapshot). \<forall>d\<in>set (Domains app). \<forall>certMapping.
            CHR ''.'' \<in> set d \<and> fmlookup (CertMappings app) d = Some certMapping \<and>
            (\<forall>s\<in>set [bare_service, mapped_service]. \<exists>secret.
               Secrets_Get K (Namespace s) (certMapping @ ''-cert'') = Inr secret \<and>
               (fmlookup (Data secret) ''tls.crt'' = None \<or>
                fmlookup (Data secret) ''tls.key'' = None)) \<longrightarrow>
            fmlookup (Certificates app) d = Some None"
    by (elim conjE)
  from this [rule_format, OF in1, of "''www.example.com''" "''www''"] d1 m1 sec
  have e1: "fmlookup (Certificates (AppConfigs nil_snapshot ! 1)) ''www.example.com'' = Some None"
    by simp
  have c: "map Certificates (AppConfigs nil_snapshot) =
             [fmap_of_list [(''foo'', None)], fmap_of_list [(''www.example.com'', None)]]"
  proof -
    have "Certificates (AppConfigs nil_snapshot ! 0) = fmap_of_list [(''foo'', None)]"
    proof (rule fmap_ext)
      fix x
      show "fmlookup (Certificates (AppConfigs nil_snapshot ! 0)) x =
              fmlookup (fmap_of_list [(''foo'', None)]) x"
        using e0 c0 by (cases "x = ''foo''") (auto simp add: fmlookup_of_list fmlookup_dom_iff
            dest!: fmdom_notD [of x "Certificates (AppConfigs nil_snapshot ! 0)"])
    qed
    moreover have "Certificates (AppConfigs nil_snapshot ! 1) =
                     fmap_of_list [(''www.example.com'', None)]"
    proof (rule fmap_ext)
      fix x
      show "fmlookup (Certificates (AppConfigs nil_snapshot ! 1)) x =
              fmlookup (fmap_of_list [(''www.example.com'', None)]) x"
        using e1 c1 by (cases "x = ''www.example.com''") (auto simp add: fmlookup_of_list
            fmlookup_dom_iff dest!: fmdom_notD [of x "Certificates (AppConfigs nil_snapshot ! 1)"])
    qed
    ultimately show ?thesis by (simp add: ab)
  qed
  have none: "\<forall>app\<in>set (AppConfigs nil_snapshot). \<forall>c. fmlookup (Certificates app) d \<noteq> Some (Some c)"
    for d
    using c by (auto simp add: ab fmlookup_of_list split: if_splits)
  from t have j: "journal (snd r) =
           journal stale_world @
           map EvRemove (sorted_list_of_fset (ffilter (globMatch ''/opt/router/ssl'' ''.crt'')
             (fmdom (files stale_world)))) @
           map EvRemove (sorted_list_of_fset (ffilter (globMatch ''/opt/router/ssl'' ''.key'')
             (fmdom (files stale_world)))) @
           concat (map (write_events ''/opt/router/ssl'') (written_bindings sorted_order nil_snapshot))"
    by (elim conjE)
  have jv: "journal stale_world @
           map EvRemove (sorted_list_of_fset (ffilter (globMatch ''/opt/router/ssl'' ''.crt'')
             (fmdom (files stale_world)))) @
           map EvRemove (sorted_list_of_fset (ffilter (globMatch ''/opt/router/ssl'' ''.key'')
             (fmdom (files stale_world)))) =
     [EvRemove ''/opt/router/ssl/c.crt'',
      EvRemove ''/opt/router/ssl/old.example.com.crt'',
      EvRemove ''/opt/router/ssl/old.example.com.key'']"
    by code_simp
  from j jv w have j': "journal (snd r) =
     [EvRemove ''/opt/router/ssl/c.crt'',
      EvRemove ''/opt/router/ssl/old.example.com.crt'',
      EvRemove ''/opt/router/ssl/old.example.com.key'']"
    by simp
  from t have f: "(d = ''platform'' \<longrightarrow> PlatformCertificate nil_snapshot = None) \<and>
              (\<forall>app\<in>set (AppConfigs nil_snapshot). \<forall>c.
                 fmlookup (Certificates app) d \<noteq> Some (Some c)) \<and>
              CHR ''/'' \<notin> set d \<longrightarrow>
              fmlookup (files (snd r)) (crt_path ''/opt/router/ssl'' d) = None \<and>
              fmlookup (files (snd r)) (key_path ''/opt/router/ssl'' d) = None" for d
    by blast
  have paths: "''/opt/router/ssl/foo.crt'' = crt_path ''/opt/router/ssl'' ''foo''"
    "''/opt/router/ssl/foo.key'' = key_path ''/opt/router/ssl'' ''foo''"
    "''/opt/router/ssl/www.example.com.crt'' = crt_path ''/opt/router/ssl'' ''www.example.com''"
    "''/opt/router/ssl/www.example.com.key'' = key_path ''/opt/router/ssl'' ''www.example.com''"
    by (simp_all add: crt_path_def key_path_def filepath_Join_def)
  from f [of "''foo''"] f [of "''www.example.com''"] none p
  have "fmlookup (files (snd r)) ''/opt/router/ssl/foo.crt'' = None"
    "fmlookup (files (snd r)) ''/opt/router/ssl/foo.key'' = None"
    "fmlookup (files (snd r)) ''/opt/router/ssl/www.example.com.crt'' = None"
    "fmlookup (files (snd r)) ''/opt/router/ssl/www.example.com.key'' = None"
    unfolding paths by simp_all
  with c ok j' show ?thesis
    unfolding r_def by (intro conjI)
qed

end
